theory Spec2Isabelle
  imports Main "HOL-Library.Word" "HOL-Library.AList" "HOL-Library.Monad_Syntax" "HOL-Library.Sublist"
begin

chapter \<open>The model: the central log processor and the multi-condition trigger\<close>

text \<open>
  A shallow embedding of \<^verbatim>\<open>src/statsd/src/StatsLogProcessor.cpp\<close> and
  \<^verbatim>\<open>src/statsd/src/utils/MultiConditionTrigger.cpp\<close>. Mutation is explicit state
  passing; calls that leave the processor (statistics, broadcasts, storage) are recorded in
  a call log so that "is invoked" and "is not invoked" can be stated.
\<close>

section \<open>MultiConditionTrigger\<close>

text \<open>
  The object of \<^verbatim>\<open>MultiConditionTrigger.cpp\<close>. \<open>mRemainingConditionNames\<close> is the
  \<^verbatim>\<open>std::set<string>\<close>, \<open>mCompleted\<close> the flag. The trigger function runs on a detached
  thread; \<open>dispatched\<close> counts how many such threads have been started. Both the constructor
  and \<open>markComplete\<close> are atomic with respect to each other (the body of \<open>markComplete\<close> that
  touches the fields runs under \<open>mMutex\<close>), so a history of the object is a sequence of calls.
\<close>

record MultiConditionTrigger =
  mRemainingConditionNames :: "string set"
  mCompleted :: bool
  dispatched :: nat

definition newMultiConditionTrigger :: "string set \<Rightarrow> MultiConditionTrigger" where
  "newMultiConditionTrigger conditionNames =
     \<lparr> mRemainingConditionNames = conditionNames,
       mCompleted = (conditionNames = {}),
       dispatched = (if conditionNames = {} then 1 else 0) \<rparr>"

definition markComplete :: "string \<Rightarrow> MultiConditionTrigger \<Rightarrow> MultiConditionTrigger" where
  "markComplete conditionName t =
     (if mCompleted t then t
      else
        let remaining = mRemainingConditionNames t - {conditionName};
            doTrigger = (remaining = {})
        in t \<lparr> mRemainingConditionNames := remaining,
               mCompleted := doTrigger,
               dispatched := dispatched t + (if doTrigger then 1 else 0) \<rparr>)"

text \<open>The object after construction and a sequence of \<open>markComplete\<close> calls.\<close>

definition afterCalls :: "string set \<Rightarrow> string list \<Rightarrow> MultiConditionTrigger" where
  "afterCalls conditionNames calls =
     foldl (\<lambda>t n. markComplete n t) (newMultiConditionTrigger conditionNames) calls"

section \<open>Data model of the processor\<close>

type_synonym int32 = "32 word"
type_synonym int64 = "64 word"
type_synonym bytes = "8 word list"

text \<open>\<^verbatim>\<open>ConfigKey\<close> = (uid, id).\<close>

datatype ConfigKey = ConfigKey (GetUid: int) (GetId: int)

text \<open>
  \<^verbatim>\<open>InstallTrainInfo\<close>, with the fields the processor reads and writes. The version code
  and the experiment ids are \<^verbatim>\<open>int64_t\<close>; arithmetic on them wraps.
\<close>

record InstallTrainInfo =
  trainVersionCode :: int64
  trainName :: string
  status :: int32
  experimentIds :: "int64 list"
  requiresStaging :: bool
  rollbackEnabled :: bool
  requiresLowLatencyMonitor :: bool

text \<open>
  Modelled from the spec: \<^verbatim>\<open>LogEvent\<close> (logd/LogEvent.h is not among the sources). The
  header members are plain fields; the positional list of typed field values is kept
  abstract (type \<open>'v\<close>) and is read and written only through the accessors of
  \<open>LogEventOps\<close> below.
\<close>

record 'v LogEvent =
  mTagId :: int
  mElapsedTimestampNs :: int
  mLogUid :: int
  mLogPid :: int
  mValid :: bool
  mRestricted :: bool
  mParsedHeaderOnly :: bool
  mValues :: 'v

text \<open>
  The value and type arguments of \<^verbatim>\<open>LogEvent::updateValue(key, value, type)\<close>, for the
  types \<^verbatim>\<open>INT\<close>, \<^verbatim>\<open>LONG\<close> and \<^verbatim>\<open>STORAGE\<close>.
\<close>

datatype Value = INT_VALUE int32 | LONG_VALUE int64 | STORAGE_VALUE bytes

text \<open>
  Modelled from the spec: the accessors of \<^verbatim>\<open>LogEvent\<close>. A getter \<^verbatim>\<open>Get*(key, &err)\<close>
  yields \<open>None\<close> where the source writes a failure status to \<open>err\<close> (the requested
  position is absent or has the wrong type) and \<open>Some v\<close> where it leaves \<open>err\<close> alone.
  \<open>hasAttributionChain\<close> yields the index range of the chain; \<open>isAttributionUidField\<close>,
  \<open>int_value\<close> and \<open>setInt\<close> address one element of \<^verbatim>\<open>getMutableValues()\<close>;
  \<open>mapIsolatedUidsToHostUidInLogEvent\<close> is the helper of stats_log_util applied with a
  uid translation.
\<close>

record 'v LogEventOps =
  size_values :: "'v \<Rightarrow> nat"
  GetLong :: "'v \<Rightarrow> nat \<Rightarrow> int64 option"
  GetInt :: "'v \<Rightarrow> nat \<Rightarrow> int32 option"
  GetString :: "'v \<Rightarrow> nat \<Rightarrow> string option"
  GetBool :: "'v \<Rightarrow> nat \<Rightarrow> bool option"
  GetStorage :: "'v \<Rightarrow> nat \<Rightarrow> bytes option"
  updateValue :: "nat \<Rightarrow> Value \<Rightarrow> 'v \<Rightarrow> 'v"
  hasAttributionChain :: "'v \<Rightarrow> (nat \<times> nat) option"
  isAttributionUidField :: "'v \<Rightarrow> nat \<Rightarrow> bool"
  int_value :: "'v \<Rightarrow> nat \<Rightarrow> int"
  setInt :: "nat \<Rightarrow> int \<Rightarrow> 'v \<Rightarrow> 'v"
  mapIsolatedUidsToHostUidInLogEvent :: "(int \<Rightarrow> int) \<Rightarrow> 'v \<Rightarrow> 'v"

text \<open>
  Constants the sources use but do not declare (the generated atom header
  \<^verbatim>\<open>statslog_statsd.h\<close>, \<^verbatim>\<open>StatsdStats\<close>, \<^verbatim>\<open>android_filesystem_config.h\<close>). They are
  parameters of the model. The enumerators of the two atom enums are abbreviated:
  \<open>STATE_INSTALL_SUCCESS\<close> is \<^verbatim>\<open>BINARY_PUSH_STATE_CHANGED__STATE__INSTALL_SUCCESS\<close>,
  \<open>ROLLBACK_TYPE_ROLLBACK_INITIATE\<close> is
  \<^verbatim>\<open>WATCHDOG_ROLLBACK_OCCURRED__ROLLBACK_TYPE__ROLLBACK_INITIATE\<close>, and so on.
\<close>

record Constants =
  BINARY_PUSH_STATE_CHANGED :: int
  WATCHDOG_ROLLBACK_OCCURRED :: int
  ISOLATED_UID_CHANGED :: int
  APP_BREADCRUMB_REPORTED :: int
  STATE_INSTALL_SUCCESS :: int32
  STATE_INSTALLER_ROLLBACK_INITIATED :: int32
  STATE_INSTALLER_ROLLBACK_SUCCESS :: int32
  ROLLBACK_TYPE_ROLLBACK_INITIATE :: int32
  ROLLBACK_TYPE_ROLLBACK_SUCCESS :: int32
  AID_STATSD :: int
  kMinByteSizeCheckPeriodNs :: int
  kMinBroadcastPeriodNs :: int
  kMinActivationBroadcastPeriodNs :: int
  kBytesPerRestrictedConfigTriggerFlush :: nat
  kPullerCacheClearIntervalSec :: int
  kMinTtlCheckPeriodNs :: int
  kMinFlushRestrictedPeriodNs :: int
  kMinDbGuardrailEnforcementPeriodNs :: int
  kMaxFileSize :: nat

text \<open>
  Modelled from the spec: \<^verbatim>\<open>MetricsManager\<close> (not among the sources). A manager is a value
  of an abstract type \<open>'m\<close>; the processor sees it only through these operations. An
  operation that mutates the manager returns the new manager. \<open>newMetricsManager\<close> is the
  constructor \<^verbatim>\<open>MetricsManager(key, config, timeBaseNs, currentTimeNs, ...)\<close>; \<open>updateConfig\<close>
  returns the validity of the update and the updated manager.
\<close>

record ('v, 'm, 'c) MetricsManagerOps =
  newMetricsManager :: "ConfigKey \<Rightarrow> 'c \<Rightarrow> int \<Rightarrow> int \<Rightarrow> 'm"
  isConfigValid :: "'m \<Rightarrow> bool"
  init :: "'m \<Rightarrow> 'm"
  refreshTtl :: "int \<Rightarrow> 'm \<Rightarrow> 'm"
  isInTtl :: "int \<Rightarrow> 'm \<Rightarrow> bool"
  updateConfig :: "'c \<Rightarrow> int \<Rightarrow> int \<Rightarrow> 'm \<Rightarrow> bool \<times> 'm"
  hasRestrictedMetricsDelegate :: "'m \<Rightarrow> bool"
  getRestrictedMetricsDelegate :: "'m \<Rightarrow> string"
  validateRestrictedMetricsDelegate :: "int \<Rightarrow> 'm \<Rightarrow> bool"
  getAllMetricIds :: "'m \<Rightarrow> int list"
  isActive :: "'m \<Rightarrow> bool"
  onLogEvent :: "'v LogEvent \<Rightarrow> 'm \<Rightarrow> 'm"
  byteSize :: "'m \<Rightarrow> nat"
  getMaxMetricsBytes :: "'m \<Rightarrow> nat"
  getTriggerGetDataBytes :: "'m \<Rightarrow> nat"
  dropData :: "int \<Rightarrow> 'm \<Rightarrow> 'm"
  flushRestrictedData :: "'m \<Rightarrow> 'm"
  enforceRestrictedDataTtls :: "int \<Rightarrow> 'm \<Rightarrow> 'm"
  onAnomalyAlarmFired :: "int \<Rightarrow> nat list \<Rightarrow> 'm \<Rightarrow> 'm"
  shouldWriteToDisk :: "'m \<Rightarrow> bool"
  shouldPersistLocalHistory :: "'m \<Rightarrow> bool"
  onDumpReport :: "int \<Rightarrow> int \<Rightarrow> bool \<Rightarrow> bool \<Rightarrow> 'm \<Rightarrow> bytes \<times> 'm"

text \<open>
  The rest of the environment of one call: the device and the collaborators outside the
  sources. \<open>isAtLeastU\<close>, \<open>checkPermissionForIds\<close>, the three broadcast callbacks handed to
  the constructor (the restricted-metrics one returns nothing and is only logged), the
  \<^verbatim>\<open>StatsdConfig\<close> accessor, \<^verbatim>\<open>StorageManager::readConfigFromDisk\<close>, the experiment-id
  protobuf codec, \<^verbatim>\<open>AlarmMonitor::popSoonerThan\<close>, \<^verbatim>\<open>dbutils\<close>, and the package-to-uid
  lookups of \<^verbatim>\<open>UidMap\<close> (a \<^verbatim>\<open>std::set\<close> is given as the list of its elements in
  iteration order). \<open>getElapsedRealtimeNs\<close>, \<open>getWallClockNs\<close> and \<open>getWallClockSec\<close> are
  the clock readings: one call of a processor operation observes one reading of each
  clock. \<open>uninitialised\<close> supplies the scalar members of a default-constructed
  \<^verbatim>\<open>InstallTrainInfo\<close>, which the source does not initialise.
\<close>

record 'c Externals =
  isAtLeastU :: bool
  checkPermissionForIds :: "string \<Rightarrow> int \<Rightarrow> int \<Rightarrow> bool"
  mSendBroadcast :: "ConfigKey \<Rightarrow> bool"
  mSendActivationBroadcast :: "int \<Rightarrow> int list \<Rightarrow> bool"
  has_restricted_metrics_delegate_package_name :: "'c \<Rightarrow> bool"
  readConfigFromDisk :: "ConfigKey \<Rightarrow> 'c option"
  ParseFromArray :: "bytes \<Rightarrow> int64 list option"
  writeExperimentIdsToProto :: "int64 list \<Rightarrow> bytes"
  popSoonerThan :: "nat \<Rightarrow> nat list"
  updateDeviceInfoTable :: "ConfigKey \<Rightarrow> bool"
  getDbVersion :: int
  sAidToUidMapping :: "string \<Rightarrow> int option"
  getAppUid :: "string \<Rightarrow> int list"
  query :: "ConfigKey \<Rightarrow> string \<Rightarrow> string + (string list list \<times> int list \<times> string list)"
  getElapsedRealtimeNs :: int
  getWallClockNs :: int
  getWallClockSec :: int
  uninitialised :: InstallTrainInfo

record ('v, 'm, 'c) Env =
  util :: Constants
  ev :: "'v LogEventOps"
  mm :: "('v, 'm, 'c) MetricsManagerOps"
  ext :: "'c Externals"

subsection \<open>Calls that leave the processor\<close>

text \<open>\<^verbatim>\<open>InvalidQueryReason\<close>, as far as \<^verbatim>\<open>querySql\<close> uses it.\<close>

datatype InvalidQueryReason =
  FLAG_DISABLED | UNSUPPORTED_SQLITE_VERSION | CONFIG_KEY_NOT_FOUND
  | CONFIG_KEY_WITH_UNMATCHED_DELEGATE | AMBIGUOUS_CONFIG_KEY | QUERY_FAILURE
  | INCONSISTENT_ROW_SIZE | UNSET_REASON

text \<open>The methods of \<^verbatim>\<open>StatsdStats::getInstance()\<close> the processor calls, with their arguments.\<close>

datatype StatsdStatsCall =
  noteAtomLogged int int bool
  | noteAtomError int
  | noteDataDropped ConfigKey nat
  | noteBroadcastSent ConfigKey
  | noteActiveStatusChanged ConfigKey bool
  | noteActivationBroadcastGuardrailHit int
  | noteConfigReset ConfigKey
  | noteConfigRemoved ConfigKey
  | noteDbDeletionConfigUpdated ConfigKey
  | noteDbDeletionConfigRemoved ConfigKey
  | noteDbConfigInvalid ConfigKey
  | noteDeviceInfoTableCreationFailed ConfigKey
  | noteQueryRestrictedMetricFailed int string "int option" int InvalidQueryReason
  | noteQueryRestrictedMetricSucceed int string "int option" int

text \<open>
  One entry of the call log. The two rate-limited broadcasts carry the clock value the
  processor compares and records for them, and the callback's result. \<open>WriteFile\<close> carries
  whether the name is a history file name, the wall-clock second and the key the file name
  is made of, and the data. \<open>ManagerOnLogEvent\<close> and \<open>ManagerDropData\<close> record that the
  processor calls \<^verbatim>\<open>onLogEvent\<close> and \<^verbatim>\<open>dropData\<close> of the manager of a key.
\<close>

datatype Call =
  StatsdStats StatsdStatsCall
  | SendBroadcast int ConfigKey bool
  | SendActivationBroadcast int int "int list" bool
  | SendRestrictedMetricsBroadcast ConfigKey string "int list"
  | ReadTrainInfo string
  | WriteTrainInfo InstallTrainInfo
  | ManagerOnLogEvent ConfigKey
  | ManagerDropData ConfigKey int
  | WriteFile bool int ConfigKey bytes
  | DeleteDb ConfigKey
  | EnforceDbGuardrails int nat
  | UidMapOnConfigUpdated ConfigKey
  | UidMapOnConfigRemoved ConfigKey
  | UpdateLogEventFilter
  | StateManagerOnLogEvent
  | ClearPullerCacheIfNecessary int
  | ForceClearPullerCache
  | CallbackSendFailure string
  | CallbackSendResults "string list" "string list" "int list" nat

subsection \<open>The processor\<close>

text \<open>
  The members of \<^verbatim>\<open>StatsLogProcessor\<close>. \<open>mMetricsManagers\<close> is the
  \<^verbatim>\<open>unordered_map<ConfigKey, sp<MetricsManager>>\<close> as an association list with one entry per
  key; iteration is in list order and a new key is appended (the spec: iteration order is
  unspecified but stable, insertion order). The time maps are partial functions. Two
  collaborators with state of their own are part of the record: \<open>isolatedUids\<close> is the
  isolated-uid table of \<^verbatim>\<open>UidMap\<close>, \<open>trainInfoDir\<close> the per-train records of
  \<^verbatim>\<open>StorageManager\<close> keyed by train name. \<open>calls\<close> is the call log, oldest first.
\<close>

record 'm StatsLogProcessor =
  mMetricsManagers :: "(ConfigKey \<times> 'm) list"
  mLastBroadcastTimes :: "ConfigKey \<Rightarrow> int option"
  mLastActivationBroadcastTimes :: "int \<Rightarrow> int option"
  mLastByteSizeTimes :: "ConfigKey \<Rightarrow> int option"
  mDumpReportNumbers :: "ConfigKey \<Rightarrow> int option"
  mOnDiskDataConfigs :: "ConfigKey set"
  mLastTtlTime :: int
  mLastFlushRestrictedTime :: int
  mLastDbGuardrailEnforcementTime :: int
  mLastPullerCacheClearTimeSec :: int
  mLastWriteTimeNs :: int
  mNextAnomalyAlarmTime :: int
  mTimeBaseNs :: int
  isolatedUids :: "int \<Rightarrow> int option"
  trainInfoDir :: "string \<Rightarrow> InstallTrainInfo option"
  calls :: "Call list"

definition logCall :: "Call \<Rightarrow> 'm StatsLogProcessor \<Rightarrow> 'm StatsLogProcessor" where
  "logCall c s = s \<lparr> calls := calls s @ [c] \<rparr>"

definition stats :: "StatsdStatsCall \<Rightarrow> 'm StatsLogProcessor \<Rightarrow> 'm StatsLogProcessor" where
  "stats c s = logCall (StatsdStats c) s"

text \<open>
  The processor as its constructor leaves it (no managers, empty maps, zero times), with the
  collaborators' state empty.
\<close>

definition newStatsLogProcessor :: "int \<Rightarrow> 'm StatsLogProcessor" where
  "newStatsLogProcessor timeBaseNs =
     \<lparr> mMetricsManagers = [], mLastBroadcastTimes = Map.empty,
       mLastActivationBroadcastTimes = Map.empty, mLastByteSizeTimes = Map.empty,
       mDumpReportNumbers = Map.empty, mOnDiskDataConfigs = {},
       mLastTtlTime = 0, mLastFlushRestrictedTime = 0, mLastDbGuardrailEnforcementTime = 0,
       mLastPullerCacheClearTimeSec = 0, mLastWriteTimeNs = 0, mNextAnomalyAlarmTime = 0,
       mTimeBaseNs = timeBaseNs, isolatedUids = Map.empty, trainInfoDir = Map.empty,
       calls = [ForceClearPullerCache, UpdateLogEventFilter] \<rparr>"

section \<open>Train info: the hard-coded atom handlers\<close>

text \<open>
  Modelled from the spec: \<^verbatim>\<open>StorageManager::readTrainInfo\<close> and \<^verbatim>\<open>writeTrainInfo\<close>
  (StorageManager is not among the sources): per-train records keyed by train name. A read
  succeeds iff a record is stored under the name; a write stores the record under its own
  train name. Both are entered in the call log.
\<close>

definition readTrainInfo ::
  "string \<Rightarrow> 'm StatsLogProcessor \<Rightarrow> InstallTrainInfo option \<times> 'm StatsLogProcessor" where
  "readTrainInfo name s = (trainInfoDir s name, logCall (ReadTrainInfo name) s)"

definition writeTrainInfo :: "InstallTrainInfo \<Rightarrow> 'm StatsLogProcessor \<Rightarrow> 'm StatsLogProcessor" where
  "writeTrainInfo info s =
     logCall (WriteTrainInfo info) (s \<lparr> trainInfoDir := (trainInfoDir s)(trainName info \<mapsto> info) \<rparr>)"

text \<open>
  \<^verbatim>\<open>if (find(ids.begin(), ids.end(), id) == ids.end()) { ids.push_back(id); }\<close>, the
  statement each case of the two \<^verbatim>\<open>switch\<close>es below consists of.
\<close>

definition push_back_if_not_found :: "int64 list \<Rightarrow> int64 \<Rightarrow> int64 list" where
  "push_back_if_not_found ids x = (if x \<in> set ids then ids else ids @ [x])"

text \<open>
  \<^verbatim>\<open>getAndUpdateTrainInfoOnDisk\<close> (lines 243-308). \<open>trainInfo\<close> is the in-out parameter; the
  result is its final value and the processor with the record written. \<open>onDisk\<close> is the
  local \<^verbatim>\<open>trainInfoOnDisk\<close>: the record read, or a default-constructed one.
\<close>

definition getAndUpdateTrainInfoOnDisk ::
  "('v, 'm, 'c) Env \<Rightarrow> bool \<Rightarrow> InstallTrainInfo \<Rightarrow> 'm StatsLogProcessor
     \<Rightarrow> InstallTrainInfo \<times> 'm StatsLogProcessor" where
  "getAndUpdateTrainInfoOnDisk e is_rollback trainInfo s =
     (if trainName trainInfo = [] then (trainInfo, s)
      else
        let (r, s1) = readTrainInfo (trainName trainInfo) s;
            readTrainInfoSuccess = (r \<noteq> None);
            onDisk = (case r of Some d \<Rightarrow> d
                      | None \<Rightarrow> (uninitialised (ext e)) \<lparr> trainName := [], experimentIds := [] \<rparr>);
            ti1 = (if readTrainInfoSuccess \<and> trainVersionCode trainInfo = - 1
                   then trainInfo \<lparr> trainVersionCode := trainVersionCode onDisk \<rparr>
                   else trainInfo);
            resetExperimentIds =
              (readTrainInfoSuccess \<and>
                 ((trainVersionCode trainInfo \<noteq> - 1
                     \<and> trainVersionCode trainInfo \<noteq> trainVersionCode onDisk)
                  \<or> (experimentIds trainInfo \<noteq> []
                     \<and> (experimentIds onDisk = []
                          \<or> hd (experimentIds trainInfo) \<noteq> hd (experimentIds onDisk)))));
            ti2 = (if (\<not> resetExperimentIds \<or> is_rollback) \<and> readTrainInfoSuccess
                   then ti1 \<lparr> experimentIds := experimentIds onDisk \<rparr>
                   else ti1);
            ti3 = (case experimentIds ti2 of
                     [] \<Rightarrow> ti2
                   | firstId # _ \<Rightarrow>
                       if status ti2 = STATE_INSTALL_SUCCESS (util e)
                       then ti2 \<lparr> experimentIds :=
                                   push_back_if_not_found (experimentIds ti2) (firstId + 1) \<rparr>
                       else if status ti2 = STATE_INSTALLER_ROLLBACK_INITIATED (util e)
                       then ti2 \<lparr> experimentIds :=
                                   push_back_if_not_found (experimentIds ti2) (firstId + 2) \<rparr>
                       else if status ti2 = STATE_INSTALLER_ROLLBACK_SUCCESS (util e)
                       then ti2 \<lparr> experimentIds :=
                                   push_back_if_not_found (experimentIds ti2) (firstId + 3) \<rparr>
                       else ti2);
            ti4 = (if is_rollback
                   then ti3 \<lparr> requiresStaging := requiresStaging onDisk,
                              rollbackEnabled := rollbackEnabled onDisk,
                              requiresLowLatencyMonitor := requiresLowLatencyMonitor onDisk \<rparr>
                   else ti3)
        in (ti4, writeTrainInfo ti4 s1))"

text \<open>
  \<^verbatim>\<open>processWatchdogRollbackOccurred\<close> (lines 337-375): the experiment ids returned and the
  processor afterwards.
\<close>

definition processWatchdogRollbackOccurred ::
  "('v, 'm, 'c) Env \<Rightarrow> int32 \<Rightarrow> string \<Rightarrow> 'm StatsLogProcessor
     \<Rightarrow> int64 list \<times> 'm StatsLogProcessor" where
  "processWatchdogRollbackOccurred e rollbackTypeIn packageNameIn s =
     (if packageNameIn = [] then ([], s)
      else
        let (r, s1) = readTrainInfo packageNameIn s in
        case r of
          None \<Rightarrow> ([], s1)
        | Some trainInfoOnDisk \<Rightarrow>
            (case experimentIds trainInfoOnDisk of
               [] \<Rightarrow> ([], s1)
             | firstId # _ \<Rightarrow>
                 if rollbackTypeIn = ROLLBACK_TYPE_ROLLBACK_INITIATE (util e) then
                   let info = trainInfoOnDisk \<lparr> experimentIds :=
                         push_back_if_not_found (experimentIds trainInfoOnDisk) (firstId + 4) \<rparr>
                   in (experimentIds info, writeTrainInfo info s1)
                 else if rollbackTypeIn = ROLLBACK_TYPE_ROLLBACK_SUCCESS (util e) then
                   let info = trainInfoOnDisk \<lparr> experimentIds :=
                         push_back_if_not_found (experimentIds trainInfoOnDisk) (firstId + 5) \<rparr>
                   in (experimentIds info, writeTrainInfo info s1)
                 else (experimentIds trainInfoOnDisk, s1)))"

definition kPermissionDump :: string where
  "kPermissionDump = ''android.permission.DUMP''"

definition kPermissionUsage :: string where
  "kPermissionUsage = ''android.permission.PACKAGE_USAGE_STATS''"

text \<open>
  \<^verbatim>\<open>multiuser_get_user_id(uid)\<close> of libcutils: the \<^verbatim>\<open>uid_t\<close> (unsigned 32 bit) divided by
  \<^verbatim>\<open>AID_USER_OFFSET\<close> = 100000, stored in an \<^verbatim>\<open>int32_t\<close>.
\<close>

definition multiuser_get_user_id :: "int \<Rightarrow> int32" where
  "multiuser_get_user_id uid = word_of_int ((uid mod 2 ^ 32) div 100000)"

definition bool_bit :: "bool \<Rightarrow> int32" where
  "bool_bit b = (if b then 1 else 0)"

text \<open>
  \<^verbatim>\<open>onBinaryPushStateChangedEventLocked\<close> (lines 183-241). The eight getters share one
  status variable that only failures write, so the parse fails iff one of them fails;
  nothing is done in between. The result is the event as patched and the processor.
\<close>

definition onBinaryPushStateChangedEventLocked ::
  "('v, 'm, 'c) Env \<Rightarrow> 'v LogEvent \<Rightarrow> 'm StatsLogProcessor
     \<Rightarrow> 'v LogEvent \<times> 'm StatsLogProcessor" where
  "onBinaryPushStateChangedEventLocked e event s =
     (let pid = mLogPid event; uid = mLogUid event; v = mValues event in
      if \<not> checkPermissionForIds (ext e) kPermissionDump pid uid
         \<or> \<not> checkPermissionForIds (ext e) kPermissionUsage pid uid
      then (event, s)
      else
        case (do {
                name \<leftarrow> GetString (ev e) v 1;
                version \<leftarrow> GetLong (ev e) v 2;
                staging \<leftarrow> GetBool (ev e) v 3;
                rollback \<leftarrow> GetBool (ev e) v 4;
                lowLatency \<leftarrow> GetBool (ev e) v 5;
                state \<leftarrow> GetLong (ev e) v 6;
                trainExperimentIdBytes \<leftarrow> GetStorage (ev e) v 7;
                is_rollback \<leftarrow> GetBool (ev e) v 10;
                Some (\<lparr> trainVersionCode = version, trainName = name,
                        status = ucast state, experimentIds = [],
                        requiresStaging = staging, rollbackEnabled = rollback,
                        requiresLowLatencyMonitor = lowLatency \<rparr>,
                      trainExperimentIdBytes, is_rollback)
              }) of
          None \<Rightarrow> (event, s)
        | Some (parsed, trainExperimentIdBytes, is_rollback) \<Rightarrow>
            (case ParseFromArray (ext e) trainExperimentIdBytes of
               None \<Rightarrow> (event, s)
             | Some trainExperimentIds \<Rightarrow>
                 let (trainInfo, s1) =
                       getAndUpdateTrainInfoOnDisk e is_rollback
                         (parsed \<lparr> experimentIds := trainExperimentIds \<rparr>) s;
                     trainExperimentIdProto =
                       writeExperimentIdsToProto (ext e) (experimentIds trainInfo);
                     userId = multiuser_get_user_id uid;
                     v1 = updateValue (ev e) 2 (LONG_VALUE (trainVersionCode trainInfo)) v;
                     v2 = updateValue (ev e) 7 (STORAGE_VALUE trainExperimentIdProto) v1;
                     v3 = updateValue (ev e) 8 (INT_VALUE userId) v2;
                     v4 = (if is_rollback
                           then updateValue (ev e) 5
                                  (INT_VALUE (bool_bit (requiresLowLatencyMonitor trainInfo)))
                                  (updateValue (ev e) 4 (INT_VALUE (bool_bit (rollbackEnabled trainInfo)))
                                     (updateValue (ev e) 3
                                        (INT_VALUE (bool_bit (requiresStaging trainInfo))) v3))
                           else v3)
                 in (event \<lparr> mValues := v4 \<rparr>, s1)))"

text \<open>\<^verbatim>\<open>onWatchdogRollbackOccurredLocked\<close> (lines 310-335).\<close>

definition onWatchdogRollbackOccurredLocked ::
  "('v, 'm, 'c) Env \<Rightarrow> 'v LogEvent \<Rightarrow> 'm StatsLogProcessor
     \<Rightarrow> 'v LogEvent \<times> 'm StatsLogProcessor" where
  "onWatchdogRollbackOccurredLocked e event s =
     (let pid = mLogPid event; uid = mLogUid event; v = mValues event in
      if \<not> checkPermissionForIds (ext e) kPermissionDump pid uid
         \<or> \<not> checkPermissionForIds (ext e) kPermissionUsage pid uid
      then (event, s)
      else
        case (do {
                rollbackType \<leftarrow> GetInt (ev e) v 1;
                packageName \<leftarrow> GetString (ev e) v 2;
                Some (rollbackType, packageName)
              }) of
          None \<Rightarrow> (event, s)
        | Some (rollbackType, packageName) \<Rightarrow>
            let (ids, s1) = processWatchdogRollbackOccurred e rollbackType packageName s;
                experimentIdProto = writeExperimentIdsToProto (ext e) ids
            in (event \<lparr> mValues := updateValue (ev e) 6 (STORAGE_VALUE experimentIdProto) v \<rparr>, s1))"

section \<open>Units, the uid map, and loops over the managers\<close>

text \<open>
  C++ integer division truncates towards zero. \<open>NS_PER_SEC\<close>, \<open>MillisToNano\<close>,
  \<open>NanoToMillis\<close> and \<open>NanoToSeconds\<close> are the unit conversions of stats_log_util.
  Elapsed-realtime and wall-clock values are readings of clocks that start at zero, far
  below \<open>2 ^ 63\<close>, so the differences the source takes cannot overflow; times are
  integers.
\<close>

definition cdiv :: "int \<Rightarrow> int \<Rightarrow> int" where
  "cdiv a b = sgn a * sgn b * (\<bar>a\<bar> div \<bar>b\<bar>)"

definition NS_PER_SEC :: int where
  "NS_PER_SEC = 1000000000"

definition MillisToNano :: "int \<Rightarrow> int" where
  "MillisToNano ms = ms * 1000000"

definition NanoToMillis :: "int \<Rightarrow> int" where
  "NanoToMillis ns = cdiv ns 1000000"

definition NanoToSeconds :: "int \<Rightarrow> int" where
  "NanoToSeconds ns = cdiv ns NS_PER_SEC"

definition WRITE_DATA_COOL_DOWN_SEC :: int where
  "WRITE_DATA_COOL_DOWN_SEC = 15"

text \<open>
  Modelled from the spec: the isolated-uid table of \<^verbatim>\<open>UidMap\<close> (not among the sources):
  \<open>getHostUidOrSelf\<close> is the host uid of an isolated uid and the uid itself otherwise.
\<close>

definition getHostUidOrSelf :: "'m StatsLogProcessor \<Rightarrow> int \<Rightarrow> int" where
  "getHostUidOrSelf s uid = (case isolatedUids s uid of Some host \<Rightarrow> host | None \<Rightarrow> uid)"

definition assignIsolatedUid :: "int \<Rightarrow> int \<Rightarrow> 'm StatsLogProcessor \<Rightarrow> 'm StatsLogProcessor" where
  "assignIsolatedUid isolatedUid parentUid s =
     s \<lparr> isolatedUids := (isolatedUids s)(isolatedUid \<mapsto> parentUid) \<rparr>"

definition removeIsolatedUid :: "int \<Rightarrow> 'm StatsLogProcessor \<Rightarrow> 'm StatsLogProcessor" where
  "removeIsolatedUid isolatedUid s = s \<lparr> isolatedUids := (isolatedUids s)(isolatedUid := None) \<rparr>"

text \<open>
  \<^verbatim>\<open>mapIsolatedUidToHostUidIfNecessaryLocked\<close> (lines 152-165). The loop runs over the
  index range of the attribution chain, which lies inside the values.
\<close>

definition mapIsolatedUidToHostUidIfNecessaryLocked ::
  "('v, 'm, 'c) Env \<Rightarrow> 'm StatsLogProcessor \<Rightarrow> 'v LogEvent \<Rightarrow> 'v LogEvent" where
  "mapIsolatedUidToHostUidIfNecessaryLocked e s event =
     (case hasAttributionChain (ev e) (mValues event) of
        Some (first, second) \<Rightarrow>
          event \<lparr> mValues :=
            fold (\<lambda>i v. if isAttributionUidField (ev e) v i
                         then setInt (ev e) i (getHostUidOrSelf s (int_value (ev e) v i)) v
                         else v)
                 [first ..< Suc second] (mValues event) \<rparr>
      | None \<Rightarrow>
          event \<lparr> mValues :=
            mapIsolatedUidsToHostUidInLogEvent (ev e) (getHostUidOrSelf s) (mValues event) \<rparr>)"

text \<open>
  \<^verbatim>\<open>onIsolatedUidChangedEventLocked\<close> (lines 167-181). \<^verbatim>\<open>int(event.GetLong(..))\<close> keeps the
  low 32 bits.
\<close>

definition onIsolatedUidChangedEventLocked ::
  "('v, 'm, 'c) Env \<Rightarrow> 'v LogEvent \<Rightarrow> 'm StatsLogProcessor \<Rightarrow> 'm StatsLogProcessor" where
  "onIsolatedUidChangedEventLocked e event s =
     (case (GetBool (ev e) (mValues event) 3, GetLong (ev e) (mValues event) 1,
            GetLong (ev e) (mValues event) 2) of
        (Some is_create, Some parent, Some isolated) \<Rightarrow>
          let parent_uid = sint (ucast parent :: int32);
              isolated_uid = sint (ucast isolated :: int32)
          in if is_create then assignIsolatedUid isolated_uid parent_uid s
             else removeIsolatedUid isolated_uid s
      | _ \<Rightarrow> s)"

text \<open>
  \<^verbatim>\<open>validateAppBreadcrumbEvent\<close> (lines 1519-1553). \<^verbatim>\<open>event.size() - 2\<close> is computed in
  \<^verbatim>\<open>size_t\<close> (64 bit, wrapping below 2). \<open>appHookUid\<close> and \<open>appHookState\<close> are \<^verbatim>\<open>long\<close>
  (64 bit); the \<^verbatim>\<open>int32_t\<close> \<open>loggerUid\<close> is compared with \<open>appHookUid\<close> as integers.
\<close>

definition validateAppBreadcrumbEvent ::
  "('v, 'm, 'c) Env \<Rightarrow> 'm StatsLogProcessor \<Rightarrow> 'v LogEvent \<Rightarrow> bool" where
  "validateAppBreadcrumbEvent e s event =
     (if mTagId event = APP_BREADCRUMB_REPORTED (util e) then
        (case GetLong (ev e) (mValues event)
                ((size_values (ev e) (mValues event) + 2 ^ 64 - 2) mod 2 ^ 64) of
           None \<Rightarrow> False
         | Some appHookUid \<Rightarrow>
             let loggerUid = getHostUidOrSelf s (mLogUid event) in
             if loggerUid \<noteq> sint appHookUid \<and> loggerUid \<noteq> AID_STATSD (util e) then False
             else
               (case GetLong (ev e) (mValues event) (size_values (ev e) (mValues event)) of
                  None \<Rightarrow> False
                | Some appHookState \<Rightarrow>
                    if sint appHookState < 0 \<or> sint appHookState > 3 then False else True))
      else True)"

text \<open>
  A method called on every manager of the map (\<^verbatim>\<open>for (const auto& itr : mMetricsManagers)
  itr.second->method(...)\<close>).
\<close>

definition forEachManager ::
  "('m \<Rightarrow> 'm) \<Rightarrow> 'm StatsLogProcessor \<Rightarrow> 'm StatsLogProcessor" where
  "forEachManager f s = s \<lparr> mMetricsManagers := AList.map_ran (\<lambda>k. f) (mMetricsManagers s) \<rparr>"

text \<open>\<^verbatim>\<open>processFiredAnomalyAlarmsLocked\<close> (lines 136-142).\<close>

definition processFiredAnomalyAlarmsLocked ::
  "('v, 'm, 'c) Env \<Rightarrow> int \<Rightarrow> nat list \<Rightarrow> 'm StatsLogProcessor \<Rightarrow> 'm StatsLogProcessor" where
  "processFiredAnomalyAlarmsLocked e timestampNs alarmSet s =
     forEachManager (onAnomalyAlarmFired (mm e) timestampNs alarmSet) s"

text \<open>
  \<^verbatim>\<open>informAnomalyAlarmFiredLocked\<close> (lines 1474-1484); the argument of \<open>popSoonerThan\<close> is
  cast to \<^verbatim>\<open>uint32_t\<close>.
\<close>

definition informAnomalyAlarmFiredLocked ::
  "('v, 'm, 'c) Env \<Rightarrow> int \<Rightarrow> 'm StatsLogProcessor \<Rightarrow> 'm StatsLogProcessor" where
  "informAnomalyAlarmFiredLocked e elapsedTimeMillis s =
     (let alarmSet = popSoonerThan (ext e) (nat (cdiv elapsedTimeMillis 1000 mod 2 ^ 32)) in
      if alarmSet \<noteq> [] then
        processFiredAnomalyAlarmsLocked e (MillisToNano elapsedTimeMillis) alarmSet s
      else s)"

text \<open>\<^verbatim>\<open>enforceDataTtlsLocked\<close> (lines 1053-1059) and its guard (lines 891-900).\<close>

definition enforceDataTtlsLocked ::
  "('v, 'm, 'c) Env \<Rightarrow> int \<Rightarrow> int \<Rightarrow> 'm StatsLogProcessor \<Rightarrow> 'm StatsLogProcessor" where
  "enforceDataTtlsLocked e wallClockNs elapsedRealtimeNs s =
     (forEachManager (enforceRestrictedDataTtls (mm e) wallClockNs) s)
       \<lparr> mLastTtlTime := elapsedRealtimeNs \<rparr>"

definition enforceDataTtlsIfNecessaryLocked ::
  "('v, 'm, 'c) Env \<Rightarrow> int \<Rightarrow> int \<Rightarrow> 'm StatsLogProcessor \<Rightarrow> 'm StatsLogProcessor" where
  "enforceDataTtlsIfNecessaryLocked e wallClockNs elapsedRealtimeNs s =
     (if \<not> isAtLeastU (ext e) then s
      else if elapsedRealtimeNs - mLastTtlTime s < kMinTtlCheckPeriodNs (util e) then s
      else enforceDataTtlsLocked e wallClockNs elapsedRealtimeNs s)"

text \<open>\<^verbatim>\<open>flushRestrictedDataLocked\<close> (lines 1094-1101) and its guard (lines 902-910).\<close>

definition flushRestrictedDataLocked ::
  "('v, 'm, 'c) Env \<Rightarrow> int \<Rightarrow> 'm StatsLogProcessor \<Rightarrow> 'm StatsLogProcessor" where
  "flushRestrictedDataLocked e elapsedRealtimeNs s =
     (forEachManager (flushRestrictedData (mm e)) s)
       \<lparr> mLastFlushRestrictedTime := elapsedRealtimeNs \<rparr>"

definition flushRestrictedDataIfNecessaryLocked ::
  "('v, 'm, 'c) Env \<Rightarrow> int \<Rightarrow> 'm StatsLogProcessor \<Rightarrow> 'm StatsLogProcessor" where
  "flushRestrictedDataIfNecessaryLocked e elapsedRealtimeNs s =
     (if \<not> isAtLeastU (ext e) then s
      else if elapsedRealtimeNs - mLastFlushRestrictedTime s < kMinFlushRestrictedPeriodNs (util e)
      then s
      else flushRestrictedDataLocked e elapsedRealtimeNs s)"

text \<open>\<^verbatim>\<open>enforceDbGuardrailsIfNecessaryLocked\<close> (lines 1061-1070).\<close>

definition enforceDbGuardrailsIfNecessaryLocked ::
  "('v, 'm, 'c) Env \<Rightarrow> int \<Rightarrow> int \<Rightarrow> 'm StatsLogProcessor \<Rightarrow> 'm StatsLogProcessor" where
  "enforceDbGuardrailsIfNecessaryLocked e wallClockNs elapsedRealtimeNs s =
     (if elapsedRealtimeNs - mLastDbGuardrailEnforcementTime s
           < kMinDbGuardrailEnforcementPeriodNs (util e)
      then s
      else (logCall (EnforceDbGuardrails (cdiv wallClockNs NS_PER_SEC) (kMaxFileSize (util e))) s)
             \<lparr> mLastDbGuardrailEnforcementTime := elapsedRealtimeNs \<rparr>)"

text \<open>\<^verbatim>\<open>updateLogEventFilterLocked\<close> (lines 1497-1506): a call to the event filter.\<close>

definition updateLogEventFilterLocked :: "'m StatsLogProcessor \<Rightarrow> 'm StatsLogProcessor" where
  "updateLogEventFilterLocked s = logCall UpdateLogEventFilter s"

section \<open>Writing reports to disk\<close>

text \<open>
  \<^verbatim>\<open>onConfigMetricsReportLocked\<close> (lines 750-817). The buffer is the serialised report;
  its bytes come from the manager's \<open>onDumpReport\<close> (the uid map, the timestamps and the
  dump reason the processor adds to it are not modelled: they do not change the processor).
  The result is the buffer and the processor.
\<close>

definition onConfigMetricsReportLocked ::
  "('v, 'm, 'c) Env \<Rightarrow> ConfigKey \<Rightarrow> int \<Rightarrow> int \<Rightarrow> bool \<Rightarrow> bool \<Rightarrow> bool
     \<Rightarrow> 'm StatsLogProcessor \<Rightarrow> bytes \<times> 'm StatsLogProcessor" where
  "onConfigMetricsReportLocked e key dumpTimeStampNs wallClockNs include_current_partial_bucket
       erase_data dataSavedOnDisk s =
     (case map_of (mMetricsManagers s) key of
        None \<Rightarrow> ([], s)
      | Some m \<Rightarrow>
          if hasRestrictedMetricsDelegate (mm e) m then ([], s)
          else
            let (buffer, m') = onDumpReport (mm e) dumpTimeStampNs wallClockNs
                                 include_current_partial_bucket erase_data m;
                s1 = s \<lparr> mMetricsManagers := AList.update key m' (mMetricsManagers s) \<rparr>
            in if erase_data \<and> \<not> dataSavedOnDisk \<and> shouldPersistLocalHistory (mm e) m'
               then (buffer, logCall (WriteFile True (getWallClockSec (ext e)) key buffer) s1)
               else (buffer, s1))"

text \<open>\<^verbatim>\<open>WriteDataToDiskLocked(key, ...)\<close> (lines 1158-1180).\<close>

definition WriteDataToDiskLocked_key ::
  "('v, 'm, 'c) Env \<Rightarrow> ConfigKey \<Rightarrow> int \<Rightarrow> int \<Rightarrow> 'm StatsLogProcessor \<Rightarrow> 'm StatsLogProcessor" where
  "WriteDataToDiskLocked_key e key timestampNs wallClockNs s =
     (case map_of (mMetricsManagers s) key of
        None \<Rightarrow> s
      | Some m \<Rightarrow>
          if \<not> shouldWriteToDisk (mm e) m then s
          else if hasRestrictedMetricsDelegate (mm e) m then
            s \<lparr> mMetricsManagers :=
                  AList.update key (flushRestrictedData (mm e) m) (mMetricsManagers s) \<rparr>
          else
            let (buffer, s1) = onConfigMetricsReportLocked e key timestampNs wallClockNs
                                 True True True s;
                s2 = logCall (WriteFile False (getWallClockSec (ext e)) key buffer) s1
            in s2 \<lparr> mOnDiskDataConfigs := insert key (mOnDiskDataConfigs s2) \<rparr>)"

text \<open>
  \<^verbatim>\<open>WriteDataToDiskLocked(reason, latency, elapsedRealtimeNs, wallClockNs)\<close> (lines
  1380-1398). The comparison is made in \<^verbatim>\<open>unsigned long long\<close>.
\<close>

definition WriteDataToDiskLocked ::
  "('v, 'm, 'c) Env \<Rightarrow> int \<Rightarrow> int \<Rightarrow> 'm StatsLogProcessor \<Rightarrow> 'm StatsLogProcessor" where
  "WriteDataToDiskLocked e elapsedRealtimeNs wallClockNs s =
     (if elapsedRealtimeNs mod 2 ^ 64
           < (mLastWriteTimeNs s + WRITE_DATA_COOL_DOWN_SEC * NS_PER_SEC) mod 2 ^ 64
      then s
      else fold (\<lambda>key s'. WriteDataToDiskLocked_key e key elapsedRealtimeNs wallClockNs s')
             (map fst (mMetricsManagers s))
             (s \<lparr> mLastWriteTimeNs := elapsedRealtimeNs \<rparr>))"

section \<open>Configuration updates\<close>

text \<open>
  \<^verbatim>\<open>OnConfigUpdatedLocked\<close> (lines 555-634). \<open>it\<close> is the result of
  \<^verbatim>\<open>mMetricsManagers.find(key)\<close>. In the modular branch \<open>updateConfig\<close> mutates the manager
  the iterator points to, so the later reads through \<open>it\<close> see the updated manager
  (\<open>it'\<close>). \<open>created\<close> is the branch that builds a new manager (taken for a non-modular update
  or a new key). The result is the processor. \<open>modularUpdateOnUpdate\<close> is the value of the
  parameter \<open>modularUpdate\<close> after lines 560-565 and \<open>configValidOnUpdate\<close> the value of the
  local \<open>configValid\<close> after line 609.
\<close>

definition modularUpdateOnUpdate ::
  "('v, 'm, 'c) Env \<Rightarrow> ConfigKey \<Rightarrow> 'c \<Rightarrow> bool \<Rightarrow> 'm StatsLogProcessor \<Rightarrow> bool" where
  "modularUpdateOnUpdate e key config modularUpdate s =
     (case map_of (mMetricsManagers s) key of
        Some m \<Rightarrow>
          if isAtLeastU (ext e)
             \<and> hasRestrictedMetricsDelegate (mm e) m
                 \<noteq> has_restricted_metrics_delegate_package_name (ext e) config
          then False else modularUpdate
      | None \<Rightarrow> modularUpdate)"

definition configValidOnUpdate ::
  "('v, 'm, 'c) Env \<Rightarrow> int \<Rightarrow> ConfigKey \<Rightarrow> 'c \<Rightarrow> bool \<Rightarrow> 'm StatsLogProcessor \<Rightarrow> bool" where
  "configValidOnUpdate e timestampNs key config modularUpdate s =
     (case map_of (mMetricsManagers s) key of
        Some m \<Rightarrow>
          if \<not> modularUpdateOnUpdate e key config modularUpdate s
          then isConfigValid (mm e) (newMetricsManager (mm e) key config (mTimeBaseNs s) timestampNs)
          else fst (updateConfig (mm e) config (mTimeBaseNs s) timestampNs m)
      | None \<Rightarrow>
          isConfigValid (mm e) (newMetricsManager (mm e) key config (mTimeBaseNs s) timestampNs))"

definition OnConfigUpdatedLocked ::
  "('v, 'm, 'c) Env \<Rightarrow> int \<Rightarrow> ConfigKey \<Rightarrow> 'c \<Rightarrow> bool \<Rightarrow> 'm StatsLogProcessor
     \<Rightarrow> 'm StatsLogProcessor" where
  "OnConfigUpdatedLocked e timestampNs key config modularUpdate0 s =
     (let it = map_of (mMetricsManagers s) key;
          modularUpdate = modularUpdateOnUpdate e key config modularUpdate0 s;
          s1 = (case it of
                  Some m \<Rightarrow>
                    if isAtLeastU (ext e) \<and> \<not> modularUpdate
                       \<and> hasRestrictedMetricsDelegate (mm e) m
                    then logCall (DeleteDb key) (stats (noteDbDeletionConfigUpdated key) s)
                    else s
                | None \<Rightarrow> s);
          (configValid, it', s2) =
            (let created =
                   (let newMetricsManager0 =
                          newMetricsManager (mm e) key config (mTimeBaseNs s1) timestampNs
                    in if isConfigValid (mm e) newMetricsManager0 then
                         let newMetricsManager1 =
                               refreshTtl (mm e) timestampNs (init (mm e) newMetricsManager0);
                             s1a =
                               (if hasRestrictedMetricsDelegate (mm e) newMetricsManager1 then
                                  let s1b = logCall (SendRestrictedMetricsBroadcast key
                                               (getRestrictedMetricsDelegate (mm e) newMetricsManager1)
                                               (getAllMetricIds (mm e) newMetricsManager1)) s1
                                  in if \<not> updateDeviceInfoTable (ext e) key
                                     then stats (noteDeviceInfoTableCreationFailed key) s1b
                                     else s1b
                                else
                                  (case it of
                                     Some m \<Rightarrow>
                                       if hasRestrictedMetricsDelegate (mm e) m
                                       then logCall (SendRestrictedMetricsBroadcast key
                                               (getRestrictedMetricsDelegate (mm e) m) []) s1
                                       else s1
                                   | None \<Rightarrow> s1))
                         in (True, it,
                             s1a \<lparr> mMetricsManagers :=
                                     AList.update key newMetricsManager1 (mMetricsManagers s1a) \<rparr>)
                       else (False, it, s1))
             in case it of
                  None \<Rightarrow> created
                | Some m \<Rightarrow>
                    if \<not> modularUpdate then created
                    else
                      let (valid, m') = updateConfig (mm e) config (mTimeBaseNs s1) timestampNs m;
                          s1a = s1 \<lparr> mMetricsManagers :=
                                       AList.update key m' (mMetricsManagers s1) \<rparr>
                      in (valid, Some m',
                          if valid \<and> hasRestrictedMetricsDelegate (mm e) m'
                          then logCall (SendRestrictedMetricsBroadcast key
                                  (getRestrictedMetricsDelegate (mm e) m')
                                  (getAllMetricIds (mm e) m')) s1a
                          else s1a));
          s3 = (if configValid
                     \<and> \<not> has_restricted_metrics_delegate_package_name (ext e) config
                then logCall (UidMapOnConfigUpdated key) s2
                else if configValid
                     \<and> has_restricted_metrics_delegate_package_name (ext e) config
                then logCall (UidMapOnConfigRemoved key) s2
                else s2);
          s4 = (if \<not> configValid then
                  let s3a = (case it' of
                               Some m \<Rightarrow>
                                 if isAtLeastU (ext e) \<and> hasRestrictedMetricsDelegate (mm e) m
                                 then logCall (DeleteDb key)
                                        (stats (noteDbConfigInvalid key)
                                           (logCall (SendRestrictedMetricsBroadcast key
                                              (getRestrictedMetricsDelegate (mm e) m) []) s3))
                                 else s3
                             | None \<Rightarrow> s3)
                  in logCall (UidMapOnConfigRemoved key)
                       (s3a \<lparr> mMetricsManagers := AList.delete key (mMetricsManagers s3a) \<rparr>)
                else s3)
      in updateLogEventFilterLocked s4)"

text \<open>\<^verbatim>\<open>OnConfigUpdated\<close> (lines 542-548).\<close>

definition OnConfigUpdated ::
  "('v, 'm, 'c) Env \<Rightarrow> int \<Rightarrow> int \<Rightarrow> ConfigKey \<Rightarrow> 'c \<Rightarrow> bool \<Rightarrow> 'm StatsLogProcessor
     \<Rightarrow> 'm StatsLogProcessor" where
  "OnConfigUpdated e timestampNs wallClockNs key config modularUpdate s =
     OnConfigUpdatedLocked e timestampNs key config modularUpdate
       (WriteDataToDiskLocked_key e key timestampNs wallClockNs s)"

text \<open>\<^verbatim>\<open>resetConfigsLocked(timestampNs, configs)\<close> (lines 819-835).\<close>

definition resetConfigsLocked ::
  "('v, 'm, 'c) Env \<Rightarrow> int \<Rightarrow> ConfigKey list \<Rightarrow> 'm StatsLogProcessor \<Rightarrow> 'm StatsLogProcessor" where
  "resetConfigsLocked e timestampNs configs s =
     fold (\<lambda>key s'.
             case readConfigFromDisk (ext e) key of
               Some config \<Rightarrow>
                 stats (noteConfigReset key) (OnConfigUpdatedLocked e timestampNs key config False s')
             | None \<Rightarrow>
                 (case map_of (mMetricsManagers s') key of
                    Some m \<Rightarrow>
                      s' \<lparr> mMetricsManagers :=
                             AList.update key (refreshTtl (mm e) timestampNs m) (mMetricsManagers s') \<rparr>
                  | None \<Rightarrow> s'))
          configs s"

text \<open>\<^verbatim>\<open>resetIfConfigTtlExpiredLocked\<close> (lines 837-849).\<close>

definition resetIfConfigTtlExpiredLocked ::
  "('v, 'm, 'c) Env \<Rightarrow> int \<Rightarrow> 'm StatsLogProcessor \<Rightarrow> 'm StatsLogProcessor" where
  "resetIfConfigTtlExpiredLocked e eventTimeNs s =
     (let configKeysTtlExpired =
            map fst (filter (\<lambda>(key, m). \<not> isInTtl (mm e) eventTimeNs m) (mMetricsManagers s))
      in if configKeysTtlExpired \<noteq> [] then
           resetConfigsLocked e eventTimeNs configKeysTtlExpired
             (WriteDataToDiskLocked e (getElapsedRealtimeNs (ext e)) (getWallClockNs (ext e)) s)
         else s)"

text \<open>\<^verbatim>\<open>OnConfigRemoved\<close> (lines 851-888).\<close>

definition OnConfigRemoved ::
  "('v, 'm, 'c) Env \<Rightarrow> ConfigKey \<Rightarrow> 'm StatsLogProcessor \<Rightarrow> 'm StatsLogProcessor" where
  "OnConfigRemoved e key s =
     (let s1 = (case map_of (mMetricsManagers s) key of
                  Some m0 \<Rightarrow>
                    let s1a = WriteDataToDiskLocked_key e key (getElapsedRealtimeNs (ext e))
                                (getWallClockNs (ext e)) s;
                        s1b = (case map_of (mMetricsManagers s1a) key of
                                 Some m \<Rightarrow>
                                   if isAtLeastU (ext e) \<and> hasRestrictedMetricsDelegate (mm e) m
                                   then logCall (SendRestrictedMetricsBroadcast key
                                           (getRestrictedMetricsDelegate (mm e) m) [])
                                          (logCall (DeleteDb key)
                                             (stats (noteDbDeletionConfigRemoved key) s1a))
                                   else s1a
                               | None \<Rightarrow> s1a)
                    in logCall (UidMapOnConfigRemoved key)
                         (s1b \<lparr> mMetricsManagers := AList.delete key (mMetricsManagers s1b) \<rparr>)
                | None \<Rightarrow> s);
          s2 = stats (noteConfigRemoved key) s1;
          s3 = s2 \<lparr> mLastBroadcastTimes := (mLastBroadcastTimes s2)(key := None),
                    mLastByteSizeTimes := (mLastByteSizeTimes s2)(key := None),
                    mDumpReportNumbers := (mDumpReportNumbers s2)(key := None) \<rparr>;
          uid = GetUid key;
          lastConfigForUid = (filter (\<lambda>(k, m). GetUid k = uid) (mMetricsManagers s3) = []);
          s4 = (if lastConfigForUid
                then s3 \<lparr> mLastActivationBroadcastTimes :=
                            (mLastActivationBroadcastTimes s3)(uid := None) \<rparr>
                else s3);
          s5 = (if mMetricsManagers s4 = [] then logCall ForceClearPullerCache s4 else s4)
      in updateLogEventFilterLocked s5)"

section \<open>The flush and broadcast engine\<close>

text \<open>
  \<^verbatim>\<open>flushIfNecessaryLocked\<close> (lines 1103-1156), for the manager \<open>m\<close> of \<open>key\<close>: the manager
  and the processor afterwards. \<open>elapsedRealtimeNs\<close> is the clock reading of line 1105.
\<close>

definition flushIfNecessaryLocked ::
  "('v, 'm, 'c) Env \<Rightarrow> ConfigKey \<Rightarrow> 'm \<Rightarrow> 'm StatsLogProcessor \<Rightarrow> 'm \<times> 'm StatsLogProcessor" where
  "flushIfNecessaryLocked e key metricsManager s =
     (let elapsedRealtimeNs = getElapsedRealtimeNs (ext e) in
      if (case mLastByteSizeTimes s key of
            Some lastCheckTime \<Rightarrow>
              elapsedRealtimeNs - lastCheckTime < kMinByteSizeCheckPeriodNs (util e)
          | None \<Rightarrow> False)
      then (metricsManager, s)
      else
        let totalBytes = byteSize (mm e) metricsManager;
            s1 = s \<lparr> mLastByteSizeTimes := (mLastByteSizeTimes s)(key \<mapsto> elapsedRealtimeNs) \<rparr>;
            kBytesPerConfig =
              (if hasRestrictedMetricsDelegate (mm e) metricsManager
               then kBytesPerRestrictedConfigTriggerFlush (util e)
               else getTriggerGetDataBytes (mm e) metricsManager)
        in if totalBytes > getMaxMetricsBytes (mm e) metricsManager then
             (dropData (mm e) elapsedRealtimeNs metricsManager,
              stats (noteDataDropped key totalBytes)
                (logCall (ManagerDropData key elapsedRealtimeNs) s1))
           else if totalBytes > kBytesPerConfig \<or> key \<in> mOnDiskDataConfigs s1 then
             (if hasRestrictedMetricsDelegate (mm e) metricsManager then
                (flushRestrictedData (mm e) metricsManager, s1)
              else if (case mLastBroadcastTimes s1 key of
                         Some lastBroadcastTime \<Rightarrow>
                           elapsedRealtimeNs - lastBroadcastTime < kMinBroadcastPeriodNs (util e)
                       | None \<Rightarrow> False)
              then (metricsManager, s1)
              else if mSendBroadcast (ext e) key then
                (metricsManager,
                 stats (noteBroadcastSent key)
                   ((logCall (SendBroadcast elapsedRealtimeNs key True) s1)
                      \<lparr> mOnDiskDataConfigs := mOnDiskDataConfigs s1 - {key},
                        mLastBroadcastTimes :=
                          (mLastBroadcastTimes s1)(key \<mapsto> elapsedRealtimeNs) \<rparr>))
              else (metricsManager, logCall (SendBroadcast elapsedRealtimeNs key False) s1))
           else (metricsManager, s1))"

section \<open>OnLogEvent\<close>

text \<open>
  The loop of lines 471-498 over the managers still to visit. \<open>activeConfigsPerUid\<close> is
  the local \<^verbatim>\<open>unordered_map<int, vector<int64_t>>\<close> as an association list and
  \<open>uidsWithActiveConfigsChanged\<close> the local \<^verbatim>\<open>unordered_set<int>\<close> as a list without
  repetitions, both in insertion order. The result is the managers as the loop leaves them,
  the two locals and the processor.
\<close>

fun passToMetricsManagers ::
  "('v, 'm, 'c) Env \<Rightarrow> 'v LogEvent \<Rightarrow> (ConfigKey \<times> 'm) list \<Rightarrow> (int \<times> int list) list
     \<Rightarrow> int list \<Rightarrow> 'm StatsLogProcessor
     \<Rightarrow> (ConfigKey \<times> 'm) list \<times> (int \<times> int list) list \<times> int list \<times> 'm StatsLogProcessor" where
  "passToMetricsManagers e event [] activeConfigsPerUid uidsWithActiveConfigsChanged s =
     ([], activeConfigsPerUid, uidsWithActiveConfigsChanged, s)"
| "passToMetricsManagers e event ((key, m) # rest) activeConfigsPerUid
       uidsWithActiveConfigsChanged s =
     (if mRestricted event \<and> \<not> hasRestrictedMetricsDelegate (mm e) m then
        (case passToMetricsManagers e event rest activeConfigsPerUid
                uidsWithActiveConfigsChanged s of
           (rest', r) \<Rightarrow> ((key, m) # rest', r))
      else
        let uid = GetUid key;
            configId = GetId key;
            isPrevActive = isActive (mm e) m;
            m1 = onLogEvent (mm e) event m;
            s1 = logCall (ManagerOnLogEvent key) s;
            isCurActive = isActive (mm e) m1;
            activeConfigsPerUid1 =
              (if isCurActive
               then AList.map_default uid [configId] (\<lambda>l. l @ [configId]) activeConfigsPerUid
               else activeConfigsPerUid);
            uidsWithActiveConfigsChanged1 =
              (if isPrevActive \<noteq> isCurActive \<and> uid \<notin> set uidsWithActiveConfigsChanged
               then uidsWithActiveConfigsChanged @ [uid]
               else uidsWithActiveConfigsChanged);
            s2 = (if isPrevActive \<noteq> isCurActive
                  then stats (noteActiveStatusChanged key isCurActive) s1
                  else s1);
            ms3 = flushIfNecessaryLocked e key m1 s2
        in (case passToMetricsManagers e event rest activeConfigsPerUid1
                   uidsWithActiveConfigsChanged1 (snd ms3) of
              (rest', r) \<Rightarrow> ((key, fst ms3) # rest', r)))"

text \<open>
  The loop of lines 501-525 over the uids still to visit. The \<^verbatim>\<open>return\<close> of line 509
  leaves \<open>OnLogEvent\<close>, so the uids after a rate-limited one are not visited.
\<close>

fun sendActivationBroadcasts ::
  "('v, 'm, 'c) Env \<Rightarrow> int \<Rightarrow> (int \<times> int list) list \<Rightarrow> int list \<Rightarrow> 'm StatsLogProcessor
     \<Rightarrow> 'm StatsLogProcessor" where
  "sendActivationBroadcasts e elapsedRealtimeNs activeConfigsPerUid [] s = s"
| "sendActivationBroadcasts e elapsedRealtimeNs activeConfigsPerUid (uid # uids) s =
     (if (case mLastActivationBroadcastTimes s uid of
            Some lastBroadcastTime \<Rightarrow>
              elapsedRealtimeNs - lastBroadcastTime < kMinActivationBroadcastPeriodNs (util e)
          | None \<Rightarrow> False)
      then stats (noteActivationBroadcastGuardrailHit uid) s
      else
        let activeConfigs = (case map_of activeConfigsPerUid uid of
                               Some configs \<Rightarrow> configs
                             | None \<Rightarrow> []);
            sent = mSendActivationBroadcast (ext e) uid activeConfigs;
            s1 = logCall (SendActivationBroadcast elapsedRealtimeNs uid activeConfigs sent) s;
            s2 = (if sent
                  then s1 \<lparr> mLastActivationBroadcastTimes :=
                              (mLastActivationBroadcastTimes s1)(uid \<mapsto> elapsedRealtimeNs) \<rparr>
                  else s1)
        in sendActivationBroadcasts e elapsedRealtimeNs activeConfigsPerUid uids s2)"

text \<open>
  \<^verbatim>\<open>OnLogEvent(event, elapsedRealtimeNs)\<close> (lines 394-526), block by block. First the
  blocks before the managers see the event: the two hard-coded handlers (lines 407-417),
  the handling of uids (lines 424-431, \<open>atomId\<close> being the tag read at line 399), the
  anomaly alarm that is due (lines 439-451), and the periodic work (lines 453-461).
\<close>

definition OnLogEvent_hardCodedHandlers ::
  "('v, 'm, 'c) Env \<Rightarrow> 'v LogEvent \<Rightarrow> 'm StatsLogProcessor
     \<Rightarrow> 'v LogEvent \<times> 'm StatsLogProcessor" where
  "OnLogEvent_hardCodedHandlers e event s =
     (let es1 = (if mTagId event = BINARY_PUSH_STATE_CHANGED (util e)
                 then onBinaryPushStateChangedEventLocked e event s
                 else (event, s))
      in if mTagId event = WATCHDOG_ROLLBACK_OCCURRED (util e)
         then onWatchdogRollbackOccurredLocked e (fst es1) (snd es1)
         else es1)"

definition OnLogEvent_uids ::
  "('v, 'm, 'c) Env \<Rightarrow> int \<Rightarrow> 'v LogEvent \<Rightarrow> 'm StatsLogProcessor
     \<Rightarrow> 'v LogEvent \<times> 'm StatsLogProcessor" where
  "OnLogEvent_uids e atomId event s =
     (if atomId = ISOLATED_UID_CHANGED (util e)
      then (event, onIsolatedUidChangedEventLocked e event s)
      else (mapIsolatedUidToHostUidIfNecessaryLocked e s event, s))"

definition OnLogEvent_anomalyAlarm ::
  "('v, 'm, 'c) Env \<Rightarrow> int \<Rightarrow> 'm StatsLogProcessor \<Rightarrow> 'm StatsLogProcessor" where
  "OnLogEvent_anomalyAlarm e elapsedRealtimeNs s =
     (let fireAlarm = (mNextAnomalyAlarmTime s \<noteq> 0
                       \<and> MillisToNano (mNextAnomalyAlarmTime s) \<le> elapsedRealtimeNs)
      in if fireAlarm
         then informAnomalyAlarmFiredLocked e (NanoToMillis elapsedRealtimeNs)
                (s \<lparr> mNextAnomalyAlarmTime := 0 \<rparr>)
         else s)"

definition OnLogEvent_periodic ::
  "('v, 'm, 'c) Env \<Rightarrow> int \<Rightarrow> 'm StatsLogProcessor \<Rightarrow> 'm StatsLogProcessor" where
  "OnLogEvent_periodic e elapsedRealtimeNs s =
     (let curTimeSec = NanoToSeconds elapsedRealtimeNs;
          s1 = (if curTimeSec - mLastPullerCacheClearTimeSec s
                     > kPullerCacheClearIntervalSec (util e)
                then (logCall (ClearPullerCacheIfNecessary (curTimeSec * NS_PER_SEC)) s)
                       \<lparr> mLastPullerCacheClearTimeSec := curTimeSec \<rparr>
                else s);
          s2 = flushRestrictedDataIfNecessaryLocked e elapsedRealtimeNs s1;
          s3 = enforceDataTtlsIfNecessaryLocked e (getWallClockNs (ext e)) elapsedRealtimeNs s2
      in enforceDbGuardrailsIfNecessaryLocked e (getWallClockNs (ext e)) elapsedRealtimeNs s3)"

text \<open>
  Lines 394-465, everything before the managers see the event: \<open>Inr s\<close> where the function
  returns there with processor \<open>s\<close>, \<open>Inl (event, s)\<close> where it goes on to the loops with
  the event as normalised so far.
\<close>

definition OnLogEvent_before_dispatch ::
  "('v, 'm, 'c) Env \<Rightarrow> 'v LogEvent \<Rightarrow> int \<Rightarrow> 'm StatsLogProcessor
     \<Rightarrow> 'v LogEvent \<times> 'm StatsLogProcessor + 'm StatsLogProcessor" where
  "OnLogEvent_before_dispatch e event0 elapsedRealtimeNs s0 =
     (let eventElapsedTimeNs = mElapsedTimestampNs event0;
          atomId = mTagId event0;
          s1 = stats (noteAtomLogged atomId (cdiv eventElapsedTimeNs NS_PER_SEC)
                        (mParsedHeaderOnly event0)) s0
      in if \<not> mValid event0 then Inr (stats (noteAtomError atomId) s1)
         else
           let es2 = OnLogEvent_hardCodedHandlers e event0 s1;
               s3 = resetIfConfigTtlExpiredLocked e eventElapsedTimeNs (snd es2);
               es4 = OnLogEvent_uids e atomId (fst es2) s3;
               event = fst es4;
               s5 = logCall StateManagerOnLogEvent (snd es4)
           in if mMetricsManagers s5 = [] then Inr s5
              else
                let s6 = OnLogEvent_periodic e elapsedRealtimeNs
                           (OnLogEvent_anomalyAlarm e elapsedRealtimeNs s5)
                in if \<not> validateAppBreadcrumbEvent e s6 event then Inr s6
                   else Inl (event, s6))"

text \<open>The second part, lines 467-525: the loop over the managers, then the loop over the uids.\<close>

definition OnLogEvent_dispatch ::
  "('v, 'm, 'c) Env \<Rightarrow> 'v LogEvent \<Rightarrow> int \<Rightarrow> 'm StatsLogProcessor \<Rightarrow> 'm StatsLogProcessor" where
  "OnLogEvent_dispatch e event elapsedRealtimeNs s =
     (case passToMetricsManagers e event (mMetricsManagers s) [] [] s of
        (managers, activeConfigsPerUid, uidsWithActiveConfigsChanged, s1) \<Rightarrow>
          sendActivationBroadcasts e elapsedRealtimeNs activeConfigsPerUid
            uidsWithActiveConfigsChanged (s1 \<lparr> mMetricsManagers := managers \<rparr>))"

definition OnLogEvent ::
  "('v, 'm, 'c) Env \<Rightarrow> 'v LogEvent \<Rightarrow> int \<Rightarrow> 'm StatsLogProcessor \<Rightarrow> 'm StatsLogProcessor" where
  "OnLogEvent e event elapsedRealtimeNs s =
     (case OnLogEvent_before_dispatch e event elapsedRealtimeNs s of
        Inr s' \<Rightarrow> s'
      | Inl (event', s') \<Rightarrow> OnLogEvent_dispatch e event' elapsedRealtimeNs s')"

section \<open>Restricted metrics queries\<close>

text \<open>\<^verbatim>\<open>StringPrintf("%d", i)\<close>: the decimal digits of an integer.\<close>

fun digits :: "nat \<Rightarrow> string" where
  "digits n = (if n < 10 then [char_of (48 + n)]
               else digits (n div 10) @ [char_of (48 + n mod 10)])"

definition printf_d :: "int \<Rightarrow> string" where
  "printf_d i = (if i < 0 then CHR ''-'' # digits (nat (- i)) else digits (nat i))"

text \<open>
  \<^verbatim>\<open>getRestrictedConfigKeysToQueryLocked\<close> (lines 1011-1042). The \<^verbatim>\<open>std::set\<close>s are lists
  in iteration order (ascending uid; the config id is the same for all). \<open>err\<close> and
  \<open>invalidQueryReason\<close> are the in-out parameters; the result is the set of keys and their
  final values.
\<close>

definition getRestrictedConfigKeysToQueryLocked ::
  "('v, 'm, 'c) Env \<Rightarrow> int \<Rightarrow> int \<Rightarrow> int list \<Rightarrow> string \<Rightarrow> InvalidQueryReason
     \<Rightarrow> 'm StatsLogProcessor \<Rightarrow> ConfigKey list \<times> string \<times> InvalidQueryReason" where
  "getRestrictedConfigKeysToQueryLocked e callingUid configId configPackageUids err
       invalidQueryReason s =
     (let matchedConfigKeys =
            filter (\<lambda>configKey. map_of (mMetricsManagers s) configKey \<noteq> None)
              (map (\<lambda>uid. ConfigKey uid configId) configPackageUids);
          excludedKeys =
            filter (\<lambda>configKey.
                      case map_of (mMetricsManagers s) configKey of
                        Some m \<Rightarrow> \<not> validateRestrictedMetricsDelegate (mm e) callingUid m
                      | None \<Rightarrow> False)
              matchedConfigKeys;
          result = filter (\<lambda>configKey. configKey \<notin> set excludedKeys) matchedConfigKeys
      in if matchedConfigKeys = [] then
           (result, ''No configs found matching the config key'', CONFIG_KEY_NOT_FOUND)
         else if result = [] then
           (result, ''No matching configs for restricted metrics delegate'',
            CONFIG_KEY_WITH_UNMATCHED_DELEGATE)
         else (result, err, invalidQueryReason))"

text \<open>
  The loop of lines 994-1004 over the rows still to append: \<open>None\<close> where it meets a row
  whose size differs from the number of column names (and the function returns from inside
  the loop), the flattened data otherwise.
\<close>

fun appendRows :: "nat \<Rightarrow> string list list \<Rightarrow> string list \<Rightarrow> string list option" where
  "appendRows n [] queryData = Some queryData"
| "appendRows n (row # rows) queryData =
     (if length row \<noteq> n then None else appendRows n rows (queryData @ row))"

text \<open>
  \<^verbatim>\<open>querySql\<close> (lines 912-1009). The calls on the caller's callback are entries
  \<open>CallbackSendFailure\<close> and \<open>CallbackSendResults\<close> of the call log. \<open>policyConfig\<close> is not
  used by the source.
\<close>

definition querySql ::
  "('v, 'm, 'c) Env \<Rightarrow> string \<Rightarrow> int \<Rightarrow> int \<Rightarrow> string \<Rightarrow> int \<Rightarrow> 'm StatsLogProcessor
     \<Rightarrow> 'm StatsLogProcessor" where
  "querySql e sqlQuery minSqlClientVersion configId configPackage callingUid s =
     (if \<not> isAtLeastU (ext e) then
        stats (noteQueryRestrictedMetricFailed configId configPackage None callingUid
                 FLAG_DISABLED) s
      else
        let elapsedRealtimeNs = getElapsedRealtimeNs (ext e) in
        if minSqlClientVersion > getDbVersion (ext e) then
          stats (noteQueryRestrictedMetricFailed configId configPackage None callingUid
                   UNSUPPORTED_SQLITE_VERSION)
            (logCall (CallbackSendFailure
                        (''Unsupported sqlite version. Installed Version: ''
                           @ printf_d (getDbVersion (ext e)) @ '', Requested Version: ''
                           @ printf_d minSqlClientVersion @ ''.'')) s)
        else
          let configPackageUids =
                (case sAidToUidMapping (ext e) configPackage of
                   Some uid \<Rightarrow> [uid]
                 | None \<Rightarrow> getAppUid (ext e) configPackage);
              (keysToQuery, err, invalidQueryReason) =
                getRestrictedConfigKeysToQueryLocked e callingUid configId configPackageUids
                  [] UNSET_REASON s
          in if keysToQuery = [] then
               stats (noteQueryRestrictedMetricFailed configId configPackage None callingUid
                        invalidQueryReason)
                 (logCall (CallbackSendFailure err) s)
             else if length keysToQuery > 1 then
               stats (noteQueryRestrictedMetricFailed configId configPackage None callingUid
                        AMBIGUOUS_CONFIG_KEY)
                 (logCall (CallbackSendFailure ''Ambiguous ConfigKey'') s)
             else
               let s1 = flushRestrictedDataLocked e elapsedRealtimeNs s;
                   s2 = enforceDataTtlsLocked e (getWallClockNs (ext e)) elapsedRealtimeNs s1;
                   key = hd keysToQuery
               in case query (ext e) key sqlQuery of
                    Inl dbErr \<Rightarrow>
                      stats (noteQueryRestrictedMetricFailed configId configPackage
                               (Some (GetUid key)) callingUid QUERY_FAILURE)
                        (logCall (CallbackSendFailure (''failed to query db '' @ dbErr @ '':'')) s2)
                  | Inr (rows, columnTypes, columnNames) \<Rightarrow>
                      let s3 = (if length columnNames \<noteq> length columnTypes then
                                  stats (noteQueryRestrictedMetricFailed configId configPackage
                                           (Some (GetUid key)) callingUid INCONSISTENT_ROW_SIZE)
                                    (logCall (CallbackSendFailure ''Inconsistent row sizes'') s2)
                                else s2)
                      in (case appendRows (length columnNames) rows [] of
                           None \<Rightarrow>
                             stats (noteQueryRestrictedMetricFailed configId configPackage
                                      (Some (GetUid key)) callingUid INCONSISTENT_ROW_SIZE)
                               (logCall (CallbackSendFailure ''Inconsistent row sizes'') s3)
                         | Some queryData \<Rightarrow>
                             stats (noteQueryRestrictedMetricSucceed configId configPackage
                                      (Some (GetUid key)) callingUid)
                               (logCall (CallbackSendResults queryData columnNames columnTypes
                                           (length rows)) s3)))"

section \<open>A concrete environment\<close>

text \<open>
  One instance of the parameters, on which the model runs on concrete inputs. The field
  values of an event are a list addressed by field number from 1; a manager is a record of
  what the processor can observe of it: each event makes it grow by \<open>dmGrowth\<close> bytes and,
  if \<open>dmToggles\<close>, flips whether it is active; dropping, flushing and an erasing dump empty
  it. A configuration is the manager it builds. The constants have the values of the
  Android sources (\<open>atoms.proto\<close>, \<open>StatsdStats.h\<close>); the permission check passes for the
  system uid 1000 only, and every broadcast succeeds. \<open>demoEnv now\<close> is the environment of
  a call made when both clocks read \<open>now\<close>.
\<close>

datatype DemoField = F_INT int32 | F_LONG int64 | F_STRING string | F_BOOL bool | F_STORAGE bytes

definition demoField :: "DemoField list \<Rightarrow> nat \<Rightarrow> DemoField option" where
  "demoField v key = (if 0 < key \<and> key \<le> length v then Some (v ! (key - 1)) else None)"

definition demoLogEventOps :: "DemoField list LogEventOps" where
  "demoLogEventOps =
     \<lparr> size_values = length,
       GetLong = (\<lambda>v key. case demoField v key of
                             Some (F_LONG x) \<Rightarrow> Some x
                           | Some (F_INT x) \<Rightarrow> Some (scast x)
                           | _ \<Rightarrow> None),
       GetInt = (\<lambda>v key. case demoField v key of Some (F_INT x) \<Rightarrow> Some x | _ \<Rightarrow> None),
       GetString = (\<lambda>v key. case demoField v key of Some (F_STRING x) \<Rightarrow> Some x | _ \<Rightarrow> None),
       GetBool = (\<lambda>v key. case demoField v key of Some (F_BOOL x) \<Rightarrow> Some x | _ \<Rightarrow> None),
       GetStorage = (\<lambda>v key. case demoField v key of Some (F_STORAGE x) \<Rightarrow> Some x | _ \<Rightarrow> None),
       updateValue = (\<lambda>key val v.
                        if 0 < key \<and> key \<le> length v
                        then v [key - 1 := (case val of
                                              INT_VALUE x \<Rightarrow> F_INT x
                                            | LONG_VALUE x \<Rightarrow> F_LONG x
                                            | STORAGE_VALUE x \<Rightarrow> F_STORAGE x)]
                        else v),
       hasAttributionChain = (\<lambda>v. None),
       isAttributionUidField = (\<lambda>v i. False),
       int_value = (\<lambda>v i. 0),
       setInt = (\<lambda>i x v. v),
       mapIsolatedUidsToHostUidInLogEvent = (\<lambda>f v. v) \<rparr>"

definition demoConstants :: Constants where
  "demoConstants =
     \<lparr> BINARY_PUSH_STATE_CHANGED = 102, WATCHDOG_ROLLBACK_OCCURRED = 147,
       ISOLATED_UID_CHANGED = 43, APP_BREADCRUMB_REPORTED = 47,
       STATE_INSTALL_SUCCESS = 5, STATE_INSTALLER_ROLLBACK_INITIATED = 9,
       STATE_INSTALLER_ROLLBACK_SUCCESS = 15,
       ROLLBACK_TYPE_ROLLBACK_INITIATE = 1, ROLLBACK_TYPE_ROLLBACK_SUCCESS = 2,
       AID_STATSD = 1066,
       kMinByteSizeCheckPeriodNs = 60000000000, kMinBroadcastPeriodNs = 60000000000,
       kMinActivationBroadcastPeriodNs = 10000000000,
       kBytesPerRestrictedConfigTriggerFlush = 25600,
       kPullerCacheClearIntervalSec = 1,
       kMinTtlCheckPeriodNs = 3600000000000, kMinFlushRestrictedPeriodNs = 3600000000000,
       kMinDbGuardrailEnforcementPeriodNs = 3600000000000,
       kMaxFileSize = 52428800 \<rparr>"

record DemoManager =
  dmValid :: bool
  dmActive :: bool
  dmToggles :: bool
  dmDelegate :: bool
  dmBytes :: nat
  dmGrowth :: nat
  dmMaxBytes :: nat
  dmTriggerBytes :: nat

definition demoManagerOps :: "(DemoField list, DemoManager, DemoManager) MetricsManagerOps" where
  "demoManagerOps =
     \<lparr> newMetricsManager = (\<lambda>key config timeBaseNs currentTimeNs. config),
       isConfigValid = dmValid,
       init = (\<lambda>m. m),
       refreshTtl = (\<lambda>t m. m),
       isInTtl = (\<lambda>t m. True),
       updateConfig = (\<lambda>config timeBaseNs currentTimeNs m.
                         (dmValid config, config \<lparr> dmActive := dmActive m, dmBytes := dmBytes m \<rparr>)),
       hasRestrictedMetricsDelegate = dmDelegate,
       getRestrictedMetricsDelegate = (\<lambda>m. ''com.example.delegate''),
       validateRestrictedMetricsDelegate = (\<lambda>uid m. dmDelegate m),
       getAllMetricIds = (\<lambda>m. [1]),
       isActive = dmActive,
       onLogEvent = (\<lambda>event m. m \<lparr> dmActive := (if dmToggles m then \<not> dmActive m else dmActive m),
                                    dmBytes := dmBytes m + dmGrowth m \<rparr>),
       byteSize = dmBytes,
       getMaxMetricsBytes = dmMaxBytes,
       getTriggerGetDataBytes = dmTriggerBytes,
       dropData = (\<lambda>t m. m \<lparr> dmBytes := 0 \<rparr>),
       flushRestrictedData = (\<lambda>m. m \<lparr> dmBytes := 0 \<rparr>),
       enforceRestrictedDataTtls = (\<lambda>t m. m),
       onAnomalyAlarmFired = (\<lambda>t alarms m. m),
       shouldWriteToDisk = (\<lambda>m. True),
       shouldPersistLocalHistory = (\<lambda>m. False),
       onDumpReport = (\<lambda>t wall partial erase m. ([], if erase then m \<lparr> dmBytes := 0 \<rparr> else m)) \<rparr>"

definition demoExternals :: "int \<Rightarrow> DemoManager Externals" where
  "demoExternals now =
     \<lparr> isAtLeastU = True,
       checkPermissionForIds = (\<lambda>permission pid uid. uid = 1000),
       mSendBroadcast = (\<lambda>key. True),
       mSendActivationBroadcast = (\<lambda>uid configs. True),
       has_restricted_metrics_delegate_package_name = dmDelegate,
       readConfigFromDisk = (\<lambda>key. None),
       ParseFromArray = (\<lambda>data. Some (map ucast data)),
       writeExperimentIdsToProto = map ucast,
       popSoonerThan = (\<lambda>t. []),
       updateDeviceInfoTable = (\<lambda>key. True),
       getDbVersion = 3,
       sAidToUidMapping = (\<lambda>package. if package = ''AID_SYSTEM'' then Some 1000 else None),
       getAppUid = (\<lambda>package. []),
       query = (\<lambda>key sql. Inr ([[''1'']], [1], [''n''])),
       getElapsedRealtimeNs = now,
       getWallClockNs = now,
       getWallClockSec = now div 1000000000,
       uninitialised = \<lparr> trainVersionCode = 0, trainName = [], status = 0, experimentIds = [],
                         requiresStaging = False, rollbackEnabled = False,
                         requiresLowLatencyMonitor = False \<rparr> \<rparr>"

definition demoEnv :: "int \<Rightarrow> (DemoField list, DemoManager, DemoManager) Env" where
  "demoEnv now =
     \<lparr> util = demoConstants, ev = demoLogEventOps, mm = demoManagerOps, ext = demoExternals now \<rparr>"

text \<open>
  A configuration with a 1000-byte limit and a 500-byte trigger whose manager grows by 600
  bytes per event and changes its active state on each; its key; and an event with given
  tag, caller uid and field values.
\<close>

definition demoConfig :: DemoManager where
  "demoConfig =
     \<lparr> dmValid = True, dmActive = False, dmToggles = True, dmDelegate = False,
       dmBytes = 0, dmGrowth = 600, dmMaxBytes = 1000, dmTriggerBytes = 500 \<rparr>"

definition demoKey :: ConfigKey where
  "demoKey = ConfigKey 10001 7"

definition demoEvent :: "int \<Rightarrow> int \<Rightarrow> DemoField list \<Rightarrow> DemoField list LogEvent" where
  "demoEvent tag uid vals =
     \<lparr> mTagId = tag, mElapsedTimestampNs = 0, mLogUid = uid, mLogPid = 1, mValid = True,
       mRestricted = False, mParsedHeaderOnly = False, mValues = vals \<rparr>"



definition restrictedProcessor :: "DemoManager StatsLogProcessor" where
  "restrictedProcessor =
     (newStatsLogProcessor 0)
       \<lparr> mMetricsManagers := [(ConfigKey 1000 7, demoConfig \<lparr> dmDelegate := True \<rparr>)], calls := [] \<rparr>"

definition mismatchedColumnsEnv :: "(DemoField list, DemoManager, DemoManager) Env" where
  "mismatchedColumnsEnv =
     (demoEnv 0) \<lparr> ext := (demoExternals 0) \<lparr> query := (\<lambda>key sql. Inr ([], [1], [''a'', ''b''])) \<rparr> \<rparr>"

section \<open>Observations on the processor\<close>

text \<open>
  Classes of log entries: the reads and writes of train info; the calls of a manager's
  \<open>onLogEvent\<close>; the times of the successful activation broadcasts to a uid and of the
  successful data-ready broadcasts for a key, in the order of the log. \<open>housekeepingCall\<close>
  holds for the entries that are none of these (nor a callback of a query).
\<close>

fun isTrainInfoCall :: "Call \<Rightarrow> bool" where
  "isTrainInfoCall (ReadTrainInfo name) = True"
| "isTrainInfoCall (WriteTrainInfo info) = True"
| "isTrainInfoCall c = False"


fun activationBroadcastTime :: "int \<Rightarrow> Call \<Rightarrow> int list" where
  "activationBroadcastTime uid (SendActivationBroadcast t u configs sent) =
     (if u = uid \<and> sent then [t] else [])"
| "activationBroadcastTime uid c = []"

fun broadcastTime :: "ConfigKey \<Rightarrow> Call \<Rightarrow> int list" where
  "broadcastTime key (SendBroadcast t k sent) = (if k = key \<and> sent then [t] else [])"
| "broadcastTime key c = []"

definition activationBroadcastTimes :: "int \<Rightarrow> Call list \<Rightarrow> int list" where
  "activationBroadcastTimes uid cs = concat (map (activationBroadcastTime uid) cs)"

definition broadcastTimes :: "ConfigKey \<Rightarrow> Call list \<Rightarrow> int list" where
  "broadcastTimes key cs = concat (map (broadcastTime key) cs)"

fun housekeepingCall :: "Call \<Rightarrow> bool" where
  "housekeepingCall (SendBroadcast t k sent) = False"
| "housekeepingCall (SendActivationBroadcast t u configs sent) = False"
| "housekeepingCall (ReadTrainInfo name) = False"
| "housekeepingCall (WriteTrainInfo info) = False"
| "housekeepingCall (ManagerOnLogEvent key) = False"
| "housekeepingCall (ManagerDropData key t) = False"
| "housekeepingCall (CallbackSendFailure err) = False"
| "housekeepingCall (CallbackSendResults queryData columnNames columnTypes n) = False"
| "housekeepingCall c = True"

text \<open>
  What the claims observe of a processor besides its managers: the three time maps, the
  train info on disk, the isolated uids, and the log without its housekeeping entries.
\<close>

definition observed ::
  "'m StatsLogProcessor \<Rightarrow>
     (ConfigKey \<Rightarrow> int option) \<times> (int \<Rightarrow> int option) \<times> (ConfigKey \<Rightarrow> int option)
       \<times> (string \<Rightarrow> InstallTrainInfo option) \<times> (int \<Rightarrow> int option) \<times> Call list" where
  "observed s =
     (mLastBroadcastTimes s, mLastActivationBroadcastTimes s, mLastByteSizeTimes s,
      trainInfoDir s, isolatedUids s, filter (\<lambda>c. \<not> housekeepingCall c) (calls s))"

text \<open>
  What one pass of the loop of lines 471-498 makes of a manager: where the loop skips it
  (line 472) it is as before; otherwise it is the manager after its \<open>onLogEvent\<close> on the
  event (line 478) and then as \<open>flushIfNecessaryLocked\<close> (line 497) leaves that one: as it
  is, after \<open>dropData\<close> at the reading of the clock, or after \<open>flushRestrictedData\<close>.
\<close>

definition passedTo :: "('v, 'm, 'c) Env \<Rightarrow> 'v LogEvent \<Rightarrow> 'm \<Rightarrow> 'm \<Rightarrow> bool" where
  "passedTo e event m m' =
     (if mRestricted event \<and> \<not> hasRestrictedMetricsDelegate (mm e) m then m' = m
      else let m1 = onLogEvent (mm e) event m
           in m' = m1 \<or> m' = dropData (mm e) (getElapsedRealtimeNs (ext e)) m1
              \<or> m' = flushRestrictedData (mm e) m1)"

text \<open>
  What the rate limits of the broadcasts to one uid and for one key depend on: the last
  time recorded and the times of the successful broadcasts in the log. A list of times
  with the last time recorded is \<open>rateLimited\<close> by a period when any two times are at
  least the period apart, in the order of the list, and none is later than the recorded
  one (none exists where nothing is recorded).
\<close>

definition rateView ::
  "int \<Rightarrow> ConfigKey \<Rightarrow> 'm StatsLogProcessor \<Rightarrow> int option \<times> int list \<times> int option \<times> int list" where
  "rateView uid key s =
     (mLastActivationBroadcastTimes s uid, activationBroadcastTimes uid (calls s),
      mLastBroadcastTimes s key, broadcastTimes key (calls s))"

definition rateLimited :: "int \<Rightarrow> int list \<Rightarrow> int option \<Rightarrow> bool" where
  "rateLimited d ts lastTime =
     (sorted_wrt (\<lambda>a b. d \<le> b - a) ts
      \<and> (case lastTime of None \<Rightarrow> ts = [] | Some l \<Rightarrow> list_all (\<lambda>t. t \<le> l) ts))"

definition rateLimitsHold ::
  "int \<Rightarrow> int \<Rightarrow> int option \<times> int list \<times> int option \<times> int list \<Rightarrow> bool" where
  "rateLimitsHold dA dB v =
     (case v of (lastA, tsA, lastB, tsB) \<Rightarrow> rateLimited dA tsA lastA \<and> rateLimited dB tsB lastB)"

section \<open>Runs of requests\<close>

text \<open>
  Requests to the processor, each with the environment it is served in, and a run: the
  requests of a list served in order.
\<close>

datatype ('v, 'm, 'c) Request =
    LogEventRequest "('v, 'm, 'c) Env" "'v LogEvent" int
  | ConfigUpdateRequest "('v, 'm, 'c) Env" int int ConfigKey 'c bool

fun requestEnv :: "('v, 'm, 'c) Request \<Rightarrow> ('v, 'm, 'c) Env" where
  "requestEnv (LogEventRequest e event elapsedRealtimeNs) = e"
| "requestEnv (ConfigUpdateRequest e timestampNs wallClockNs key config modularUpdate) = e"

fun serve :: "('v, 'm, 'c) Request \<Rightarrow> 'm StatsLogProcessor \<Rightarrow> 'm StatsLogProcessor" where
  "serve (LogEventRequest e event elapsedRealtimeNs) s = OnLogEvent e event elapsedRealtimeNs s"
| "serve (ConfigUpdateRequest e timestampNs wallClockNs key config modularUpdate) s =
     OnConfigUpdated e timestampNs wallClockNs key config modularUpdate s"

definition serveAll ::
  "('v, 'm, 'c) Request list \<Rightarrow> 'm StatsLogProcessor \<Rightarrow> 'm StatsLogProcessor" where
  "serveAll rs s = fold serve rs s"

section \<open>Concrete processors, events and runs\<close>

text \<open>
  A processor holding one manager: a new processor after \<open>OnConfigUpdated\<close> with
  \<open>demoConfig\<close> under \<open>demoKey\<close>.
\<close>

definition demoProcessor :: "DemoManager StatsLogProcessor" where
  "demoProcessor = OnConfigUpdated (demoEnv 0) 0 0 demoKey demoConfig False (newStatsLogProcessor 0)"




text \<open>
  Runs of the processor with one configuration: an event of an atom without hard-coded
  handling (tag 10) from uid 10001 when the clocks read 1 s, and a second one at 2 s; or,
  after the first, the configuration removed and installed again at 2 s and an event at
  3 s.
\<close>

definition demoAtom :: "DemoField list LogEvent" where
  "demoAtom = demoEvent 10 10001 []"

definition afterFirstEvent :: "DemoManager StatsLogProcessor" where
  "afterFirstEvent = OnLogEvent (demoEnv 1000000000) demoAtom 1000000000 demoProcessor"

definition afterSecondEvent :: "DemoManager StatsLogProcessor" where
  "afterSecondEvent = OnLogEvent (demoEnv 2000000000) demoAtom 2000000000 afterFirstEvent"

definition afterReinstall :: "DemoManager StatsLogProcessor" where
  "afterReinstall =
     OnConfigUpdated (demoEnv 2000000000) 2000000000 2000000000 demoKey demoConfig False
       (OnConfigRemoved (demoEnv 2000000000) demoKey afterFirstEvent)"

definition afterReinstallEvent :: "DemoManager StatsLogProcessor" where
  "afterReinstallEvent = OnLogEvent (demoEnv 3000000000) demoAtom 3000000000 afterReinstall"

text \<open>
  A run on a new processor: the configuration installed, then events at 1 s, 2 s and
  11 s.
\<close>

definition demoRun :: "(DemoField list, DemoManager, DemoManager) Request list" where
  "demoRun =
     [ConfigUpdateRequest (demoEnv 0) 0 0 demoKey demoConfig False,
      LogEventRequest (demoEnv 1000000000) demoAtom 1000000000,
      LogEventRequest (demoEnv 2000000000) demoAtom 2000000000,
      LogEventRequest (demoEnv 11000000000) demoAtom 11000000000]"

chapter \<open>Theorems\<close>

section \<open>Properties of MultiConditionTrigger\<close>

lemma afterCalls_snoc:
  "afterCalls cs (ns @ [n]) = markComplete n (afterCalls cs ns)"
  by (simp add: afterCalls_def)

lemma afterCalls_invariant:
  "mRemainingConditionNames (afterCalls cs ns) = cs - set ns
   \<and> mCompleted (afterCalls cs ns) = (cs - set ns = {})
   \<and> dispatched (afterCalls cs ns) = (if cs - set ns = {} then 1 else 0)"
proof (induction ns rule: rev_induct)
  case Nil
  show ?case by (simp add: afterCalls_def newMultiConditionTrigger_def)
next
  case (snoc n ns)
  have step: "cs - set (ns @ [n]) = (cs - set ns) - {n}" by auto
  show ?case
  proof (cases "cs - set ns = {}")
    case True
    with snoc have "mCompleted (afterCalls cs ns)" by simp
    then have "afterCalls cs (ns @ [n]) = afterCalls cs ns"
      by (simp add: afterCalls_snoc markComplete_def)
    moreover from True have "cs - set (ns @ [n]) = {}" by auto
    ultimately show ?thesis using snoc True by simp
  next
    case False
    with snoc have "\<not> mCompleted (afterCalls cs ns)" by simp
    then show ?thesis
      using snoc False unfolding afterCalls_snoc step
      by (simp add: markComplete_def Let_def)
  qed
qed

text \<open>
  Claim C10. For every initial set of condition names and every sequence of \<open>markComplete\<close>
  calls: the trigger is dispatched at most once; it has been dispatched exactly when the
  remaining set is empty, which is exactly when every initial name has been marked (so at
  construction for the empty set); a call dispatches exactly when it empties a set that was
  not empty before; and a call after completion, or with a name that is not in the
  remaining set, leaves the object unchanged.
\<close>

theorem trigger_dispatched_once:
  fixes cs :: "string set" and ns :: "string list" and n :: string
  defines "t \<equiv> afterCalls cs ns"
  shows "dispatched t \<le> 1
    \<and> (dispatched t = 1) = (mRemainingConditionNames t = {})
    \<and> (mRemainingConditionNames t = {}) = (cs \<subseteq> set ns)
    \<and> mCompleted t = (mRemainingConditionNames t = {})
    \<and> dispatched (newMultiConditionTrigger cs) = (if cs = {} then 1 else 0)
    \<and> dispatched (markComplete n t) =
        dispatched t + (if mRemainingConditionNames t \<noteq> {} \<and> mRemainingConditionNames t - {n} = {}
                        then 1 else 0)
    \<and> (mCompleted t \<longrightarrow> markComplete n t = t)
    \<and> (n \<notin> mRemainingConditionNames t \<longrightarrow> markComplete n t = t)"
proof -
  note inv = afterCalls_invariant [of cs ns, folded t_def]
  have a: "dispatched t \<le> 1" using inv by simp
  have b: "(dispatched t = 1) = (mRemainingConditionNames t = {})" using inv by simp
  have c: "(mRemainingConditionNames t = {}) = (cs \<subseteq> set ns)" using inv by auto
  have d: "mCompleted t = (mRemainingConditionNames t = {})" using inv by simp
  have e: "dispatched (newMultiConditionTrigger cs) = (if cs = {} then 1 else 0)"
    by (simp add: newMultiConditionTrigger_def)
  have f: "dispatched (markComplete n t) =
        dispatched t + (if mRemainingConditionNames t \<noteq> {} \<and> mRemainingConditionNames t - {n} = {}
                        then 1 else 0)"
    using d by (simp add: markComplete_def Let_def)
  have g: "mCompleted t \<longrightarrow> markComplete n t = t"
    by (simp add: markComplete_def)
  have h: "n \<notin> mRemainingConditionNames t \<longrightarrow> markComplete n t = t"
  proof
    assume nin: "n \<notin> mRemainingConditionNames t"
    then have same: "mRemainingConditionNames t - {n} = mRemainingConditionNames t" by simp
    show "markComplete n t = t"
      using d by (cases "mCompleted t") (simp_all add: markComplete_def Let_def same)
  qed
  from a b c d e f g h show ?thesis by blast
qed

theorem trigger_dispatched_once_witness:
  "mCompleted (afterCalls {''boot'', ''init''} [''init'', ''boot''])
   \<and> ''late'' \<notin> mRemainingConditionNames (afterCalls {''boot'', ''init''} [''init'', ''boot''])
   \<and> dispatched (afterCalls {''boot'', ''init''} [''init'', ''boot'']) = 1
   \<and> markComplete ''late'' (afterCalls {''boot'', ''init''} [''init'', ''boot''])
       = afterCalls {''boot'', ''init''} [''init'', ''boot'']
   \<and> dispatched (afterCalls {''boot'', ''init''} [''init'']) = 0"
proof -
  have fin: "mCompleted (afterCalls {''boot'', ''init''} [''init'', ''boot''])"
    by code_simp
  have half: "dispatched (afterCalls {''boot'', ''init''} [''init'']) = 0"
    by code_simp
  from trigger_dispatched_once [of "{''boot'', ''init''}" "[''init'', ''boot'']" "''late''"] fin half
  show ?thesis by auto
qed

section \<open>Train info\<close>

lemma pWRO_empty:
  "processWatchdogRollbackOccurred e t [] s = ([], s)"
  by (simp add: processWatchdogRollbackOccurred_def)

lemma push_back_if_not_found_hd:
  "ids \<noteq> [] \<Longrightarrow> hd (push_back_if_not_found ids x) = hd ids"
  by (simp add: push_back_if_not_found_def)

lemma push_back_if_not_found_idem:
  "push_back_if_not_found (push_back_if_not_found ids x) x = push_back_if_not_found ids x"
  by (simp add: push_back_if_not_found_def)

text \<open>
  Claim C5. \<open>processWatchdogRollbackOccurred\<close> returns the empty list (and leaves the
  processor alone) for the empty package name, whatever the rollback type; and for every
  type and package name, a second call with the same arguments right after the first
  returns the same experiment-id list and leaves the same train info on disk as the first.
\<close>

theorem processWatchdogRollbackOccurred_idempotent:
  "processWatchdogRollbackOccurred e t [] s = ([], s)
   \<and> fst (processWatchdogRollbackOccurred e t pkg
             (snd (processWatchdogRollbackOccurred e t pkg s)))
       = fst (processWatchdogRollbackOccurred e t pkg s)
   \<and> trainInfoDir (snd (processWatchdogRollbackOccurred e t pkg
             (snd (processWatchdogRollbackOccurred e t pkg s))))
       = trainInfoDir (snd (processWatchdogRollbackOccurred e t pkg s))"
proof (cases "pkg = []")
  case True
  then show ?thesis by (simp add: processWatchdogRollbackOccurred_def)
next
  case False
  show ?thesis
  proof (cases "trainInfoDir s pkg")
    case None
    then show ?thesis using False
      by (simp add: processWatchdogRollbackOccurred_def readTrainInfo_def logCall_def)
  next
    case (Some d)
    show ?thesis
    proof (cases "experimentIds d")
      case Nil
      then show ?thesis using False Some
        by (simp add: processWatchdogRollbackOccurred_def readTrainInfo_def logCall_def)
    next
      case (Cons f r)
      show ?thesis using False Some Cons
        by (cases "trainName d = pkg")
           (auto simp add: processWatchdogRollbackOccurred_def readTrainInfo_def logCall_def
            writeTrainInfo_def Let_def push_back_if_not_found_def fun_upd_twist)
    qed
  qed
qed





section \<open>Basic facts\<close>

lemmas demo_defs = demoEnv_def demoExternals_def demoManagerOps_def demoConstants_def
  demoLogEventOps_def demoField_def demoConfig_def demoKey_def demoEvent_def

lemma calls_logCall [simp]: "calls (logCall c s) = calls s @ [c]"
  by (simp add: logCall_def)

lemma calls_stats [simp]: "calls (stats c s) = calls s @ [StatsdStats c]"
  by (simp add: stats_def)

lemma managers_logCall [simp]: "mMetricsManagers (logCall c s) = mMetricsManagers s"
  by (simp add: logCall_def)

lemma managers_stats [simp]: "mMetricsManagers (stats c s) = mMetricsManagers s"
  by (simp add: stats_def)

lemma timeBase_logCall [simp]: "mTimeBaseNs (logCall c s) = mTimeBaseNs s"
  by (simp add: logCall_def)

lemma timeBase_stats [simp]: "mTimeBaseNs (stats c s) = mTimeBaseNs s"
  by (simp add: stats_def)

lemma key_in_update: "key \<in> fst ` set (AList.update key v al)"
  by (simp add: dom_update)

lemma key_notin_delete: "key \<notin> fst ` set (AList.delete key al)"
  by (rule delete_notin_dom)


section \<open>The byte-size guardrail\<close>

text \<open>
  Claim C4. Whenever the byte-size check of \<open>flushIfNecessaryLocked\<close> runs for a key (there
  is no earlier check of the key, or the last one is at least \<open>kMinByteSizeCheckPeriodNs\<close>
  back) and finds the manager's \<open>byteSize\<close> strictly above its \<open>maxMetricsBytes\<close>, the
  manager is replaced by \<open>dropData\<close> of it, the log gains exactly the \<open>dropData\<close> call and
  \<open>noteDataDropped\<close> with the size observed, and nothing else changes but the time of the
  check: no data-ready broadcast is sent and no broadcast time is recorded.
\<close>

theorem flush_over_limit_drops:
  assumes checked:
      "\<forall>t. mLastByteSizeTimes s key = Some t
         \<longrightarrow> \<not> getElapsedRealtimeNs (ext e) - t < kMinByteSizeCheckPeriodNs (util e)"
    and over: "byteSize (mm e) m > getMaxMetricsBytes (mm e) m"
  shows "flushIfNecessaryLocked e key m s =
           (dropData (mm e) (getElapsedRealtimeNs (ext e)) m,
            s \<lparr> mLastByteSizeTimes := (mLastByteSizeTimes s)(key \<mapsto> getElapsedRealtimeNs (ext e)),
                calls := calls s @ [ManagerDropData key (getElapsedRealtimeNs (ext e)),
                                    StatsdStats (noteDataDropped key (byteSize (mm e) m))] \<rparr>)"
proof -
  have run: "\<not> (case mLastByteSizeTimes s key of
            Some lastCheckTime \<Rightarrow>
              getElapsedRealtimeNs (ext e) - lastCheckTime < kMinByteSizeCheckPeriodNs (util e)
          | None \<Rightarrow> False)"
    using checked by (cases "mLastByteSizeTimes s key") simp_all
  show ?thesis
    using over run
    by (simp add: flushIfNecessaryLocked_def Let_def stats_def logCall_def)
qed

theorem flush_over_limit_drops_witness:
  "byteSize (mm (demoEnv 5)) (demoConfig \<lparr> dmBytes := 1100 \<rparr>)
      > getMaxMetricsBytes (mm (demoEnv 5)) (demoConfig \<lparr> dmBytes := 1100 \<rparr>)
   \<and> dmBytes (fst (flushIfNecessaryLocked (demoEnv 5) demoKey (demoConfig \<lparr> dmBytes := 1100 \<rparr>)
                       (newStatsLogProcessor 0))) = 0
   \<and> calls (snd (flushIfNecessaryLocked (demoEnv 5) demoKey (demoConfig \<lparr> dmBytes := 1100 \<rparr>)
                       (newStatsLogProcessor 0)))
       = [ForceClearPullerCache, UpdateLogEventFilter, ManagerDropData demoKey 5,
          StatsdStats (noteDataDropped demoKey 1100)]"
proof -
  have over: "byteSize (mm (demoEnv 5)) (demoConfig \<lparr> dmBytes := 1100 \<rparr>)
      > getMaxMetricsBytes (mm (demoEnv 5)) (demoConfig \<lparr> dmBytes := 1100 \<rparr>)"
    by (simp add: demo_defs)
  have fresh: "\<forall>t. mLastByteSizeTimes (newStatsLogProcessor 0 :: DemoManager StatsLogProcessor) demoKey = Some t
         \<longrightarrow> \<not> getElapsedRealtimeNs (ext (demoEnv 5)) - t < kMinByteSizeCheckPeriodNs (util (demoEnv 5))"
    by (simp add: newStatsLogProcessor_def)
  show ?thesis
    using over
    by (simp add: flush_over_limit_drops [OF fresh over])
       (simp add: demo_defs newStatsLogProcessor_def)
qed

section \<open>querySql on a database answer with mismatched columns\<close>

text \<open>
  Claim C3 says that a failing \<open>querySql\<close> sends exactly one failure and no results. With
  one matching restricted configuration and a database answer that has two column names,
  one column type and no rows, the source sends the failure "Inconsistent row sizes" and
  then, there being no \<^verbatim>\<open>return\<close> after line 992, the results as well.
\<close>

theorem querySql_failure_and_results:
  "calls (querySql mismatchedColumnsEnv ''SELECT 1'' 0 7 ''AID_SYSTEM'' 2000 restrictedProcessor)
     = [CallbackSendFailure ''Inconsistent row sizes'',
        StatsdStats (noteQueryRestrictedMetricFailed 7 ''AID_SYSTEM'' (Some 1000) 2000
                       INCONSISTENT_ROW_SIZE),
        CallbackSendResults [] [''a'', ''b''] [1] 0,
        StatsdStats (noteQueryRestrictedMetricSucceed 7 ''AID_SYSTEM'' (Some 1000) 2000)]"
  by (simp add: querySql_def getRestrictedConfigKeysToQueryLocked_def restrictedProcessor_def
        mismatchedColumnsEnv_def demo_defs newStatsLogProcessor_def Let_def stats_def logCall_def
        flushRestrictedDataLocked_def enforceDataTtlsLocked_def forEachManager_def
        AList.map_ran_def)

text \<open>
  On a device below U the function records the failed query and returns: the callback
  receives nothing.
\<close>

theorem querySql_flag_disabled_silent:
  "calls (querySql ((demoEnv 0) \<lparr> ext := (demoExternals 0) \<lparr> isAtLeastU := False \<rparr> \<rparr>)
            ''SELECT 1'' 0 7 ''AID_SYSTEM'' 2000 restrictedProcessor)
     = [StatsdStats (noteQueryRestrictedMetricFailed 7 ''AID_SYSTEM'' None 2000 FLAG_DISABLED)]"
  by (simp add: querySql_def restrictedProcessor_def demo_defs newStatsLogProcessor_def
        stats_def logCall_def)

section \<open>Configuration updates\<close>

lemma OnConfigUpdatedLocked_present:
  "(key \<in> fst ` set (mMetricsManagers (OnConfigUpdatedLocked e ts key config mu s)))
     = configValidOnUpdate e ts key config mu s"
proof (cases "map_of (mMetricsManagers s) key")
  case None
  then show ?thesis
    by (simp add: OnConfigUpdatedLocked_def configValidOnUpdate_def modularUpdateOnUpdate_def
          updateLogEventFilterLocked_def Let_def key_in_update key_notin_delete)
next
  case (Some m)
  then show ?thesis
    by (cases "modularUpdateOnUpdate e key config mu s")
       (simp_all add: OnConfigUpdatedLocked_def configValidOnUpdate_def
          updateLogEventFilterLocked_def Let_def key_in_update key_notin_delete split_beta)
qed


lemma OnConfigUpdatedLocked_erase_broadcast:
  assumes found: "map_of (mMetricsManagers s) key = Some m"
    and invalid: "\<not> configValidOnUpdate e ts key config mu s"
    and u: "isAtLeastU (ext e)"
    and delegate: "hasRestrictedMetricsDelegate (mm e)
            (if modularUpdateOnUpdate e key config mu s
             then snd (updateConfig (mm e) config (mTimeBaseNs s) ts m) else m)"
  shows "SendRestrictedMetricsBroadcast key
           (getRestrictedMetricsDelegate (mm e)
              (if modularUpdateOnUpdate e key config mu s
               then snd (updateConfig (mm e) config (mTimeBaseNs s) ts m) else m)) []
         \<in> set (drop (length (calls s)) (calls (OnConfigUpdatedLocked e ts key config mu s)))"
  using assms
  by (cases "modularUpdateOnUpdate e key config mu s")
     (simp_all add: OnConfigUpdatedLocked_def configValidOnUpdate_def
        updateLogEventFilterLocked_def Let_def split_beta)

text \<open>
  Claim C9. After \<open>OnConfigUpdatedLocked\<close>, a manager for the key is in the map iff the
  configuration validated (\<open>configValidOnUpdate\<close>: the new manager's \<open>isConfigValid\<close> for a
  new key or a non-modular update, the result of \<open>updateConfig\<close> for a modular one); so an
  invalid configuration leaves no manager for the key, whatever was there; and when the
  manager erased has a restricted-metrics delegate (on a device that is at least U, the
  only devices on which a configuration with a delegate validates, line 582), the call
  sends the restricted-metrics broadcast with the empty list of metric ids. The last
  conjunct is the first for \<open>OnConfigUpdated\<close>, which writes the key's data to disk before.
\<close>

theorem manager_present_iff_config_valid:
  fixes e :: "('v, 'm, 'c) Env" and s :: "'m StatsLogProcessor" and ts wall :: int
    and key :: ConfigKey and config :: 'c and mu :: bool
  defines "s' \<equiv> OnConfigUpdatedLocked e ts key config mu s"
  defines "erased \<equiv> \<lambda>m. if modularUpdateOnUpdate e key config mu s
                         then snd (updateConfig (mm e) config (mTimeBaseNs s) ts m) else m"
  shows "(key \<in> fst ` set (mMetricsManagers s')) = configValidOnUpdate e ts key config mu s
    \<and> (\<not> configValidOnUpdate e ts key config mu s \<longrightarrow> map_of (mMetricsManagers s') key = None)
    \<and> (\<forall>m. map_of (mMetricsManagers s) key = Some m
             \<and> \<not> configValidOnUpdate e ts key config mu s
             \<and> isAtLeastU (ext e)
             \<and> hasRestrictedMetricsDelegate (mm e) (erased m)
           \<longrightarrow> SendRestrictedMetricsBroadcast key
                 (getRestrictedMetricsDelegate (mm e) (erased m)) []
               \<in> set (drop (length (calls s)) (calls s')))
    \<and> (key \<in> fst ` set (mMetricsManagers (OnConfigUpdated e ts wall key config mu s)))
        = configValidOnUpdate e ts key config mu (WriteDataToDiskLocked_key e key ts wall s)"
proof -
  have a: "(key \<in> fst ` set (mMetricsManagers s')) = configValidOnUpdate e ts key config mu s"
    unfolding s'_def by (rule OnConfigUpdatedLocked_present)
  have b: "\<not> configValidOnUpdate e ts key config mu s \<longrightarrow> map_of (mMetricsManagers s') key = None"
    using a by (simp add: map_of_eq_None_iff)
  have c: "\<forall>m. map_of (mMetricsManagers s) key = Some m
             \<and> \<not> configValidOnUpdate e ts key config mu s
             \<and> isAtLeastU (ext e)
             \<and> hasRestrictedMetricsDelegate (mm e) (erased m)
           \<longrightarrow> SendRestrictedMetricsBroadcast key
                 (getRestrictedMetricsDelegate (mm e) (erased m)) []
               \<in> set (drop (length (calls s)) (calls s'))"
    unfolding s'_def erased_def
    using OnConfigUpdatedLocked_erase_broadcast [of s key _ e ts config mu] by blast
  have d: "(key \<in> fst ` set (mMetricsManagers (OnConfigUpdated e ts wall key config mu s)))
        = configValidOnUpdate e ts key config mu (WriteDataToDiskLocked_key e key ts wall s)"
    unfolding OnConfigUpdated_def by (rule OnConfigUpdatedLocked_present)
  from a b c d show ?thesis by blast
qed

theorem manager_present_iff_config_valid_witness:
  "map_of (mMetricsManagers restrictedProcessor) (ConfigKey 1000 7)
      = Some (demoConfig \<lparr> dmDelegate := True \<rparr>)
   \<and> \<not> configValidOnUpdate (demoEnv 9) 9 (ConfigKey 1000 7) (demoConfig \<lparr> dmValid := False \<rparr>)
         True restrictedProcessor
   \<and> isAtLeastU (ext (demoEnv 9))
   \<and> mMetricsManagers (OnConfigUpdatedLocked (demoEnv 9) 9 (ConfigKey 1000 7)
         (demoConfig \<lparr> dmValid := False \<rparr>) True restrictedProcessor) = []
   \<and> SendRestrictedMetricsBroadcast (ConfigKey 1000 7) ''com.example.delegate'' []
       \<in> set (calls (OnConfigUpdatedLocked (demoEnv 9) 9 (ConfigKey 1000 7)
         (demoConfig \<lparr> dmValid := False \<rparr>) True restrictedProcessor))
   \<and> (ConfigKey 1000 7 \<in> fst ` set (mMetricsManagers (OnConfigUpdatedLocked (demoEnv 9) 9
         (ConfigKey 1000 7) demoConfig True restrictedProcessor)))"
proof -
  have found: "map_of (mMetricsManagers restrictedProcessor) (ConfigKey 1000 7)
      = Some (demoConfig \<lparr> dmDelegate := True \<rparr>)"
    by (simp add: restrictedProcessor_def newStatsLogProcessor_def)
  have invalid: "\<not> configValidOnUpdate (demoEnv 9) 9 (ConfigKey 1000 7)
         (demoConfig \<lparr> dmValid := False \<rparr>) True restrictedProcessor"
    by (simp add: configValidOnUpdate_def modularUpdateOnUpdate_def restrictedProcessor_def
          newStatsLogProcessor_def demo_defs)
  have valid: "configValidOnUpdate (demoEnv 9) 9 (ConfigKey 1000 7) demoConfig True
         restrictedProcessor"
    by (simp add: configValidOnUpdate_def modularUpdateOnUpdate_def restrictedProcessor_def
          newStatsLogProcessor_def demo_defs)
  have u: "isAtLeastU (ext (demoEnv 9))" by (simp add: demo_defs)
  have del: "hasRestrictedMetricsDelegate (mm (demoEnv 9))
      (if modularUpdateOnUpdate (demoEnv 9) (ConfigKey 1000 7) (demoConfig \<lparr> dmValid := False \<rparr>)
            True restrictedProcessor
       then snd (updateConfig (mm (demoEnv 9)) (demoConfig \<lparr> dmValid := False \<rparr>)
                   (mTimeBaseNs restrictedProcessor) 9 (demoConfig \<lparr> dmDelegate := True \<rparr>))
       else demoConfig \<lparr> dmDelegate := True \<rparr>)"
    by (simp add: modularUpdateOnUpdate_def restrictedProcessor_def
          newStatsLogProcessor_def demo_defs)
  have name: "getRestrictedMetricsDelegate (mm (demoEnv 9)) x = ''com.example.delegate''" for x
    by (simp add: demo_defs)
  have empty: "calls restrictedProcessor = []"
    by (simp add: restrictedProcessor_def)
  note thm1 = manager_present_iff_config_valid [where key = "ConfigKey 1000 7" and e = "demoEnv 9"
      and ts = 9 and config = "demoConfig \<lparr> dmValid := False \<rparr>" and mu = True
      and s = restrictedProcessor and wall = 9]
  note thm2 = manager_present_iff_config_valid [where key = "ConfigKey 1000 7" and e = "demoEnv 9"
      and ts = 9 and config = demoConfig and mu = True and s = restrictedProcessor and wall = 9]
  have gone: "mMetricsManagers (OnConfigUpdatedLocked (demoEnv 9) 9 (ConfigKey 1000 7)
         (demoConfig \<lparr> dmValid := False \<rparr>) True restrictedProcessor) = []"
    by (simp add: OnConfigUpdatedLocked_def modularUpdateOnUpdate_def restrictedProcessor_def
          newStatsLogProcessor_def demo_defs Let_def updateLogEventFilterLocked_def
          AList.delete_eq)
  from thm1 found invalid u del
  have sent: "SendRestrictedMetricsBroadcast (ConfigKey 1000 7) ''com.example.delegate'' []
       \<in> set (calls (OnConfigUpdatedLocked (demoEnv 9) 9 (ConfigKey 1000 7)
         (demoConfig \<lparr> dmValid := False \<rparr>) True restrictedProcessor))"
    by (simp add: name empty)
  from thm2 valid
  have present: "ConfigKey 1000 7 \<in> fst ` set (mMetricsManagers (OnConfigUpdatedLocked (demoEnv 9) 9
         (ConfigKey 1000 7) demoConfig True restrictedProcessor))"
    by blast
  from found invalid u gone sent present show ?thesis by blast
qed

section \<open>What the housekeeping steps leave alone\<close>

lemma observed_logCall [simp]:
  "housekeepingCall c \<Longrightarrow> observed (logCall c s) = observed s"
  by (simp add: observed_def logCall_def)

lemma observed_stats [simp]: "observed (stats c s) = observed s"
  by (simp add: stats_def)

lemma observed_managers_update [simp]:
  "observed (s \<lparr> mMetricsManagers := x \<rparr>) = observed s"
  by (simp add: observed_def)

lemma observed_misc_update [simp]:
  "observed (s \<lparr> mLastTtlTime := t \<rparr>) = observed s"
  "observed (s \<lparr> mLastFlushRestrictedTime := t \<rparr>) = observed s"
  "observed (s \<lparr> mLastDbGuardrailEnforcementTime := t \<rparr>) = observed s"
  "observed (s \<lparr> mLastPullerCacheClearTimeSec := t \<rparr>) = observed s"
  "observed (s \<lparr> mLastWriteTimeNs := t \<rparr>) = observed s"
  "observed (s \<lparr> mNextAnomalyAlarmTime := t \<rparr>) = observed s"
  "observed (s \<lparr> mOnDiskDataConfigs := d \<rparr>) = observed s"
  "observed (s \<lparr> mDumpReportNumbers := n \<rparr>) = observed s"
  by (simp_all add: observed_def)

lemma observed_forEachManager [simp]: "observed (forEachManager f s) = observed s"
  by (simp add: forEachManager_def)

lemma observed_processFiredAnomalyAlarmsLocked [simp]:
  "observed (processFiredAnomalyAlarmsLocked e t a s) = observed s"
  by (simp add: processFiredAnomalyAlarmsLocked_def)

lemma observed_informAnomalyAlarmFiredLocked [simp]:
  "observed (informAnomalyAlarmFiredLocked e t s) = observed s"
  by (simp add: informAnomalyAlarmFiredLocked_def Let_def)

lemma observed_enforceDataTtlsLocked [simp]:
  "observed (enforceDataTtlsLocked e w t s) = observed s"
  by (simp add: enforceDataTtlsLocked_def)

lemma observed_enforceDataTtlsIfNecessaryLocked [simp]:
  "observed (enforceDataTtlsIfNecessaryLocked e w t s) = observed s"
  by (simp add: enforceDataTtlsIfNecessaryLocked_def)

lemma observed_flushRestrictedDataLocked [simp]:
  "observed (flushRestrictedDataLocked e t s) = observed s"
  by (simp add: flushRestrictedDataLocked_def)

lemma observed_flushRestrictedDataIfNecessaryLocked [simp]:
  "observed (flushRestrictedDataIfNecessaryLocked e t s) = observed s"
  by (simp add: flushRestrictedDataIfNecessaryLocked_def)

lemma observed_enforceDbGuardrailsIfNecessaryLocked [simp]:
  "observed (enforceDbGuardrailsIfNecessaryLocked e w t s) = observed s"
  by (simp add: enforceDbGuardrailsIfNecessaryLocked_def)

lemma observed_updateLogEventFilterLocked [simp]:
  "observed (updateLogEventFilterLocked s) = observed s"
  by (simp add: updateLogEventFilterLocked_def)

lemma observed_onConfigMetricsReportLocked [simp]:
  "observed (snd (onConfigMetricsReportLocked e key t w p er sv s)) = observed s"
  by (simp add: onConfigMetricsReportLocked_def Let_def split_beta split: option.split)

lemma observed_WriteDataToDiskLocked_key [simp]:
  "observed (WriteDataToDiskLocked_key e key t w s) = observed s"
  by (simp add: WriteDataToDiskLocked_key_def Let_def split_beta split: option.split)

lemma observed_fold:
  assumes "\<And>k s. observed (f k s) = observed s"
  shows "observed (fold f ks s) = observed s"
  by (induction ks arbitrary: s) (simp_all add: assms)

lemma observed_WriteDataToDiskLocked [simp]:
  "observed (WriteDataToDiskLocked e t w s) = observed s"
  by (simp add: WriteDataToDiskLocked_def observed_fold)

lemma observed_OnConfigUpdatedLocked [simp]:
  "observed (OnConfigUpdatedLocked e ts key config mu s) = observed s"
  by (simp add: OnConfigUpdatedLocked_def Let_def split_beta split: option.split)

lemma observed_resetConfigsLocked [simp]:
  "observed (resetConfigsLocked e ts keys s) = observed s"
  unfolding resetConfigsLocked_def
  by (rule observed_fold) (simp split: option.split)

lemma observed_resetIfConfigTtlExpiredLocked [simp]:
  "observed (resetIfConfigTtlExpiredLocked e t s) = observed s"
  by (simp add: resetIfConfigTtlExpiredLocked_def Let_def)

section \<open>The blocks of OnLogEvent before the dispatch\<close>

lemma filter_observed:
  assumes "\<And>c. P c \<Longrightarrow> \<not> housekeepingCall c"
  shows "filter P (filter (\<lambda>c. \<not> housekeepingCall c) cs) = filter P cs"
proof -
  have "(\<lambda>c. \<not> housekeepingCall c \<and> P c) = P" using assms by auto
  then show ?thesis by (simp add: filter_filter)
qed

lemma isTrainInfoCall_not_housekeeping: "isTrainInfoCall c \<Longrightarrow> \<not> housekeepingCall c"
  by (cases c) simp_all


lemma observed_filter:
  assumes o: "observed s' = observed s" and P: "\<And>c. P c \<Longrightarrow> \<not> housekeepingCall c"
  shows "filter P (calls s') = filter P (calls s)"
proof -
  from o have f: "filter (\<lambda>c. \<not> housekeepingCall c) (calls s')
      = filter (\<lambda>c. \<not> housekeepingCall c) (calls s)"
    by (simp add: observed_def)
  have "filter P (calls s') = filter P (filter (\<lambda>c. \<not> housekeepingCall c) (calls s'))"
    by (rule filter_observed [symmetric]) (rule P)
  also have "\<dots> = filter P (filter (\<lambda>c. \<not> housekeepingCall c) (calls s))"
    by (simp only: f)
  also have "\<dots> = filter P (calls s)"
    by (rule filter_observed) (rule P)
  finally show ?thesis .
qed

lemma observed_trainInfoCalls:
  assumes "observed s' = observed s"
  shows "trainInfoDir s' = trainInfoDir s
    \<and> filter isTrainInfoCall (calls s') = filter isTrainInfoCall (calls s)"
proof
  from assms show "trainInfoDir s' = trainInfoDir s" by (simp add: observed_def)
  from assms show "filter isTrainInfoCall (calls s') = filter isTrainInfoCall (calls s)"
    by (rule observed_filter) (rule isTrainInfoCall_not_housekeeping)
qed


lemma observed_isolatedUids: "observed s' = observed s \<Longrightarrow> isolatedUids s' = isolatedUids s"
  by (simp add: observed_def)

lemma getHostUidOrSelf_cong:
  "isolatedUids s' = isolatedUids s \<Longrightarrow> getHostUidOrSelf s' = getHostUidOrSelf s"
  by (rule ext) (simp add: getHostUidOrSelf_def)

lemma mapIsolated_cong:
  assumes "isolatedUids s' = isolatedUids s"
  shows "mapIsolatedUidToHostUidIfNecessaryLocked e s' event
       = mapIsolatedUidToHostUidIfNecessaryLocked e s event"
proof -
  have h: "getHostUidOrSelf s' = getHostUidOrSelf s" using assms by (rule getHostUidOrSelf_cong)
  show ?thesis unfolding mapIsolatedUidToHostUidIfNecessaryLocked_def h ..
qed

lemma validate_cong:
  assumes "isolatedUids s' = isolatedUids s"
  shows "validateAppBreadcrumbEvent e s' event = validateAppBreadcrumbEvent e s event"
proof -
  have h: "getHostUidOrSelf s' = getHostUidOrSelf s" using assms by (rule getHostUidOrSelf_cong)
  show ?thesis unfolding validateAppBreadcrumbEvent_def h ..
qed

lemma unprivileged_binary_push:
  assumes "\<not> checkPermissionForIds (ext e) kPermissionDump (mLogPid event) (mLogUid event)
           \<or> \<not> checkPermissionForIds (ext e) kPermissionUsage (mLogPid event) (mLogUid event)"
  shows "onBinaryPushStateChangedEventLocked e event s = (event, s)"
  using assms by (auto simp add: onBinaryPushStateChangedEventLocked_def Let_def)

lemma unprivileged_watchdog:
  assumes "\<not> checkPermissionForIds (ext e) kPermissionDump (mLogPid event) (mLogUid event)
           \<or> \<not> checkPermissionForIds (ext e) kPermissionUsage (mLogPid event) (mLogUid event)"
  shows "onWatchdogRollbackOccurredLocked e event s = (event, s)"
  using assms by (auto simp add: onWatchdogRollbackOccurredLocked_def Let_def)

lemma observed_OnLogEvent_anomalyAlarm [simp]:
  "observed (OnLogEvent_anomalyAlarm e now s) = observed s"
  by (simp add: OnLogEvent_anomalyAlarm_def Let_def)

lemma observed_OnLogEvent_periodic [simp]:
  "observed (OnLogEvent_periodic e now s) = observed s"
  by (simp add: OnLogEvent_periodic_def Let_def)

lemma before_dispatch_plain:
  assumes iso: "mTagId event \<noteq> ISOLATED_UID_CHANGED (util e)"
    and handlers: "OnLogEvent_hardCodedHandlers e event
                   (stats (noteAtomLogged (mTagId event)
                      (cdiv (mElapsedTimestampNs event) NS_PER_SEC) (mParsedHeaderOnly event)) s)
                 = (event, stats (noteAtomLogged (mTagId event)
                      (cdiv (mElapsedTimestampNs event) NS_PER_SEC) (mParsedHeaderOnly event)) s)"
  shows "case OnLogEvent_before_dispatch e event now s of
           Inr s' \<Rightarrow> observed s' = observed s
              \<and> (\<not> mValid event \<or> mMetricsManagers s' = []
                  \<or> \<not> validateAppBreadcrumbEvent e s
                        (mapIsolatedUidToHostUidIfNecessaryLocked e s event))
         | Inl (event', s') \<Rightarrow> observed s' = observed s
              \<and> event' = mapIsolatedUidToHostUidIfNecessaryLocked e s event
              \<and> mValid event
              \<and> validateAppBreadcrumbEvent e s event'"
proof -
  define s1 where "s1 = stats (noteAtomLogged (mTagId event)
                      (cdiv (mElapsedTimestampNs event) NS_PER_SEC) (mParsedHeaderOnly event)) s"
  define s3 where "s3 = resetIfConfigTtlExpiredLocked e (mElapsedTimestampNs event) s1"
  define event' where "event' = mapIsolatedUidToHostUidIfNecessaryLocked e s event"
  define s5 where "s5 = logCall StateManagerOnLogEvent s3"
  define s6 where "s6 = OnLogEvent_periodic e now (OnLogEvent_anomalyAlarm e now s5)"
  have o1: "observed s1 = observed s" by (simp add: s1_def)
  have o3: "observed s3 = observed s" by (simp add: s3_def o1)
  have o5: "observed s5 = observed s" by (simp add: s5_def o3)
  have o6: "observed s6 = observed s" by (simp add: s6_def o5)
  have map3: "mapIsolatedUidToHostUidIfNecessaryLocked e s3 event = event'"
    unfolding event'_def using o3 by (intro mapIsolated_cong observed_isolatedUids)
  have uids: "OnLogEvent_uids e (mTagId event) event s3 = (event', s3)"
    using iso by (simp add: OnLogEvent_uids_def map3)
  have val: "validateAppBreadcrumbEvent e s6 event' = validateAppBreadcrumbEvent e s event'"
    using o6 by (intro validate_cong observed_isolatedUids)
  have eq: "OnLogEvent_before_dispatch e event now s =
     (if \<not> mValid event then Inr (stats (noteAtomError (mTagId event)) s1)
      else if mMetricsManagers s5 = [] then Inr s5
      else if \<not> validateAppBreadcrumbEvent e s event' then Inr s6
      else Inl (event', s6))"
    unfolding OnLogEvent_before_dispatch_def Let_def s1_def [symmetric]
      handlers [folded s1_def] fst_conv snd_conv s3_def [symmetric] uids
      s5_def [symmetric] s6_def [symmetric] val
    by simp
  show ?thesis
    unfolding eq using o1 o5 o6
    by (simp add: event'_def [symmetric])
qed

section \<open>The loops of the dispatch\<close>

lemma loop_preserves:
  assumes log: "\<And>k s. V (logCall (ManagerOnLogEvent k) s) = V s"
    and st: "\<And>c s. V (stats c s) = V s"
    and fl: "\<And>k m s. V (snd (flushIfNecessaryLocked e k m s)) = V s"
  shows "V (snd (snd (snd (passToMetricsManagers e event ms a u s)))) = V s"
proof (induction ms arbitrary: a u s)
  case Nil
  show ?case by simp
next
  case (Cons p rest)
  obtain key m where p: "p = (key, m)" by (cases p)
  show ?case
    unfolding p
    by (simp add: split_beta Let_def Cons.IH log st fl)
qed

lemma loop_keys:
  "map fst (fst (passToMetricsManagers e event ms a u s)) = map fst ms"
proof (induction ms arbitrary: a u s)
  case Nil
  show ?case by simp
next
  case (Cons p rest)
  obtain key m where p: "p = (key, m)" by (cases p)
  show ?case
    unfolding p
    by (simp add: split_beta Let_def Cons.IH)
qed

lemma prefix_calls_logCall: "prefix (calls s) (calls (logCall c s))"
  by (simp add: logCall_def)

lemma prefix_calls_stats: "prefix (calls s) (calls (stats c s))"
  by (simp add: stats_def logCall_def)

lemma prefix_calls_flush: "prefix (calls s) (calls (snd (flushIfNecessaryLocked e k m s)))"
  by (simp add: flushIfNecessaryLocked_def Let_def stats_def logCall_def)

lemma loop_step:
  assumes "\<not> (mRestricted event \<and> \<not> hasRestrictedMetricsDelegate (mm e) m)"
  shows "passToMetricsManagers e event ((key, m) # rest) a u s =
     (let m1 = onLogEvent (mm e) event m;
          s2 = (if isActive (mm e) m \<noteq> isActive (mm e) m1
                then stats (noteActiveStatusChanged key (isActive (mm e) m1))
                       (logCall (ManagerOnLogEvent key) s)
                else logCall (ManagerOnLogEvent key) s);
          a1 = (if isActive (mm e) m1
                then AList.map_default (GetUid key) [GetId key] (\<lambda>l. l @ [GetId key]) a
                else a);
          u1 = (if isActive (mm e) m \<noteq> isActive (mm e) m1 \<and> GetUid key \<notin> set u
                then u @ [GetUid key] else u);
          ms3 = flushIfNecessaryLocked e key m1 s2;
          r = passToMetricsManagers e event rest a1 u1 (snd ms3)
      in ((key, fst ms3) # fst r, snd r))"
proof -
  have c: "(mRestricted event \<and> \<not> hasRestrictedMetricsDelegate (mm e) m) = False"
    using assms by simp
  show ?thesis
    by (simp only: passToMetricsManagers.simps c if_False Let_def split_beta)
qed

lemma loop_skip:
  assumes "mRestricted event \<and> \<not> hasRestrictedMetricsDelegate (mm e) m"
  shows "passToMetricsManagers e event ((key, m) # rest) a u s =
     (let r = passToMetricsManagers e event rest a u s in ((key, m) # fst r, snd r))"
  using assms by (simp add: split_beta Let_def)

lemma prefix_calls_noted:
  "prefix (calls s @ [ManagerOnLogEvent key])
     (calls (if b then stats c (logCall (ManagerOnLogEvent key) s)
             else logCall (ManagerOnLogEvent key) s))"
  by (simp add: stats_def logCall_def)

lemma loop_prefix:
  "prefix (calls s) (calls (snd (snd (snd (passToMetricsManagers e event ms a u s)))))"
proof (induction ms arbitrary: a u s)
  case Nil
  show ?case by simp
next
  case (Cons p rest)
  obtain key m where p: "p = (key, m)" by (cases p)
  show ?case
  proof (cases "mRestricted event \<and> \<not> hasRestrictedMetricsDelegate (mm e) m")
    case True
    show ?thesis unfolding p loop_skip [OF True] using Cons.IH by (simp add: Let_def)
  next
    case False
    have a: "prefix (calls s) (calls s @ [ManagerOnLogEvent key])" by simp
    show ?thesis
      unfolding p loop_step [OF False] Let_def snd_conv
      by (rule prefix_order.trans [OF a],
          rule prefix_order.trans [OF prefix_calls_noted],
          rule prefix_order.trans [OF prefix_calls_flush],
          rule Cons.IH)
  qed
qed

lemma new_call_mono:
  assumes "prefix a b" and "prefix b c" and "x \<in> set (drop (length b) c)"
  shows "x \<in> set (drop (length a) c)"
proof -
  from assms(1) have "length a \<le> length b" by (rule prefix_length_le)
  then have "set (drop (length b) c) \<subseteq> set (drop (length a) c)"
    by (rule set_drop_subset_set_drop)
  with assms(3) show ?thesis by blast
qed

lemma new_call_first:
  assumes "prefix (a @ [x]) c"
  shows "x \<in> set (drop (length a) c)"
proof -
  from assms obtain r where "c = (a @ [x]) @ r" by (auto simp: prefix_def)
  then show ?thesis by simp
qed

lemma loop_dispatches:
  assumes "(k, m) \<in> set ms"
    and "\<not> (mRestricted event \<and> \<not> hasRestrictedMetricsDelegate (mm e) m)"
  shows "ManagerOnLogEvent k
           \<in> set (drop (length (calls s))
                   (calls (snd (snd (snd (passToMetricsManagers e event ms a u s))))))"
  using assms
proof (induction ms arbitrary: a u s)
  case Nil
  then show ?case by simp
next
  case (Cons p rest)
  obtain key m0 where p: "p = (key, m0)" by (cases p)
  show ?case
  proof (cases "mRestricted event \<and> \<not> hasRestrictedMetricsDelegate (mm e) m0")
    case True
    with Cons.prems p have "(k, m) \<in> set rest" by auto
    then show ?thesis
      unfolding p loop_skip [OF True] using Cons.IH [OF _ Cons.prems(2)] by (simp add: Let_def)
  next
    case False
    have p0: "prefix (calls s) (calls s @ [ManagerOnLogEvent key])" by simp
    show ?thesis
    proof (cases "k = key")
      case True
      show ?thesis
        unfolding p loop_step [OF False] Let_def snd_conv True
        by (rule new_call_first,
            rule prefix_order.trans [OF prefix_calls_noted],
            rule prefix_order.trans [OF prefix_calls_flush],
            rule loop_prefix)
    next
      case ne: False
      with Cons.prems p have r: "(k, m) \<in> set rest" by auto
      show ?thesis
        unfolding p loop_step [OF False] Let_def snd_conv
        by (rule new_call_mono [OF _ loop_prefix Cons.IH [OF r Cons.prems(2)]],
            rule prefix_order.trans [OF p0],
            rule prefix_order.trans [OF prefix_calls_noted],
            rule prefix_calls_flush)
    qed
  qed
qed

lemma activation_preserves:
  assumes st: "\<And>c s. V (stats c s) = V s"
    and log: "\<And>t uid configs sent s.
                V (logCall (SendActivationBroadcast t uid configs sent) s) = V s"
    and upd: "\<And>x s. V (s \<lparr> mLastActivationBroadcastTimes := x \<rparr>) = V s"
  shows "V (sendActivationBroadcasts e now a uids s) = V s"
proof (induction uids arbitrary: s)
  case Nil
  show ?case by simp
next
  case (Cons uid uids)
  show ?case
    by (simp add: Let_def Cons.IH st log upd)
qed

lemma activation_prefix:
  "prefix (calls s) (calls (sendActivationBroadcasts e now a uids s))"
proof (induction uids arbitrary: s)
  case Nil
  show ?case by simp
next
  case (Cons uid uids)
  define s2 where "s2 = (let sent = mSendActivationBroadcast (ext e) uid
                    (case map_of a uid of Some configs \<Rightarrow> configs | None \<Rightarrow> []);
               s1 = logCall (SendActivationBroadcast now uid
                      (case map_of a uid of Some configs \<Rightarrow> configs | None \<Rightarrow> []) sent) s
           in if sent then s1 \<lparr> mLastActivationBroadcastTimes :=
                              (mLastActivationBroadcastTimes s1)(uid \<mapsto> now) \<rparr> else s1)"
  have p: "prefix (calls s) (calls s2)" by (simp add: s2_def Let_def logCall_def)
  show ?case
    using prefix_order.trans [OF p Cons.IH [of s2]]
    by (simp add: Let_def s2_def stats_def logCall_def)
qed

section \<open>The dispatch\<close>

lemma new_call_later:
  assumes "prefix b c" and "x \<in> set (drop n b)"
  shows "x \<in> set (drop n c)"
proof -
  from assms(1) obtain r where "c = b @ r" by (auto simp: prefix_def)
  with assms(2) show ?thesis by simp
qed

lemma dispatch_preserves:
  assumes log: "\<And>k s. V (logCall (ManagerOnLogEvent k) s) = V s"
    and st: "\<And>c s. V (stats c s) = V s"
    and fl: "\<And>k m s. V (snd (flushIfNecessaryLocked e k m s)) = V s"
    and alog: "\<And>t uid configs sent s.
                V (logCall (SendActivationBroadcast t uid configs sent) s) = V s"
    and upd: "\<And>x s. V (s \<lparr> mLastActivationBroadcastTimes := x \<rparr>) = V s"
    and mgr: "\<And>x s. V (s \<lparr> mMetricsManagers := x \<rparr>) = V s"
  shows "V (OnLogEvent_dispatch e event now s) = V s"
proof -
  obtain ms a u s1 where r: "passToMetricsManagers e event (mMetricsManagers s) [] [] s
      = (ms, a, u, s1)"
    by (cases "passToMetricsManagers e event (mMetricsManagers s) [] [] s") auto
  have "V s1 = V s"
    using loop_preserves [where V = V and e = e, OF log st fl,
        of event "mMetricsManagers s" "[]" "[]" s]
    by (simp add: r)
  moreover have "V (sendActivationBroadcasts e now a u (s1 \<lparr> mMetricsManagers := ms \<rparr>))
      = V (s1 \<lparr> mMetricsManagers := ms \<rparr>)"
    by (rule activation_preserves [where V = V, OF st alog upd])
  ultimately show ?thesis
    by (simp add: OnLogEvent_dispatch_def r mgr)
qed

lemma dispatch_dispatches:
  assumes "(k, m) \<in> set (mMetricsManagers s)"
    and "\<not> (mRestricted event \<and> \<not> hasRestrictedMetricsDelegate (mm e) m)"
  shows "ManagerOnLogEvent k
           \<in> set (drop (length (calls s)) (calls (OnLogEvent_dispatch e event now s)))"
proof -
  obtain ms a u s1 where r: "passToMetricsManagers e event (mMetricsManagers s) [] [] s
      = (ms, a, u, s1)"
    by (cases "passToMetricsManagers e event (mMetricsManagers s) [] [] s") auto
  have "ManagerOnLogEvent k \<in> set (drop (length (calls s)) (calls s1))"
    using loop_dispatches [where a = "[]" and u = "[]" and s = s, OF assms] by (simp add: r)
  moreover have "prefix (calls s1)
      (calls (sendActivationBroadcasts e now a u (s1 \<lparr> mMetricsManagers := ms \<rparr>)))"
    using activation_prefix [of "s1 \<lparr> mMetricsManagers := ms \<rparr>" e now a u] by simp
  ultimately show ?thesis
    unfolding OnLogEvent_dispatch_def r by (simp add: new_call_later)
qed

lemma dispatch_trainInfo:
  "trainInfoDir (OnLogEvent_dispatch e event now s) = trainInfoDir s
   \<and> filter isTrainInfoCall (calls (OnLogEvent_dispatch e event now s))
       = filter isTrainInfoCall (calls s)"
proof -
  have "(\<lambda>s. (trainInfoDir s, filter isTrainInfoCall (calls s))) (OnLogEvent_dispatch e event now s)
      = (\<lambda>s. (trainInfoDir s, filter isTrainInfoCall (calls s))) s"
    by (rule dispatch_preserves)
       (simp_all add: logCall_def stats_def flushIfNecessaryLocked_def Let_def)
  then show ?thesis by simp
qed

lemma mapIsolated_fields [simp]:
  "mTagId (mapIsolatedUidToHostUidIfNecessaryLocked e s event) = mTagId event"
  "mLogUid (mapIsolatedUidToHostUidIfNecessaryLocked e s event) = mLogUid event"
  "mRestricted (mapIsolatedUidToHostUidIfNecessaryLocked e s event) = mRestricted event"
  by (simp_all add: mapIsolatedUidToHostUidIfNecessaryLocked_def split: option.splits prod.splits)

lemma validate_other_tag:
  "mTagId event \<noteq> APP_BREADCRUMB_REPORTED (util e) \<Longrightarrow> validateAppBreadcrumbEvent e s event"
  by (simp add: validateAppBreadcrumbEvent_def)

lemma unprivileged_handlers:
  assumes "\<not> checkPermissionForIds (ext e) kPermissionDump (mLogPid event) (mLogUid event)
           \<or> \<not> checkPermissionForIds (ext e) kPermissionUsage (mLogPid event) (mLogUid event)"
  shows "OnLogEvent_hardCodedHandlers e event s = (event, s)"
  by (simp add: OnLogEvent_hardCodedHandlers_def Let_def
        unprivileged_binary_push [OF assms] unprivileged_watchdog [OF assms])

lemma flush_manager:
  "fst (flushIfNecessaryLocked e k m s) = m
   \<or> fst (flushIfNecessaryLocked e k m s) = dropData (mm e) (getElapsedRealtimeNs (ext e)) m
   \<or> fst (flushIfNecessaryLocked e k m s) = flushRestrictedData (mm e) m"
  by (simp add: flushIfNecessaryLocked_def Let_def)

lemma loop_managers:
  "list_all2 (\<lambda>(k, m) (k', m'). k' = k \<and> passedTo e event m m')
     ms (fst (passToMetricsManagers e event ms a u s))"
proof (induction ms arbitrary: a u s)
  case Nil
  show ?case by simp
next
  case (Cons p rest)
  obtain key m where p: "p = (key, m)" by (cases p)
  show ?case
  proof (cases "mRestricted event \<and> \<not> hasRestrictedMetricsDelegate (mm e) m")
    case True
    show ?thesis
      unfolding p loop_skip [OF True] Let_def fst_conv
      using True Cons.IH by (simp add: passedTo_def)
  next
    case False
    have passed: "passedTo e event m
            (fst (flushIfNecessaryLocked e key (onLogEvent (mm e) event m)
               (if isActive (mm e) m \<noteq> isActive (mm e) (onLogEvent (mm e) event m)
                then stats (noteActiveStatusChanged key
                       (isActive (mm e) (onLogEvent (mm e) event m)))
                       (logCall (ManagerOnLogEvent key) s)
                else logCall (ManagerOnLogEvent key) s)))"
    proof -
      have c: "(mRestricted event \<and> \<not> hasRestrictedMetricsDelegate (mm e) m) = False"
        using False by simp
      show ?thesis unfolding passedTo_def c if_False Let_def by (rule flush_manager)
    qed
    show ?thesis
      unfolding p loop_step [OF False] Let_def fst_conv
      using passed Cons.IH by simp
  qed
qed

lemma dispatch_managers:
  "mMetricsManagers (OnLogEvent_dispatch e event now s)
     = fst (passToMetricsManagers e event (mMetricsManagers s) [] [] s)"
proof -
  obtain ms a u s1 where r: "passToMetricsManagers e event (mMetricsManagers s) [] [] s
      = (ms, a, u, s1)"
    by (cases "passToMetricsManagers e event (mMetricsManagers s) [] [] s") auto
  have "mMetricsManagers (sendActivationBroadcasts e now a u (s1 \<lparr> mMetricsManagers := ms \<rparr>))
      = mMetricsManagers (s1 \<lparr> mMetricsManagers := ms \<rparr>)"
    by (rule activation_preserves) (simp_all add: stats_def logCall_def)
  then show ?thesis by (simp add: OnLogEvent_dispatch_def r)
qed

lemma dispatch_passes:
  "list_all2 (\<lambda>(k, m) (k', m'). k' = k \<and> passedTo e event m m')
     (mMetricsManagers s) (mMetricsManagers (OnLogEvent_dispatch e event now s))"
  unfolding dispatch_managers by (rule loop_managers)

section \<open>Evaluation in the concrete environment\<close>

lemmas eval_defs = demo_defs demoLogEventOps_def demoEvent_def demoConfig_def demoKey_def
  newStatsLogProcessor_def logCall_def stats_def Let_def

lemmas config_defs = OnConfigUpdated_def OnConfigUpdatedLocked_def
  WriteDataToDiskLocked_key_def modularUpdateOnUpdate_def updateLogEventFilterLocked_def

lemmas event_defs = OnLogEvent_def OnLogEvent_before_dispatch_def OnLogEvent_hardCodedHandlers_def
  onBinaryPushStateChangedEventLocked_def onWatchdogRollbackOccurredLocked_def
  resetIfConfigTtlExpiredLocked_def OnLogEvent_uids_def
  mapIsolatedUidToHostUidIfNecessaryLocked_def OnLogEvent_anomalyAlarm_def
  OnLogEvent_periodic_def flushRestrictedDataIfNecessaryLocked_def
  enforceDataTtlsIfNecessaryLocked_def enforceDbGuardrailsIfNecessaryLocked_def
  validateAppBreadcrumbEvent_def OnLogEvent_dispatch_def flushIfNecessaryLocked_def
  NanoToSeconds_def NanoToMillis_def MillisToNano_def cdiv_def NS_PER_SEC_def
  kPermissionDump_def kPermissionUsage_def

lemma demoProcessor_eq: "demoProcessor =
  \<lparr> mMetricsManagers = [(demoKey, demoConfig)], mLastBroadcastTimes = Map.empty,
    mLastActivationBroadcastTimes = Map.empty, mLastByteSizeTimes = Map.empty,
    mDumpReportNumbers = Map.empty, mOnDiskDataConfigs = {},
    mLastTtlTime = 0, mLastFlushRestrictedTime = 0, mLastDbGuardrailEnforcementTime = 0,
    mLastPullerCacheClearTimeSec = 0, mLastWriteTimeNs = 0, mNextAnomalyAlarmTime = 0,
    mTimeBaseNs = 0, isolatedUids = Map.empty, trainInfoDir = Map.empty,
    calls = [ForceClearPullerCache, UpdateLogEventFilter, UidMapOnConfigUpdated demoKey,
             UpdateLogEventFilter] \<rparr>"
  by (simp add: demoProcessor_def config_defs eval_defs)

section \<open>Train events of callers without the permissions\<close>

text \<open>
  Claim C2, as the code has it. For an event with tag \<open>BINARY_PUSH_STATE_CHANGED\<close> or
  \<open>WATCHDOG_ROLLBACK_OCCURRED\<close> (tags that differ from \<open>ISOLATED_UID_CHANGED\<close> and
  \<open>APP_BREADCRUMB_REPORTED\<close>) whose caller lacks the DUMP or the PACKAGE_USAGE_STATS
  permission, \<open>OnLogEvent\<close> reads and writes no train info: the train info on disk is
  unchanged and the log gains no read or write of it. The handlers return early (lines
  187-189, 314-316), but \<open>OnLogEvent\<close> goes on: where it reaches the loop of lines 471-498,
  the event, with its uids normalised and nothing else changed, is passed to every manager
  of the map that the loop does not skip (a restricted event skips the managers without a
  delegate): each manager of the result is the manager before after its \<open>onLogEvent\<close> on
  that event and the byte-size check that follows (\<open>passedTo\<close>), and the log has the
  call. It returns before only for an invalid event or an empty map.
\<close>

theorem unauthorised_train_event_unpatched_but_dispatched:
  assumes tag: "mTagId event = BINARY_PUSH_STATE_CHANGED (util e)
                \<or> mTagId event = WATCHDOG_ROLLBACK_OCCURRED (util e)"
    and iso: "mTagId event \<noteq> ISOLATED_UID_CHANGED (util e)"
    and crumb: "mTagId event \<noteq> APP_BREADCRUMB_REPORTED (util e)"
    and perm: "\<not> checkPermissionForIds (ext e) kPermissionDump (mLogPid event) (mLogUid event)
           \<or> \<not> checkPermissionForIds (ext e) kPermissionUsage (mLogPid event) (mLogUid event)"
  shows "trainInfoDir (OnLogEvent e event now s) = trainInfoDir s
    \<and> filter isTrainInfoCall (calls (OnLogEvent e event now s)) = filter isTrainInfoCall (calls s)
    \<and> (case OnLogEvent_before_dispatch e event now s of
         Inr s' \<Rightarrow> \<not> mValid event \<or> mMetricsManagers s' = []
       | Inl (event', s') \<Rightarrow>
           event' = mapIsolatedUidToHostUidIfNecessaryLocked e s event
           \<and> list_all2 (\<lambda>(k, m) (k', m'). k' = k \<and> passedTo e event' m m')
                 (mMetricsManagers s') (mMetricsManagers (OnLogEvent e event now s))
           \<and> (\<forall>(k, m) \<in> set (mMetricsManagers s').
                 \<not> (mRestricted event \<and> \<not> hasRestrictedMetricsDelegate (mm e) m)
                 \<longrightarrow> ManagerOnLogEvent k
                       \<in> set (drop (length (calls s')) (calls (OnLogEvent e event now s)))))"
proof -
  note plain = before_dispatch_plain [where now = now and s = s, OF iso unprivileged_handlers [OF perm]]
  have ok: "validateAppBreadcrumbEvent e s (mapIsolatedUidToHostUidIfNecessaryLocked e s event)"
    using crumb by (intro validate_other_tag) simp
  show ?thesis
  proof (cases "OnLogEvent_before_dispatch e event now s")
    case (Inr s')
    with plain ok have o: "observed s' = observed s"
      and d: "\<not> mValid event \<or> mMetricsManagers s' = []" by simp_all
    have r: "OnLogEvent e event now s = s'" by (simp add: OnLogEvent_def Inr)
    show ?thesis
      unfolding r using observed_trainInfoCalls [OF o] d by (simp add: Inr)
  next
    case (Inl p)
    obtain event' s' where p: "p = (event', s')" by (cases p)
    from plain have o: "observed s' = observed s"
      and ev: "event' = mapIsolatedUidToHostUidIfNecessaryLocked e s event"
      by (simp_all add: Inl p)
    have r: "OnLogEvent e event now s = OnLogEvent_dispatch e event' now s'"
      by (simp add: OnLogEvent_def Inl p)
    have t: "trainInfoDir (OnLogEvent e event now s) = trainInfoDir s
      \<and> filter isTrainInfoCall (calls (OnLogEvent e event now s))
          = filter isTrainInfoCall (calls s)"
      unfolding r using dispatch_trainInfo [of e event' now s'] observed_trainInfoCalls [OF o]
      by simp
    have d: "\<forall>(k, m) \<in> set (mMetricsManagers s').
                 \<not> (mRestricted event \<and> \<not> hasRestrictedMetricsDelegate (mm e) m)
                 \<longrightarrow> ManagerOnLogEvent k
                       \<in> set (drop (length (calls s')) (calls (OnLogEvent e event now s)))"
    proof (clarify)
      fix k m
      assume km: "(k, m) \<in> set (mMetricsManagers s')"
        and el: "\<not> (mRestricted event \<and> \<not> hasRestrictedMetricsDelegate (mm e) m)"
      from el have "\<not> (mRestricted event' \<and> \<not> hasRestrictedMetricsDelegate (mm e) m)"
        by (simp add: ev)
      from dispatch_dispatches [where now = now, OF km this]
      show "ManagerOnLogEvent k
              \<in> set (drop (length (calls s')) (calls (OnLogEvent e event now s)))"
        unfolding r .
    qed
    have m: "list_all2 (\<lambda>(k, m) (k', m'). k' = k \<and> passedTo e event' m m')
                 (mMetricsManagers s') (mMetricsManagers (OnLogEvent e event now s))"
      unfolding r by (rule dispatch_passes)
    from t d m ev show ?thesis by (simp add: Inl p)
  qed
qed

text \<open>
  The theorem on a processor with one configuration and an event with tag
  \<open>BINARY_PUSH_STATE_CHANGED\<close> (102) from uid 10001, which has no permission.
\<close>

theorem unauthorised_train_event_unpatched_but_dispatched_witness:
  "mTagId (demoEvent 102 10001 []) = BINARY_PUSH_STATE_CHANGED (util (demoEnv 5))
   \<and> \<not> checkPermissionForIds (ext (demoEnv 5)) kPermissionDump
          (mLogPid (demoEvent 102 10001 [])) (mLogUid (demoEvent 102 10001 []))
   \<and> trainInfoDir (OnLogEvent (demoEnv 5) (demoEvent 102 10001 []) 5 demoProcessor)
       = trainInfoDir demoProcessor
   \<and> filter isTrainInfoCall (calls (OnLogEvent (demoEnv 5) (demoEvent 102 10001 []) 5 demoProcessor))
       = filter isTrainInfoCall (calls demoProcessor)
   \<and> OnLogEvent_before_dispatch (demoEnv 5) (demoEvent 102 10001 []) 5 demoProcessor
       = Inl (demoEvent 102 10001 [],
              demoProcessor \<lparr> calls := calls demoProcessor
                 @ [StatsdStats (noteAtomLogged 102 0 False), StateManagerOnLogEvent] \<rparr>)
   \<and> list_all2 (\<lambda>(k, m) (k', m'). k' = k \<and> passedTo (demoEnv 5) (demoEvent 102 10001 []) m m')
         [(demoKey, demoConfig)]
         (mMetricsManagers (OnLogEvent (demoEnv 5) (demoEvent 102 10001 []) 5 demoProcessor))
   \<and> ManagerOnLogEvent demoKey
       \<in> set (drop (length (calls demoProcessor) + 2)
                (calls (OnLogEvent (demoEnv 5) (demoEvent 102 10001 []) 5 demoProcessor)))"
proof -
  have tag: "mTagId (demoEvent 102 10001 []) = BINARY_PUSH_STATE_CHANGED (util (demoEnv 5))"
    by (simp add: demoEvent_def demo_defs)
  have iso: "mTagId (demoEvent 102 10001 []) \<noteq> ISOLATED_UID_CHANGED (util (demoEnv 5))"
    by (simp add: demoEvent_def demo_defs)
  have crumb: "mTagId (demoEvent 102 10001 []) \<noteq> APP_BREADCRUMB_REPORTED (util (demoEnv 5))"
    by (simp add: demoEvent_def demo_defs)
  have perm: "\<not> checkPermissionForIds (ext (demoEnv 5)) kPermissionDump
          (mLogPid (demoEvent 102 10001 [])) (mLogUid (demoEvent 102 10001 []))"
    by (simp add: demoEvent_def demo_defs)
  have plain: "\<not> (mRestricted (demoEvent 102 10001 [])
                  \<and> \<not> hasRestrictedMetricsDelegate (mm (demoEnv 5)) demoConfig)"
    by (simp add: demoEvent_def)
  have pre: "OnLogEvent_before_dispatch (demoEnv 5) (demoEvent 102 10001 []) 5 demoProcessor
       = Inl (demoEvent 102 10001 [],
              demoProcessor \<lparr> calls := calls demoProcessor
                 @ [StatsdStats (noteAtomLogged 102 0 False), StateManagerOnLogEvent] \<rparr>)"
    unfolding demoProcessor_eq by (simp add: event_defs eval_defs)
  have km: "(demoKey, demoConfig)
      \<in> set (mMetricsManagers (demoProcessor \<lparr> calls := calls demoProcessor
                 @ [StatsdStats (noteAtomLogged 102 0 False), StateManagerOnLogEvent] \<rparr>))"
    by (simp add: demoProcessor_eq)
  note inst = unauthorised_train_event_unpatched_but_dispatched
    [where e = "demoEnv 5" and event = "demoEvent 102 10001 []" and now = 5
       and s = demoProcessor, OF disjI1 [OF tag] iso crumb disjI1 [OF perm]]
  from inst have all: "\<forall>(k, m) \<in> set (mMetricsManagers (demoProcessor \<lparr> calls := calls demoProcessor
                 @ [StatsdStats (noteAtomLogged 102 0 False), StateManagerOnLogEvent] \<rparr>)).
                 \<not> (mRestricted (demoEvent 102 10001 [])
                      \<and> \<not> hasRestrictedMetricsDelegate (mm (demoEnv 5)) m)
                 \<longrightarrow> ManagerOnLogEvent k
                       \<in> set (drop (length (calls demoProcessor) + 2)
                            (calls (OnLogEvent (demoEnv 5) (demoEvent 102 10001 []) 5
                                      demoProcessor)))"
    unfolding pre by simp
  from inst have passed: "list_all2
         (\<lambda>(k, m) (k', m'). k' = k \<and> passedTo (demoEnv 5) (demoEvent 102 10001 []) m m')
         [(demoKey, demoConfig)]
         (mMetricsManagers (OnLogEvent (demoEnv 5) (demoEvent 102 10001 []) 5 demoProcessor))"
    unfolding pre by (simp add: demoProcessor_eq)
  from all km plain
  have d: "ManagerOnLogEvent demoKey
             \<in> set (drop (length (calls demoProcessor) + 2)
                      (calls (OnLogEvent (demoEnv 5) (demoEvent 102 10001 []) 5 demoProcessor)))"
    by blast
  from inst have t: "trainInfoDir (OnLogEvent (demoEnv 5) (demoEvent 102 10001 []) 5 demoProcessor)
       = trainInfoDir demoProcessor"
    and f: "filter isTrainInfoCall
         (calls (OnLogEvent (demoEnv 5) (demoEvent 102 10001 []) 5 demoProcessor))
       = filter isTrainInfoCall (calls demoProcessor)"
    by blast+
  from tag perm t f pre passed d show ?thesis by blast
qed

text \<open>
  The event is not dropped: the manager of the configuration processes it (its
  \<open>onLogEvent\<close> is called and its data grows), and the broadcasts that follow are sent.
\<close>

theorem unauthorised_binary_push_reaches_the_manager:
  "mTagId (demoEvent 102 10001 []) = BINARY_PUSH_STATE_CHANGED (util (demoEnv 5))
   \<and> \<not> checkPermissionForIds (ext (demoEnv 5)) kPermissionDump
          (mLogPid (demoEvent 102 10001 [])) (mLogUid (demoEvent 102 10001 []))
   \<and> mMetricsManagers demoProcessor = [(demoKey, demoConfig)]
   \<and> calls (OnLogEvent (demoEnv 5) (demoEvent 102 10001 []) 5 demoProcessor)
       = calls demoProcessor
         @ [StatsdStats (noteAtomLogged 102 0 False), StateManagerOnLogEvent,
            ManagerOnLogEvent demoKey, StatsdStats (noteActiveStatusChanged demoKey True),
            SendBroadcast 5 demoKey True, StatsdStats (noteBroadcastSent demoKey),
            SendActivationBroadcast 5 10001 [7] True]
   \<and> mMetricsManagers (OnLogEvent (demoEnv 5) (demoEvent 102 10001 []) 5 demoProcessor)
       = [(demoKey, onLogEvent (mm (demoEnv 5)) (demoEvent 102 10001 []) demoConfig)]"
  unfolding demoProcessor_eq by (simp add: event_defs eval_defs)

section \<open>The validation of app breadcrumbs\<close>








section \<open>The byte-size check in the loop over the managers\<close>

lemma flush_checked:
  assumes due: "case mLastByteSizeTimes s k of
                  None \<Rightarrow> True
                | Some t \<Rightarrow> kMinByteSizeCheckPeriodNs (util e) \<le> getElapsedRealtimeNs (ext e) - t"
    and dropped: "\<And>t m. byteSize (mm e) (dropData (mm e) t m)
                    \<le> getMaxMetricsBytes (mm e) (dropData (mm e) t m)"
    and flushed: "\<And>m. byteSize (mm e) m \<le> getMaxMetricsBytes (mm e) m
                    \<Longrightarrow> byteSize (mm e) (flushRestrictedData (mm e) m)
                          \<le> getMaxMetricsBytes (mm e) (flushRestrictedData (mm e) m)"
  shows "byteSize (mm e) (fst (flushIfNecessaryLocked e k m s))
           \<le> getMaxMetricsBytes (mm e) (fst (flushIfNecessaryLocked e k m s))"
proof -
  have nr: "(case mLastByteSizeTimes s k of
               Some lastCheckTime \<Rightarrow>
                 getElapsedRealtimeNs (ext e) - lastCheckTime < kMinByteSizeCheckPeriodNs (util e)
             | None \<Rightarrow> False) = False"
    using due by (simp split: option.splits)
  show ?thesis
  proof (cases "byteSize (mm e) m > getMaxMetricsBytes (mm e) m")
    case True
    then show ?thesis
      by (simp add: flushIfNecessaryLocked_def Let_def nr dropped)
  next
    case False
    then have le: "byteSize (mm e) m \<le> getMaxMetricsBytes (mm e) m" by simp
    show ?thesis
      using le flushed [OF le]
      by (simp add: flushIfNecessaryLocked_def Let_def nr)
  qed
qed

lemma flush_other_key:
  "k \<noteq> key \<Longrightarrow>
     mLastByteSizeTimes (snd (flushIfNecessaryLocked e key m s)) k = mLastByteSizeTimes s k"
  by (simp add: flushIfNecessaryLocked_def Let_def stats_def logCall_def)

lemma byteSizeTimes_noted:
  "mLastByteSizeTimes (if b then stats c (logCall (ManagerOnLogEvent key) s)
                       else logCall (ManagerOnLogEvent key) s) = mLastByteSizeTimes s"
  by (simp add: stats_def logCall_def)

lemma loop_checked:
  assumes "distinct (map fst ms)"
    and "(k, m) \<in> set ms"
    and "\<not> (mRestricted event \<and> \<not> hasRestrictedMetricsDelegate (mm e) m)"
    and "case mLastByteSizeTimes s k of
           None \<Rightarrow> True
         | Some t \<Rightarrow> kMinByteSizeCheckPeriodNs (util e) \<le> getElapsedRealtimeNs (ext e) - t"
    and dropped: "\<And>t m. byteSize (mm e) (dropData (mm e) t m)
                    \<le> getMaxMetricsBytes (mm e) (dropData (mm e) t m)"
    and flushed: "\<And>m. byteSize (mm e) m \<le> getMaxMetricsBytes (mm e) m
                    \<Longrightarrow> byteSize (mm e) (flushRestrictedData (mm e) m)
                          \<le> getMaxMetricsBytes (mm e) (flushRestrictedData (mm e) m)"
  shows "\<exists>m'. map_of (fst (passToMetricsManagers e event ms a u s)) k = Some m'
              \<and> byteSize (mm e) m' \<le> getMaxMetricsBytes (mm e) m'"
  using assms(1-4)
proof (induction ms arbitrary: a u s)
  case Nil
  then show ?case by simp
next
  case (Cons p rest)
  obtain key m0 where p: "p = (key, m0)" by (cases p)
  from Cons.prems(1) have dist: "distinct (map fst rest)" and fresh: "key \<notin> fst ` set rest"
    by (simp_all add: p)
  show ?case
  proof (cases "k = key")
    case True
    with Cons.prems(2) fresh have m0: "m0 = m" by (auto simp: p image_iff)
    have el: "\<not> (mRestricted event \<and> \<not> hasRestrictedMetricsDelegate (mm e) m0)"
      using Cons.prems(3) by (simp add: m0)
    have due: "case mLastByteSizeTimes
                      (if isActive (mm e) m0 \<noteq> isActive (mm e) (onLogEvent (mm e) event m0)
                       then stats (noteActiveStatusChanged key
                              (isActive (mm e) (onLogEvent (mm e) event m0)))
                              (logCall (ManagerOnLogEvent key) s)
                       else logCall (ManagerOnLogEvent key) s) key of
           None \<Rightarrow> True
         | Some t \<Rightarrow> kMinByteSizeCheckPeriodNs (util e) \<le> getElapsedRealtimeNs (ext e) - t"
      unfolding byteSizeTimes_noted using Cons.prems(4) by (simp add: True)
    show ?thesis
      unfolding p loop_step [OF el] Let_def fst_conv True
      using flush_checked [OF due dropped flushed] by simp
  next
    case False
    with Cons.prems(2) have km: "(k, m) \<in> set rest" by (auto simp: p)
    show ?thesis
    proof (cases "mRestricted event \<and> \<not> hasRestrictedMetricsDelegate (mm e) m0")
      case True
      show ?thesis
        unfolding p loop_skip [OF True] Let_def fst_conv
        using Cons.IH [OF dist km Cons.prems(3) Cons.prems(4)] False by simp
    next
      case el: False
      have due: "case mLastByteSizeTimes
             (snd (flushIfNecessaryLocked e key (onLogEvent (mm e) event m0)
                (if isActive (mm e) m0 \<noteq> isActive (mm e) (onLogEvent (mm e) event m0)
                 then stats (noteActiveStatusChanged key
                        (isActive (mm e) (onLogEvent (mm e) event m0)))
                        (logCall (ManagerOnLogEvent key) s)
                 else logCall (ManagerOnLogEvent key) s))) k of
           None \<Rightarrow> True
         | Some t \<Rightarrow> kMinByteSizeCheckPeriodNs (util e) \<le> getElapsedRealtimeNs (ext e) - t"
        unfolding flush_other_key [OF False] byteSizeTimes_noted using Cons.prems(4) .
      show ?thesis
        unfolding p loop_step [OF el] Let_def fst_conv
        using Cons.IH [OF dist km Cons.prems(3) due] False by simp
    qed
  qed
qed

lemma afterFirstEvent_eq: "afterFirstEvent =
  \<lparr> mMetricsManagers = [(demoKey, demoConfig \<lparr> dmActive := True, dmBytes := 600 \<rparr>)],
    mLastBroadcastTimes = [demoKey \<mapsto> 1000000000],
    mLastActivationBroadcastTimes = [10001 \<mapsto> 1000000000],
    mLastByteSizeTimes = [demoKey \<mapsto> 1000000000],
    mDumpReportNumbers = Map.empty, mOnDiskDataConfigs = {},
    mLastTtlTime = 0, mLastFlushRestrictedTime = 0, mLastDbGuardrailEnforcementTime = 0,
    mLastPullerCacheClearTimeSec = 0, mLastWriteTimeNs = 0, mNextAnomalyAlarmTime = 0,
    mTimeBaseNs = 0, isolatedUids = Map.empty, trainInfoDir = Map.empty,
    calls = [ForceClearPullerCache, UpdateLogEventFilter, UidMapOnConfigUpdated demoKey,
             UpdateLogEventFilter,
             StatsdStats (noteAtomLogged 10 0 False), StateManagerOnLogEvent,
             ManagerOnLogEvent demoKey, StatsdStats (noteActiveStatusChanged demoKey True),
             SendBroadcast 1000000000 demoKey True, StatsdStats (noteBroadcastSent demoKey),
             SendActivationBroadcast 1000000000 10001 [7] True] \<rparr>"
  unfolding afterFirstEvent_def demoProcessor_eq
  by (simp add: event_defs demoAtom_def eval_defs)

lemma afterSecondEvent_eq: "afterSecondEvent =
  \<lparr> mMetricsManagers = [(demoKey, demoConfig \<lparr> dmActive := False, dmBytes := 1200 \<rparr>)],
    mLastBroadcastTimes = [demoKey \<mapsto> 1000000000],
    mLastActivationBroadcastTimes = [10001 \<mapsto> 1000000000],
    mLastByteSizeTimes = [demoKey \<mapsto> 1000000000],
    mDumpReportNumbers = Map.empty, mOnDiskDataConfigs = {},
    mLastTtlTime = 0, mLastFlushRestrictedTime = 0, mLastDbGuardrailEnforcementTime = 0,
    mLastPullerCacheClearTimeSec = 2, mLastWriteTimeNs = 0, mNextAnomalyAlarmTime = 0,
    mTimeBaseNs = 0, isolatedUids = Map.empty, trainInfoDir = Map.empty,
    calls = [ForceClearPullerCache, UpdateLogEventFilter, UidMapOnConfigUpdated demoKey,
             UpdateLogEventFilter,
             StatsdStats (noteAtomLogged 10 0 False), StateManagerOnLogEvent,
             ManagerOnLogEvent demoKey, StatsdStats (noteActiveStatusChanged demoKey True),
             SendBroadcast 1000000000 demoKey True, StatsdStats (noteBroadcastSent demoKey),
             SendActivationBroadcast 1000000000 10001 [7] True,
             StatsdStats (noteAtomLogged 10 0 False), StateManagerOnLogEvent,
             ClearPullerCacheIfNecessary 2000000000,
             ManagerOnLogEvent demoKey, StatsdStats (noteActiveStatusChanged demoKey False),
             StatsdStats (noteActivationBroadcastGuardrailHit 10001)] \<rparr>"
  unfolding afterSecondEvent_def afterFirstEvent_eq
  by (simp add: event_defs demoAtom_def eval_defs)

text \<open>
  Claim C1, as the code has it. The byte-size check is rate-limited per key (lines
  1106-1111). Take a call of \<open>OnLogEvent\<close> that reaches the loop over the managers, with
  processor \<open>s'\<close> there (the keys of a map are distinct), and a manager of the map that
  the loop does not skip and whose check is due: none was recorded for its key, or the
  last one is at least \<open>kMinByteSizeCheckPeriodNs\<close> old. When \<open>OnLogEvent\<close> returns, that
  manager's \<open>byteSize\<close> is at most its \<open>getMaxMetricsBytes\<close>, provided \<open>dropData\<close> leaves
  a manager within its limit and \<open>flushRestrictedData\<close> does not take one beyond it.
\<close>

theorem checked_manager_within_limit:
  assumes "OnLogEvent_before_dispatch e event now s = Inl (event', s')"
    and "distinct (map fst (mMetricsManagers s'))"
    and "(k, m) \<in> set (mMetricsManagers s')"
    and "\<not> (mRestricted event' \<and> \<not> hasRestrictedMetricsDelegate (mm e) m)"
    and "case mLastByteSizeTimes s' k of
           None \<Rightarrow> True
         | Some t \<Rightarrow> kMinByteSizeCheckPeriodNs (util e) \<le> getElapsedRealtimeNs (ext e) - t"
    and "\<And>t m. byteSize (mm e) (dropData (mm e) t m)
                    \<le> getMaxMetricsBytes (mm e) (dropData (mm e) t m)"
    and "\<And>m. byteSize (mm e) m \<le> getMaxMetricsBytes (mm e) m
                    \<Longrightarrow> byteSize (mm e) (flushRestrictedData (mm e) m)
                          \<le> getMaxMetricsBytes (mm e) (flushRestrictedData (mm e) m)"
  shows "\<exists>m'. map_of (mMetricsManagers (OnLogEvent e event now s)) k = Some m'
              \<and> byteSize (mm e) m' \<le> getMaxMetricsBytes (mm e) m'"
proof -
  have r: "OnLogEvent e event now s = OnLogEvent_dispatch e event' now s'"
    by (simp add: OnLogEvent_def assms(1))
  show ?thesis
    unfolding r dispatch_managers
    by (rule loop_checked [OF assms(2-7)])
qed

text \<open>
  The theorem on the first event of a processor with one configuration: the check is due,
  and the manager, at 600 bytes, is within its limit of 1000.
\<close>

theorem checked_manager_within_limit_witness:
  "OnLogEvent_before_dispatch (demoEnv 1000000000) demoAtom 1000000000 demoProcessor
     = Inl (demoAtom, demoProcessor \<lparr> calls := calls demoProcessor
              @ [StatsdStats (noteAtomLogged 10 0 False), StateManagerOnLogEvent] \<rparr>)
   \<and> mMetricsManagers demoProcessor = [(demoKey, demoConfig)]
   \<and> mLastByteSizeTimes demoProcessor demoKey = None
   \<and> (\<exists>m'. map_of (mMetricsManagers afterFirstEvent) demoKey = Some m'
            \<and> byteSize (mm (demoEnv 1000000000)) m'
                \<le> getMaxMetricsBytes (mm (demoEnv 1000000000)) m')"
proof -
  have pre: "OnLogEvent_before_dispatch (demoEnv 1000000000) demoAtom 1000000000 demoProcessor
     = Inl (demoAtom, demoProcessor \<lparr> calls := calls demoProcessor
              @ [StatsdStats (noteAtomLogged 10 0 False), StateManagerOnLogEvent] \<rparr>)"
    unfolding demoProcessor_eq by (simp add: event_defs demoAtom_def eval_defs)
  have ms: "mMetricsManagers demoProcessor = [(demoKey, demoConfig)]"
    by (simp add: demoProcessor_eq)
  have keys: "distinct (map fst (mMetricsManagers (demoProcessor \<lparr> calls := calls demoProcessor
              @ [StatsdStats (noteAtomLogged 10 0 False), StateManagerOnLogEvent] \<rparr>)))"
    by (simp add: ms)
  have km: "(demoKey, demoConfig)
      \<in> set (mMetricsManagers (demoProcessor \<lparr> calls := calls demoProcessor
              @ [StatsdStats (noteAtomLogged 10 0 False), StateManagerOnLogEvent] \<rparr>))"
    by (simp add: ms)
  have el: "\<not> (mRestricted demoAtom
              \<and> \<not> hasRestrictedMetricsDelegate (mm (demoEnv 1000000000)) demoConfig)"
    by (simp add: demoAtom_def demoEvent_def)
  have never: "mLastByteSizeTimes demoProcessor demoKey = None"
    by (simp add: demoProcessor_eq)
  have due: "case mLastByteSizeTimes (demoProcessor \<lparr> calls := calls demoProcessor
              @ [StatsdStats (noteAtomLogged 10 0 False), StateManagerOnLogEvent] \<rparr>) demoKey of
           None \<Rightarrow> True
         | Some t \<Rightarrow> kMinByteSizeCheckPeriodNs (util (demoEnv 1000000000))
                      \<le> getElapsedRealtimeNs (ext (demoEnv 1000000000)) - t"
    by (simp add: never)
  have dropped: "byteSize (mm (demoEnv 1000000000)) (dropData (mm (demoEnv 1000000000)) t m)
       \<le> getMaxMetricsBytes (mm (demoEnv 1000000000)) (dropData (mm (demoEnv 1000000000)) t m)"
    for t m
    by (simp add: demo_defs)
  have flushed: "byteSize (mm (demoEnv 1000000000)) (flushRestrictedData (mm (demoEnv 1000000000)) m)
       \<le> getMaxMetricsBytes (mm (demoEnv 1000000000))
            (flushRestrictedData (mm (demoEnv 1000000000)) m)"
    for m
    by (simp add: demo_defs)
  from checked_manager_within_limit [OF pre keys km el due dropped flushed]
  have "\<exists>m'. map_of (mMetricsManagers afterFirstEvent) demoKey = Some m'
            \<and> byteSize (mm (demoEnv 1000000000)) m'
                \<le> getMaxMetricsBytes (mm (demoEnv 1000000000)) m'"
    by (simp add: afterFirstEvent_def)
  with pre ms never show ?thesis by blast
qed

text \<open>
  The claim fails when the check is rate-limited. The first event, at 1 s, takes the
  manager to 600 bytes and records the check; the second, at 2 s, takes it to 1200 bytes,
  beyond its limit of 1000, and the check, less than \<open>kMinByteSizeCheckPeriodNs\<close> (60 s)
  after the first, does not run: \<open>OnLogEvent\<close> returns with the manager over its limit
  and no data dropped.
\<close>

theorem rate_limited_check_leaves_manager_over_limit:
  "map (\<lambda>(k, m). (k, byteSize (mm (demoEnv 2000000000)) m,
                   getMaxMetricsBytes (mm (demoEnv 2000000000)) m))
     (mMetricsManagers
        (OnLogEvent (demoEnv 2000000000) demoAtom 2000000000
           (OnLogEvent (demoEnv 1000000000) demoAtom 1000000000 demoProcessor)))
     = [(demoKey, 1200, 1000)]
   \<and> filter (\<lambda>c. case c of ManagerDropData k t \<Rightarrow> True | _ \<Rightarrow> False)
        (calls (OnLogEvent (demoEnv 2000000000) demoAtom 2000000000
                  (OnLogEvent (demoEnv 1000000000) demoAtom 1000000000 demoProcessor))) = []"
  using afterSecondEvent_eq unfolding afterSecondEvent_def afterFirstEvent_def
  by (simp add: demo_defs demoConfig_def)

section \<open>The hard-coded handlers and the status markers\<close>






section \<open>The rate limits of the broadcasts\<close>

lemma activationBroadcastTimes_simps [simp]:
  "activationBroadcastTimes uid [] = []"
  "activationBroadcastTimes uid (c # cs)
     = activationBroadcastTime uid c @ activationBroadcastTimes uid cs"
  "activationBroadcastTimes uid (cs @ ds)
     = activationBroadcastTimes uid cs @ activationBroadcastTimes uid ds"
  by (simp_all add: activationBroadcastTimes_def)

lemma broadcastTimes_simps [simp]:
  "broadcastTimes key [] = []"
  "broadcastTimes key (c # cs) = broadcastTime key c @ broadcastTimes key cs"
  "broadcastTimes key (cs @ ds) = broadcastTimes key cs @ broadcastTimes key ds"
  by (simp_all add: broadcastTimes_def)

lemma housekeeping_no_broadcast:
  "housekeepingCall c \<Longrightarrow> activationBroadcastTime uid c = [] \<and> broadcastTime key c = []"
  by (cases c) simp_all

lemma broadcastTimes_filter:
  "activationBroadcastTimes uid (filter (\<lambda>c. \<not> housekeepingCall c) cs)
     = activationBroadcastTimes uid cs
   \<and> broadcastTimes key (filter (\<lambda>c. \<not> housekeepingCall c) cs) = broadcastTimes key cs"
proof (induction cs)
  case Nil
  show ?case by simp
next
  case (Cons c cs)
  show ?case
    using Cons housekeeping_no_broadcast [of c uid key]
    by simp
qed

lemma rateView_observed:
  assumes "observed s' = observed s"
  shows "rateView uid key s' = rateView uid key s"
proof -
  from assms have f: "filter (\<lambda>c. \<not> housekeepingCall c) (calls s')
      = filter (\<lambda>c. \<not> housekeepingCall c) (calls s)"
    and a: "mLastActivationBroadcastTimes s' = mLastActivationBroadcastTimes s"
    and b: "mLastBroadcastTimes s' = mLastBroadcastTimes s"
    by (simp_all add: observed_def)
  have "activationBroadcastTimes uid (calls s') = activationBroadcastTimes uid (calls s)"
    using broadcastTimes_filter [of uid "calls s'" key] broadcastTimes_filter [of uid "calls s" key]
    by (simp add: f)
  moreover have "broadcastTimes key (calls s') = broadcastTimes key (calls s)"
    using broadcastTimes_filter [of uid "calls s'" key] broadcastTimes_filter [of uid "calls s" key]
    by (simp add: f)
  ultimately show ?thesis by (simp add: rateView_def a b)
qed

lemma rateView_logCall:
  "activationBroadcastTime uid c = [] \<Longrightarrow> broadcastTime key c = []
     \<Longrightarrow> rateView uid key (logCall c s) = rateView uid key s"
  by (simp add: rateView_def logCall_def)

lemma rateView_stats [simp]: "rateView uid key (stats c s) = rateView uid key s"
  by (simp add: rateView_def stats_def logCall_def)

lemma rateView_writeTrainInfo [simp]:
  "rateView uid key (writeTrainInfo info s) = rateView uid key s"
  by (simp add: rateView_def writeTrainInfo_def logCall_def)

lemma rateView_readTrainInfo [simp]:
  "rateView uid key (snd (readTrainInfo name s)) = rateView uid key s"
  by (simp add: rateView_def readTrainInfo_def logCall_def)

lemma rateView_getAndUpdateTrainInfoOnDisk [simp]:
  "rateView uid key (snd (getAndUpdateTrainInfoOnDisk e rb ti s)) = rateView uid key s"
proof (cases "trainName ti = []")
  case True
  then show ?thesis by (simp add: getAndUpdateTrainInfoOnDisk_def)
next
  case False
  have "snd (getAndUpdateTrainInfoOnDisk e rb ti s)
        = writeTrainInfo (fst (getAndUpdateTrainInfoOnDisk e rb ti s))
            (snd (readTrainInfo (trainName ti) s))"
    using False
    by (simp add: getAndUpdateTrainInfoOnDisk_def Let_def split_beta)
  then show ?thesis by simp
qed

lemma rateView_processWatchdogRollbackOccurred [simp]:
  "rateView uid key (snd (processWatchdogRollbackOccurred e t pkg s)) = rateView uid key s"
proof -
  have r: "rateView uid key (logCall (ReadTrainInfo pkg) s) = rateView uid key s"
    by (simp add: rateView_logCall)
  show ?thesis
    by (simp add: processWatchdogRollbackOccurred_def readTrainInfo_def Let_def r
        split: option.splits list.splits)
qed

lemma rateView_onBinaryPushStateChangedEventLocked [simp]:
  "rateView uid key (snd (onBinaryPushStateChangedEventLocked e event s)) = rateView uid key s"
  by (simp add: onBinaryPushStateChangedEventLocked_def Let_def split_beta
      split: option.splits)

lemma rateView_onWatchdogRollbackOccurredLocked [simp]:
  "rateView uid key (snd (onWatchdogRollbackOccurredLocked e event s)) = rateView uid key s"
  by (simp add: onWatchdogRollbackOccurredLocked_def Let_def split_beta
      split: option.splits)

lemma rateView_hardCodedHandlers [simp]:
  "rateView uid key (snd (OnLogEvent_hardCodedHandlers e event s)) = rateView uid key s"
  by (simp add: OnLogEvent_hardCodedHandlers_def Let_def)

lemma rateView_uids [simp]:
  "rateView uid key (snd (OnLogEvent_uids e atomId event s)) = rateView uid key s"
  by (simp add: OnLogEvent_uids_def onIsolatedUidChangedEventLocked_def Let_def
      assignIsolatedUid_def removeIsolatedUid_def rateView_def
      split: option.splits)

lemma before_dispatch_rateView:
  "rateView uid key (case OnLogEvent_before_dispatch e event now s of
                       Inr s' \<Rightarrow> s' | Inl (event', s') \<Rightarrow> s')
     = rateView uid key s"
proof -
  define s1 where "s1 = stats (noteAtomLogged (mTagId event)
                      (cdiv (mElapsedTimestampNs event) NS_PER_SEC) (mParsedHeaderOnly event)) s"
  define es2 where "es2 = OnLogEvent_hardCodedHandlers e event s1"
  define s3 where "s3 = resetIfConfigTtlExpiredLocked e (mElapsedTimestampNs event) (snd es2)"
  define es4 where "es4 = OnLogEvent_uids e (mTagId event) (fst es2) s3"
  define s5 where "s5 = logCall StateManagerOnLogEvent (snd es4)"
  define s6 where "s6 = OnLogEvent_periodic e now (OnLogEvent_anomalyAlarm e now s5)"
  have v1: "rateView uid key s1 = rateView uid key s" by (simp add: s1_def)
  have v2: "rateView uid key (snd es2) = rateView uid key s" by (simp add: es2_def v1)
  have v3: "rateView uid key s3 = rateView uid key s"
    unfolding s3_def using v2 by (simp add: rateView_observed [OF observed_resetIfConfigTtlExpiredLocked])
  have v4: "rateView uid key (snd es4) = rateView uid key s" by (simp add: es4_def v3)
  have v5: "rateView uid key s5 = rateView uid key s" by (simp add: s5_def rateView_logCall v4)
  have o6: "observed s6 = observed s5" by (simp add: s6_def)
  have v6: "rateView uid key s6 = rateView uid key s"
    using rateView_observed [OF o6, of uid key] v5 by simp
  have eq: "OnLogEvent_before_dispatch e event now s =
     (if \<not> mValid event then Inr (stats (noteAtomError (mTagId event)) s1)
      else if mMetricsManagers s5 = [] then Inr s5
      else if \<not> validateAppBreadcrumbEvent e s6 (fst es4) then Inr s6
      else Inl (fst es4, s6))"
    unfolding OnLogEvent_before_dispatch_def Let_def s6_def s5_def es4_def s3_def es2_def s1_def
    by (rule refl)
  show ?thesis
    unfolding eq using v1 v5 v6 by simp
qed

lemma rateLimited_snoc:
  assumes "rateLimited d ts lastTime" and "0 \<le> d"
    and "case lastTime of None \<Rightarrow> True | Some l \<Rightarrow> \<not> now - l < d"
  shows "rateLimited d (ts @ [now]) (Some now)"
proof (cases lastTime)
  case None
  with assms(1) have "ts = []" by (simp add: rateLimited_def)
  then show ?thesis by (simp add: rateLimited_def)
next
  case (Some l)
  with assms(1) have sorted: "sorted_wrt (\<lambda>a b. d \<le> b - a) ts"
    and le: "\<forall>t \<in> set ts. t \<le> l"
    by (simp_all add: rateLimited_def list_all_iff)
  from assms(3) Some have far: "d \<le> now - l" by simp
  have "\<forall>t \<in> set ts. d \<le> now - t \<and> t \<le> now"
    using le far assms(2) by fastforce
  then show ?thesis
    using sorted by (simp add: rateLimited_def sorted_wrt_append list_all_iff)
qed

lemma flush_state:
  fixes e :: "('v, 'm, 'c) Env" and s :: "'m StatsLogProcessor" and k :: ConfigKey
  defines "now \<equiv> getElapsedRealtimeNs (ext e)"
  defines "s1 \<equiv> s \<lparr> mLastByteSizeTimes := (mLastByteSizeTimes s)(k \<mapsto> now) \<rparr>"
  shows "snd (flushIfNecessaryLocked e k m s) = s
    \<or> snd (flushIfNecessaryLocked e k m s) = s1
    \<or> snd (flushIfNecessaryLocked e k m s)
        = stats (noteDataDropped k (byteSize (mm e) m)) (logCall (ManagerDropData k now) s1)
    \<or> snd (flushIfNecessaryLocked e k m s) = logCall (SendBroadcast now k False) s1
    \<or> \<not> (case mLastBroadcastTimes s k of
             Some lastBroadcastTime \<Rightarrow> now - lastBroadcastTime < kMinBroadcastPeriodNs (util e)
           | None \<Rightarrow> False)
      \<and> snd (flushIfNecessaryLocked e k m s)
          = stats (noteBroadcastSent k)
              ((logCall (SendBroadcast now k True) s1)
                 \<lparr> mOnDiskDataConfigs := mOnDiskDataConfigs s1 - {k},
                   mLastBroadcastTimes := (mLastBroadcastTimes s1)(k \<mapsto> now) \<rparr>)"
  unfolding flushIfNecessaryLocked_def Let_def now_def [symmetric]
  by (simp add: s1_def)

lemma flush_rateLimitsHold:
  fixes e :: "('v, 'm, 'c) Env" and s :: "'m StatsLogProcessor"
  assumes nonneg: "0 \<le> kMinBroadcastPeriodNs (util e)"
    and hold: "rateLimitsHold dA (kMinBroadcastPeriodNs (util e)) (rateView uid key s)"
  shows "rateLimitsHold dA (kMinBroadcastPeriodNs (util e))
           (rateView uid key (snd (flushIfNecessaryLocked e k m s)))"
proof -
  define now where "now = getElapsedRealtimeNs (ext e)"
  define s1 where "s1 = s \<lparr> mLastByteSizeTimes := (mLastByteSizeTimes s)(k \<mapsto> now) \<rparr>"
  have v1: "rateView uid key s1 = rateView uid key s"
    by (simp add: s1_def rateView_def)
  have v2: "rateView uid key (stats c (logCall (ManagerDropData k t) s1)) = rateView uid key s"
    for c t
    by (simp add: rateView_logCall v1)
  have v3: "rateView uid key (logCall (SendBroadcast now k False) s1) = rateView uid key s"
    by (simp add: rateView_logCall v1)
  from flush_state [of e k m s, folded now_def, folded s1_def]
  consider (same) "snd (flushIfNecessaryLocked e k m s) = s"
    | (checked) "snd (flushIfNecessaryLocked e k m s) = s1"
    | (dropped) "snd (flushIfNecessaryLocked e k m s)
        = stats (noteDataDropped k (byteSize (mm e) m)) (logCall (ManagerDropData k now) s1)"
    | (failed) "snd (flushIfNecessaryLocked e k m s) = logCall (SendBroadcast now k False) s1"
    | (sent) "\<not> (case mLastBroadcastTimes s k of
             Some lastBroadcastTime \<Rightarrow> now - lastBroadcastTime < kMinBroadcastPeriodNs (util e)
           | None \<Rightarrow> False)"
        "snd (flushIfNecessaryLocked e k m s)
          = stats (noteBroadcastSent k)
              ((logCall (SendBroadcast now k True) s1)
                 \<lparr> mOnDiskDataConfigs := mOnDiskDataConfigs s1 - {k},
                   mLastBroadcastTimes := (mLastBroadcastTimes s1)(k \<mapsto> now) \<rparr>)"
    by blast
  then show ?thesis
  proof cases
    case same
    with hold show ?thesis by simp
  next
    case checked
    with hold v1 show ?thesis by simp
  next
    case dropped
    with hold v2 show ?thesis by simp
  next
    case failed
    with hold v3 show ?thesis by simp
  next
    case sent
    show ?thesis
    proof (cases "k = key")
      case False
      have "rateView uid key (snd (flushIfNecessaryLocked e k m s)) = rateView uid key s"
        unfolding sent(2) using False
        by (simp add: rateView_def s1_def logCall_def stats_def)
      with hold show ?thesis by simp
    next
      case True
      from hold have a: "rateLimited dA (activationBroadcastTimes uid (calls s))
          (mLastActivationBroadcastTimes s uid)"
        and b: "rateLimited (kMinBroadcastPeriodNs (util e)) (broadcastTimes key (calls s))
          (mLastBroadcastTimes s key)"
        by (simp_all add: rateLimitsHold_def rateView_def)
      have due: "case mLastBroadcastTimes s key of
                   None \<Rightarrow> True
                 | Some l \<Rightarrow> \<not> now - l < kMinBroadcastPeriodNs (util e)"
        using sent(1) by (simp add: True split: option.splits)
      have v: "rateView uid key (snd (flushIfNecessaryLocked e k m s))
          = (mLastActivationBroadcastTimes s uid, activationBroadcastTimes uid (calls s),
             Some now, broadcastTimes key (calls s) @ [now])"
        unfolding sent(2)
        by (simp add: rateView_def s1_def logCall_def stats_def True)
      show ?thesis
        unfolding v using rateLimited_snoc [OF b nonneg due] a
        by (simp add: rateLimitsHold_def)
    qed
  qed
qed

lemma loop_invariant:
  assumes log: "\<And>k s. P s \<Longrightarrow> P (logCall (ManagerOnLogEvent k) s)"
    and st: "\<And>c s. P s \<Longrightarrow> P (stats c s)"
    and fl: "\<And>k m s. P s \<Longrightarrow> P (snd (flushIfNecessaryLocked e k m s))"
  shows "P s \<Longrightarrow> P (snd (snd (snd (passToMetricsManagers e event ms a u s))))"
proof (induction ms arbitrary: a u s)
  case Nil
  then show ?case by simp
next
  case (Cons p rest)
  obtain key m where p: "p = (key, m)" by (cases p)
  show ?case
  proof (cases "mRestricted event \<and> \<not> hasRestrictedMetricsDelegate (mm e) m")
    case True
    show ?thesis unfolding p loop_skip [OF True] Let_def snd_conv
      by (rule Cons.IH) (rule Cons.prems)
  next
    case False
    have "P (if isActive (mm e) m \<noteq> isActive (mm e) (onLogEvent (mm e) event m)
             then stats (noteActiveStatusChanged key (isActive (mm e) (onLogEvent (mm e) event m)))
                    (logCall (ManagerOnLogEvent key) s)
             else logCall (ManagerOnLogEvent key) s)"
      using Cons.prems by (simp add: log st)
    then show ?thesis
      unfolding p loop_step [OF False] Let_def snd_conv
      by (intro Cons.IH fl)
  qed
qed

lemma activation_rateView:
  "rateView uid key (logCall (SendActivationBroadcast now u configs False) s)
     = rateView uid key s"
  by (simp add: rateView_logCall)

lemma activation_rateLimitsHold:
  assumes "0 \<le> kMinActivationBroadcastPeriodNs (util e)"
  shows "rateLimitsHold (kMinActivationBroadcastPeriodNs (util e)) dB (rateView uid key s)
     \<Longrightarrow> rateLimitsHold (kMinActivationBroadcastPeriodNs (util e)) dB
           (rateView uid key (sendActivationBroadcasts e now a uids s))"
proof (induction uids arbitrary: s)
  case Nil
  then show ?case by simp
next
  case (Cons u uids)
  show ?case
  proof (cases "case mLastActivationBroadcastTimes s u of
            Some lastBroadcastTime \<Rightarrow>
              now - lastBroadcastTime < kMinActivationBroadcastPeriodNs (util e)
          | None \<Rightarrow> False")
    case True
    then show ?thesis using Cons.prems by simp
  next
    case False
    define configs where "configs = (case map_of a u of Some configs \<Rightarrow> configs | None \<Rightarrow> [])"
    define s1 where "s1 = logCall (SendActivationBroadcast now u configs
                             (mSendActivationBroadcast (ext e) u configs)) s"
    define s2 where "s2 = (if mSendActivationBroadcast (ext e) u configs
                  then s1 \<lparr> mLastActivationBroadcastTimes :=
                              (mLastActivationBroadcastTimes s1)(u \<mapsto> now) \<rparr>
                  else s1)"
    have step: "sendActivationBroadcasts e now a (u # uids) s
        = sendActivationBroadcasts e now a uids s2"
      using False by (simp add: Let_def s2_def s1_def configs_def)
    from Cons.prems have act: "rateLimited (kMinActivationBroadcastPeriodNs (util e))
        (activationBroadcastTimes uid (calls s)) (mLastActivationBroadcastTimes s uid)"
      and bc: "rateLimited dB (broadcastTimes key (calls s)) (mLastBroadcastTimes s key)"
      by (simp_all add: rateLimitsHold_def rateView_def)
    have "rateLimitsHold (kMinActivationBroadcastPeriodNs (util e)) dB (rateView uid key s2)"
    proof (cases "mSendActivationBroadcast (ext e) u configs \<and> u = uid")
      case True
      have due: "case mLastActivationBroadcastTimes s uid of
                   None \<Rightarrow> True
                 | Some l \<Rightarrow> \<not> now - l < kMinActivationBroadcastPeriodNs (util e)"
        using False True by (auto split: option.splits)
      from True have sent: "mSendActivationBroadcast (ext e) u configs" and u: "u = uid"
        by blast+
      have v: "rateView uid key s2
          = (Some now, activationBroadcastTimes uid (calls s) @ [now],
             mLastBroadcastTimes s key, broadcastTimes key (calls s))"
        using sent by (simp add: s2_def s1_def rateView_def logCall_def u)
      show ?thesis
        unfolding v using rateLimited_snoc [OF act assms due] bc
        by (simp add: rateLimitsHold_def)
    next
      case False
      have "rateView uid key s2 = rateView uid key s"
        using False by (auto simp add: s2_def s1_def rateView_def logCall_def)
      with Cons.prems show ?thesis by simp
    qed
    then show ?thesis unfolding step by (rule Cons.IH)
  qed
qed

lemma dispatch_rateLimitsHold:
  fixes e :: "('v, 'm, 'c) Env" and s :: "'m StatsLogProcessor"
  assumes "0 \<le> kMinActivationBroadcastPeriodNs (util e)"
    and "0 \<le> kMinBroadcastPeriodNs (util e)"
    and "rateLimitsHold (kMinActivationBroadcastPeriodNs (util e)) (kMinBroadcastPeriodNs (util e))
           (rateView uid key s)"
  shows "rateLimitsHold (kMinActivationBroadcastPeriodNs (util e)) (kMinBroadcastPeriodNs (util e))
           (rateView uid key (OnLogEvent_dispatch e event now s))"
proof -
  obtain ms a u s1 where r: "passToMetricsManagers e event (mMetricsManagers s) [] [] s
      = (ms, a, u, s1)"
    by (cases "passToMetricsManagers e event (mMetricsManagers s) [] [] s") auto
  have "rateLimitsHold (kMinActivationBroadcastPeriodNs (util e)) (kMinBroadcastPeriodNs (util e))
      (rateView uid key (snd (snd (snd (passToMetricsManagers e event (mMetricsManagers s)
         [] [] s)))))"
    using assms(3)
  proof (rule loop_invariant [rotated 3])
    fix k and s :: "'m StatsLogProcessor"
    assume "rateLimitsHold (kMinActivationBroadcastPeriodNs (util e))
        (kMinBroadcastPeriodNs (util e)) (rateView uid key s)"
    then show "rateLimitsHold (kMinActivationBroadcastPeriodNs (util e))
        (kMinBroadcastPeriodNs (util e)) (rateView uid key (logCall (ManagerOnLogEvent k) s))"
      by (simp add: rateView_logCall)
  next
    fix c and s :: "'m StatsLogProcessor"
    assume "rateLimitsHold (kMinActivationBroadcastPeriodNs (util e))
        (kMinBroadcastPeriodNs (util e)) (rateView uid key s)"
    then show "rateLimitsHold (kMinActivationBroadcastPeriodNs (util e))
        (kMinBroadcastPeriodNs (util e)) (rateView uid key (stats c s))"
      by simp
  next
    fix k m and s :: "'m StatsLogProcessor"
    assume "rateLimitsHold (kMinActivationBroadcastPeriodNs (util e))
        (kMinBroadcastPeriodNs (util e)) (rateView uid key s)"
    then show "rateLimitsHold (kMinActivationBroadcastPeriodNs (util e))
        (kMinBroadcastPeriodNs (util e))
        (rateView uid key (snd (flushIfNecessaryLocked e k m s)))"
      by (rule flush_rateLimitsHold [OF assms(2)])
  qed
  then have "rateLimitsHold (kMinActivationBroadcastPeriodNs (util e))
      (kMinBroadcastPeriodNs (util e)) (rateView uid key (s1 \<lparr> mMetricsManagers := ms \<rparr>))"
    by (simp add: r rateView_def)
  then show ?thesis
    unfolding OnLogEvent_dispatch_def r
    by (simp add: activation_rateLimitsHold [OF assms(1)])
qed

lemma OnLogEvent_rateLimitsHold:
  assumes "0 \<le> kMinActivationBroadcastPeriodNs (util e)"
    and "0 \<le> kMinBroadcastPeriodNs (util e)"
    and "rateLimitsHold (kMinActivationBroadcastPeriodNs (util e)) (kMinBroadcastPeriodNs (util e))
           (rateView uid key s)"
  shows "rateLimitsHold (kMinActivationBroadcastPeriodNs (util e)) (kMinBroadcastPeriodNs (util e))
           (rateView uid key (OnLogEvent e event now s))"
proof (cases "OnLogEvent_before_dispatch e event now s")
  case (Inr s')
  from before_dispatch_rateView [of uid key e event now s]
  have "rateView uid key s' = rateView uid key s" by (simp add: Inr)
  with assms(3) show ?thesis by (simp add: OnLogEvent_def Inr)
next
  case (Inl p)
  obtain event' s' where p: "p = (event', s')" by (cases p)
  from before_dispatch_rateView [of uid key e event now s]
  have "rateView uid key s' = rateView uid key s" by (simp add: Inl p)
  with assms(3) have "rateLimitsHold (kMinActivationBroadcastPeriodNs (util e))
      (kMinBroadcastPeriodNs (util e)) (rateView uid key s')"
    by simp
  from dispatch_rateLimitsHold [OF assms(1,2) this]
  show ?thesis by (simp add: OnLogEvent_def Inl p)
qed

lemma OnConfigUpdated_rateView:
  "rateView uid key (OnConfigUpdated e ts wall k config mu s) = rateView uid key s"
  by (rule rateView_observed) (simp add: OnConfigUpdated_def)

lemma serve_rateLimitsHold:
  assumes "0 \<le> kMinActivationBroadcastPeriodNs (util (requestEnv r))"
    and "0 \<le> kMinBroadcastPeriodNs (util (requestEnv r))"
    and "rateLimitsHold (kMinActivationBroadcastPeriodNs (util (requestEnv r)))
           (kMinBroadcastPeriodNs (util (requestEnv r))) (rateView uid key s)"
  shows "rateLimitsHold (kMinActivationBroadcastPeriodNs (util (requestEnv r)))
           (kMinBroadcastPeriodNs (util (requestEnv r))) (rateView uid key (serve r s))"
proof (cases r)
  case (LogEventRequest e event now)
  with assms show ?thesis by (simp add: OnLogEvent_rateLimitsHold)
next
  case (ConfigUpdateRequest e ts wall k config mu)
  with assms show ?thesis by (simp add: OnConfigUpdated_rateView)
qed

lemma serveAll_rateLimitsHold:
  assumes "0 \<le> dA" and "0 \<le> dB"
  shows "\<forall>r \<in> set rs. kMinActivationBroadcastPeriodNs (util (requestEnv r)) = dA
                      \<and> kMinBroadcastPeriodNs (util (requestEnv r)) = dB
     \<Longrightarrow> rateLimitsHold dA dB (rateView uid key s)
     \<Longrightarrow> rateLimitsHold dA dB (rateView uid key (serveAll rs s))"
proof (induction rs arbitrary: s)
  case Nil
  then show ?case by (simp add: serveAll_def)
next
  case (Cons r rs)
  from Cons.prems(1) have a: "kMinActivationBroadcastPeriodNs (util (requestEnv r)) = dA"
    and b: "kMinBroadcastPeriodNs (util (requestEnv r)) = dB" by simp_all
  have "rateLimitsHold dA dB (rateView uid key (serve r s))"
    using serve_rateLimitsHold [of r uid key s] assms Cons.prems(2) by (simp add: a b)
  from Cons.IH [OF _ this] Cons.prems(1) show ?case by (simp add: serveAll_def)
qed

lemma new_rateLimitsHold:
  "rateLimitsHold dA dB (rateView uid key (newStatsLogProcessor t))"
  by (simp add: rateLimitsHold_def rateView_def rateLimited_def newStatsLogProcessor_def
      activationBroadcastTimes_def broadcastTimes_def)

lemma activation_allowed:
  assumes "mLastActivationBroadcastTimes s u = Some l"
    and "now - l = kMinActivationBroadcastPeriodNs (util e)"
  shows "sendActivationBroadcasts e now a (u # uids) s
      = sendActivationBroadcasts e now a uids
          (let configs = (case map_of a u of Some configs \<Rightarrow> configs | None \<Rightarrow> []);
               sent = mSendActivationBroadcast (ext e) u configs;
               s1 = logCall (SendActivationBroadcast now u configs sent) s
           in if sent
              then s1 \<lparr> mLastActivationBroadcastTimes :=
                          (mLastActivationBroadcastTimes s1)(u \<mapsto> now) \<rparr>
              else s1)"
  using assms by (simp add: Let_def)

lemma activation_limited:
  assumes "mLastActivationBroadcastTimes s u = Some l"
    and "now - l < kMinActivationBroadcastPeriodNs (util e)"
  shows "sendActivationBroadcasts e now a (u # uids) s
      = stats (noteActivationBroadcastGuardrailHit u) s"
  using assms by simp

lemma flush_allowed:
  assumes "case mLastByteSizeTimes s k of
             Some t0 \<Rightarrow> \<not> getElapsedRealtimeNs (ext e) - t0 < kMinByteSizeCheckPeriodNs (util e)
           | None \<Rightarrow> True"
    and "byteSize (mm e) m \<le> getMaxMetricsBytes (mm e) m"
    and "byteSize (mm e) m > getTriggerGetDataBytes (mm e) m \<or> k \<in> mOnDiskDataConfigs s"
    and "\<not> hasRestrictedMetricsDelegate (mm e) m"
    and "mLastBroadcastTimes s k = Some l"
    and "getElapsedRealtimeNs (ext e) - l = kMinBroadcastPeriodNs (util e)"
  shows "flushIfNecessaryLocked e k m s =
     (m, let s1 = s \<lparr> mLastByteSizeTimes :=
                       (mLastByteSizeTimes s)(k \<mapsto> getElapsedRealtimeNs (ext e)) \<rparr>
         in if mSendBroadcast (ext e) k
            then stats (noteBroadcastSent k)
                   ((logCall (SendBroadcast (getElapsedRealtimeNs (ext e)) k True) s1)
                      \<lparr> mOnDiskDataConfigs := mOnDiskDataConfigs s1 - {k},
                        mLastBroadcastTimes :=
                          (mLastBroadcastTimes s1)(k \<mapsto> getElapsedRealtimeNs (ext e)) \<rparr>)
            else logCall (SendBroadcast (getElapsedRealtimeNs (ext e)) k False) s1)"
proof -
  have nr: "(case mLastByteSizeTimes s k of
               Some lastCheckTime \<Rightarrow>
                 getElapsedRealtimeNs (ext e) - lastCheckTime < kMinByteSizeCheckPeriodNs (util e)
             | None \<Rightarrow> False) = False"
    using assms(1) by (simp split: option.splits)
  show ?thesis
    using assms(2-6) by (auto simp add: flushIfNecessaryLocked_def Let_def nr)
qed

lemma flush_limited:
  assumes "case mLastByteSizeTimes s k of
             Some t0 \<Rightarrow> \<not> getElapsedRealtimeNs (ext e) - t0 < kMinByteSizeCheckPeriodNs (util e)
           | None \<Rightarrow> True"
    and "byteSize (mm e) m \<le> getMaxMetricsBytes (mm e) m"
    and "byteSize (mm e) m > getTriggerGetDataBytes (mm e) m \<or> k \<in> mOnDiskDataConfigs s"
    and "\<not> hasRestrictedMetricsDelegate (mm e) m"
    and "mLastBroadcastTimes s k = Some l"
    and "getElapsedRealtimeNs (ext e) - l < kMinBroadcastPeriodNs (util e)"
  shows "flushIfNecessaryLocked e k m s =
     (m, s \<lparr> mLastByteSizeTimes :=
               (mLastByteSizeTimes s)(k \<mapsto> getElapsedRealtimeNs (ext e)) \<rparr>)"
proof -
  have nr: "(case mLastByteSizeTimes s k of
               Some lastCheckTime \<Rightarrow>
                 getElapsedRealtimeNs (ext e) - lastCheckTime < kMinByteSizeCheckPeriodNs (util e)
             | None \<Rightarrow> False) = False"
    using assms(1) by (simp split: option.splits)
  show ?thesis
    using assms(2-6) by (auto simp add: flushIfNecessaryLocked_def Let_def nr)
qed

text \<open>
  Claim C8, as the code has it. \<open>OnConfigRemoved\<close> erases the times the rate limits compare
  with (lines 867 and 880; \<open>onDumpReport\<close> erases the one of the data-ready broadcasts, line
  691). In a run of \<open>OnConfigUpdated\<close> and \<open>OnLogEvent\<close> calls on a new processor, with
  periods that are not negative: any two successful activation broadcasts to one uid are
  at least \<open>kMinActivationBroadcastPeriodNs\<close> apart, and any two successful data-ready
  broadcasts for one key at least \<open>kMinBroadcastPeriodNs\<close>, whatever the clocks read, and
  none of them is later than the time the processor has recorded for the uid or the key.
  The windows are closed-open. An activation broadcast that is due exactly the period after
  the time recorded for the uid invokes the callback (and records the time if it
  succeeds); one that is due less than the period after it records
  \<open>noteActivationBroadcastGuardrailHit\<close> for the uid and nothing else: no callback, and
  the loop over the uids ends (line 509). A data-ready broadcast that
  \<open>flushIfNecessaryLocked\<close> requests (the byte-size check runs, the data are within the
  limit and beyond the trigger or on disk, no delegate) exactly the period after the time
  recorded for the key invokes the callback; one requested less than the period after it
  leaves the processor with the time of the check and nothing else.
\<close>

theorem broadcasts_rate_limited:
  fixes rs :: "('v, 'm, 'c) Request list" and e :: "('v, 'm, 'c) Env"
    and s :: "'m StatsLogProcessor" and t now l l' :: int and k :: ConfigKey and m :: 'm
  assumes periods: "\<forall>r \<in> set rs. kMinActivationBroadcastPeriodNs (util (requestEnv r)) = dA
                                \<and> kMinBroadcastPeriodNs (util (requestEnv r)) = dB"
    and nonnegA: "0 \<le> dA" and nonnegB: "0 \<le> dB"
  defines "final \<equiv> serveAll rs (newStatsLogProcessor t)"
  defines "clock \<equiv> getElapsedRealtimeNs (ext e)"
  defines "requested \<equiv>
     (case mLastByteSizeTimes s k of
        Some t0 \<Rightarrow> \<not> clock - t0 < kMinByteSizeCheckPeriodNs (util e)
      | None \<Rightarrow> True)
     \<and> byteSize (mm e) m \<le> getMaxMetricsBytes (mm e) m
     \<and> (byteSize (mm e) m > getTriggerGetDataBytes (mm e) m \<or> k \<in> mOnDiskDataConfigs s)
     \<and> \<not> hasRestrictedMetricsDelegate (mm e) m"
  shows "sorted_wrt (\<lambda>a b. dA \<le> b - a) (activationBroadcastTimes uid (calls final))
    \<and> sorted_wrt (\<lambda>a b. dB \<le> b - a) (broadcastTimes key (calls final))
    \<and> (case mLastActivationBroadcastTimes final uid of
          None \<Rightarrow> activationBroadcastTimes uid (calls final) = []
        | Some r \<Rightarrow> list_all (\<lambda>t. t \<le> r) (activationBroadcastTimes uid (calls final)))
    \<and> (case mLastBroadcastTimes final key of
          None \<Rightarrow> broadcastTimes key (calls final) = []
        | Some r \<Rightarrow> list_all (\<lambda>t. t \<le> r) (broadcastTimes key (calls final)))
    \<and> (mLastActivationBroadcastTimes s u = Some l
         \<and> now - l = kMinActivationBroadcastPeriodNs (util e) \<longrightarrow>
         sendActivationBroadcasts e now a (u # uids) s
           = sendActivationBroadcasts e now a uids
               (let configs = (case map_of a u of Some configs \<Rightarrow> configs | None \<Rightarrow> []);
                    sent = mSendActivationBroadcast (ext e) u configs;
                    s1 = logCall (SendActivationBroadcast now u configs sent) s
                in if sent
                   then s1 \<lparr> mLastActivationBroadcastTimes :=
                               (mLastActivationBroadcastTimes s1)(u \<mapsto> now) \<rparr>
                   else s1))
    \<and> (mLastActivationBroadcastTimes s u = Some l
         \<and> now - l < kMinActivationBroadcastPeriodNs (util e) \<longrightarrow>
         sendActivationBroadcasts e now a (u # uids) s
           = stats (noteActivationBroadcastGuardrailHit u) s)
    \<and> (requested \<and> mLastBroadcastTimes s k = Some l'
         \<and> clock - l' = kMinBroadcastPeriodNs (util e) \<longrightarrow>
         flushIfNecessaryLocked e k m s =
           (m, let s1 = s \<lparr> mLastByteSizeTimes := (mLastByteSizeTimes s)(k \<mapsto> clock) \<rparr>
               in if mSendBroadcast (ext e) k
                  then stats (noteBroadcastSent k)
                         ((logCall (SendBroadcast clock k True) s1)
                            \<lparr> mOnDiskDataConfigs := mOnDiskDataConfigs s1 - {k},
                              mLastBroadcastTimes := (mLastBroadcastTimes s1)(k \<mapsto> clock) \<rparr>)
                  else logCall (SendBroadcast clock k False) s1))
    \<and> (requested \<and> mLastBroadcastTimes s k = Some l'
         \<and> clock - l' < kMinBroadcastPeriodNs (util e) \<longrightarrow>
         flushIfNecessaryLocked e k m s =
           (m, s \<lparr> mLastByteSizeTimes := (mLastByteSizeTimes s)(k \<mapsto> clock) \<rparr>))"
proof -
  have hold: "rateLimitsHold dA dB (rateView uid key final)"
    unfolding final_def
    by (rule serveAll_rateLimitsHold [OF nonnegA nonnegB periods new_rateLimitsHold])
  then have a: "sorted_wrt (\<lambda>a b. dA \<le> b - a) (activationBroadcastTimes uid (calls final))"
    and b: "sorted_wrt (\<lambda>a b. dB \<le> b - a) (broadcastTimes key (calls final))"
    and a': "case mLastActivationBroadcastTimes final uid of
          None \<Rightarrow> activationBroadcastTimes uid (calls final) = []
        | Some r \<Rightarrow> list_all (\<lambda>t. t \<le> r) (activationBroadcastTimes uid (calls final))"
    and b': "case mLastBroadcastTimes final key of
          None \<Rightarrow> broadcastTimes key (calls final) = []
        | Some r \<Rightarrow> list_all (\<lambda>t. t \<le> r) (broadcastTimes key (calls final))"
    by (simp_all add: rateLimitsHold_def rateView_def rateLimited_def)
  have c: "mLastActivationBroadcastTimes s u = Some l
         \<and> now - l = kMinActivationBroadcastPeriodNs (util e) \<longrightarrow>
         sendActivationBroadcasts e now a (u # uids) s
           = sendActivationBroadcasts e now a uids
               (let configs = (case map_of a u of Some configs \<Rightarrow> configs | None \<Rightarrow> []);
                    sent = mSendActivationBroadcast (ext e) u configs;
                    s1 = logCall (SendActivationBroadcast now u configs sent) s
                in if sent
                   then s1 \<lparr> mLastActivationBroadcastTimes :=
                               (mLastActivationBroadcastTimes s1)(u \<mapsto> now) \<rparr>
                   else s1)"
    using activation_allowed [where s = s and u = u and l = l and now = now and e = e
        and a = a and uids = uids]
    by blast
  have d: "mLastActivationBroadcastTimes s u = Some l
         \<and> now - l < kMinActivationBroadcastPeriodNs (util e) \<longrightarrow>
         sendActivationBroadcasts e now a (u # uids) s
           = stats (noteActivationBroadcastGuardrailHit u) s"
    using activation_limited [where s = s and u = u and l = l and now = now and e = e
        and a = a and uids = uids]
    by blast
  have f: "requested \<and> mLastBroadcastTimes s k = Some l'
         \<and> clock - l' = kMinBroadcastPeriodNs (util e) \<longrightarrow>
         flushIfNecessaryLocked e k m s =
           (m, let s1 = s \<lparr> mLastByteSizeTimes := (mLastByteSizeTimes s)(k \<mapsto> clock) \<rparr>
               in if mSendBroadcast (ext e) k
                  then stats (noteBroadcastSent k)
                         ((logCall (SendBroadcast clock k True) s1)
                            \<lparr> mOnDiskDataConfigs := mOnDiskDataConfigs s1 - {k},
                              mLastBroadcastTimes := (mLastBroadcastTimes s1)(k \<mapsto> clock) \<rparr>)
                  else logCall (SendBroadcast clock k False) s1)"
    unfolding requested_def clock_def
    using flush_allowed [where s = s and k = k and e = e and m = m and l = l'] by blast
  have g: "requested \<and> mLastBroadcastTimes s k = Some l'
         \<and> clock - l' < kMinBroadcastPeriodNs (util e) \<longrightarrow>
         flushIfNecessaryLocked e k m s =
           (m, s \<lparr> mLastByteSizeTimes := (mLastByteSizeTimes s)(k \<mapsto> clock) \<rparr>)"
    unfolding requested_def clock_def
    using flush_limited [where s = s and k = k and e = e and m = m and l = l'] by blast
  from a b a' b' c d f g show ?thesis by blast
qed

lemma afterThirdEvent_eq:
  "OnLogEvent (demoEnv 11000000000) demoAtom 11000000000 afterSecondEvent =
  \<lparr> mMetricsManagers = [(demoKey, demoConfig \<lparr> dmActive := True, dmBytes := 1800 \<rparr>)],
    mLastBroadcastTimes = [demoKey \<mapsto> 1000000000],
    mLastActivationBroadcastTimes = [10001 \<mapsto> 11000000000],
    mLastByteSizeTimes = [demoKey \<mapsto> 1000000000],
    mDumpReportNumbers = Map.empty, mOnDiskDataConfigs = {},
    mLastTtlTime = 0, mLastFlushRestrictedTime = 0, mLastDbGuardrailEnforcementTime = 0,
    mLastPullerCacheClearTimeSec = 11, mLastWriteTimeNs = 0, mNextAnomalyAlarmTime = 0,
    mTimeBaseNs = 0, isolatedUids = Map.empty, trainInfoDir = Map.empty,
    calls = [ForceClearPullerCache, UpdateLogEventFilter, UidMapOnConfigUpdated demoKey,
             UpdateLogEventFilter,
             StatsdStats (noteAtomLogged 10 0 False), StateManagerOnLogEvent,
             ManagerOnLogEvent demoKey, StatsdStats (noteActiveStatusChanged demoKey True),
             SendBroadcast 1000000000 demoKey True, StatsdStats (noteBroadcastSent demoKey),
             SendActivationBroadcast 1000000000 10001 [7] True,
             StatsdStats (noteAtomLogged 10 0 False), StateManagerOnLogEvent,
             ClearPullerCacheIfNecessary 2000000000,
             ManagerOnLogEvent demoKey, StatsdStats (noteActiveStatusChanged demoKey False),
             StatsdStats (noteActivationBroadcastGuardrailHit 10001),
             StatsdStats (noteAtomLogged 10 0 False), StateManagerOnLogEvent,
             ClearPullerCacheIfNecessary 11000000000,
             ManagerOnLogEvent demoKey, StatsdStats (noteActiveStatusChanged demoKey True),
             SendActivationBroadcast 11000000000 10001 [7] True] \<rparr>"
  unfolding afterSecondEvent_eq
  by (simp add: event_defs demoAtom_def eval_defs)

lemma demoRun_eq:
  "serveAll demoRun (newStatsLogProcessor 0)
     = OnLogEvent (demoEnv 11000000000) demoAtom 11000000000 afterSecondEvent"
  by (simp add: serveAll_def demoRun_def afterSecondEvent_def afterFirstEvent_def
      demoProcessor_def)

lemma afterReinstall_eq: "afterReinstall =
  \<lparr> mMetricsManagers = [(demoKey, demoConfig)],
    mLastBroadcastTimes = Map.empty,
    mLastActivationBroadcastTimes = Map.empty,
    mLastByteSizeTimes = Map.empty,
    mDumpReportNumbers = Map.empty, mOnDiskDataConfigs = {demoKey},
    mLastTtlTime = 0, mLastFlushRestrictedTime = 0, mLastDbGuardrailEnforcementTime = 0,
    mLastPullerCacheClearTimeSec = 0, mLastWriteTimeNs = 0, mNextAnomalyAlarmTime = 0,
    mTimeBaseNs = 0, isolatedUids = Map.empty, trainInfoDir = Map.empty,
    calls = [ForceClearPullerCache, UpdateLogEventFilter, UidMapOnConfigUpdated demoKey,
             UpdateLogEventFilter,
             StatsdStats (noteAtomLogged 10 0 False), StateManagerOnLogEvent,
             ManagerOnLogEvent demoKey, StatsdStats (noteActiveStatusChanged demoKey True),
             SendBroadcast 1000000000 demoKey True, StatsdStats (noteBroadcastSent demoKey),
             SendActivationBroadcast 1000000000 10001 [7] True,
             WriteFile False 2 demoKey [], UidMapOnConfigRemoved demoKey,
             StatsdStats (noteConfigRemoved demoKey), ForceClearPullerCache,
             UpdateLogEventFilter, UidMapOnConfigUpdated demoKey, UpdateLogEventFilter] \<rparr>"
  unfolding afterReinstall_def afterFirstEvent_eq
  by (simp add: OnConfigRemoved_def onConfigMetricsReportLocked_def config_defs eval_defs)

lemma afterReinstallEvent_eq: "afterReinstallEvent =
  \<lparr> mMetricsManagers = [(demoKey, demoConfig \<lparr> dmActive := True, dmBytes := 600 \<rparr>)],
    mLastBroadcastTimes = [demoKey \<mapsto> 3000000000],
    mLastActivationBroadcastTimes = [10001 \<mapsto> 3000000000],
    mLastByteSizeTimes = [demoKey \<mapsto> 3000000000],
    mDumpReportNumbers = Map.empty, mOnDiskDataConfigs = {},
    mLastTtlTime = 0, mLastFlushRestrictedTime = 0, mLastDbGuardrailEnforcementTime = 0,
    mLastPullerCacheClearTimeSec = 3, mLastWriteTimeNs = 0, mNextAnomalyAlarmTime = 0,
    mTimeBaseNs = 0, isolatedUids = Map.empty, trainInfoDir = Map.empty,
    calls = [ForceClearPullerCache, UpdateLogEventFilter, UidMapOnConfigUpdated demoKey,
             UpdateLogEventFilter,
             StatsdStats (noteAtomLogged 10 0 False), StateManagerOnLogEvent,
             ManagerOnLogEvent demoKey, StatsdStats (noteActiveStatusChanged demoKey True),
             SendBroadcast 1000000000 demoKey True, StatsdStats (noteBroadcastSent demoKey),
             SendActivationBroadcast 1000000000 10001 [7] True,
             WriteFile False 2 demoKey [], UidMapOnConfigRemoved demoKey,
             StatsdStats (noteConfigRemoved demoKey), ForceClearPullerCache,
             UpdateLogEventFilter, UidMapOnConfigUpdated demoKey, UpdateLogEventFilter,
             StatsdStats (noteAtomLogged 10 0 False), StateManagerOnLogEvent,
             ClearPullerCacheIfNecessary 3000000000,
             ManagerOnLogEvent demoKey, StatsdStats (noteActiveStatusChanged demoKey True),
             SendBroadcast 3000000000 demoKey True, StatsdStats (noteBroadcastSent demoKey),
             SendActivationBroadcast 3000000000 10001 [7] True] \<rparr>"
  unfolding afterReinstallEvent_def afterReinstall_eq
  by (simp add: event_defs demoAtom_def eval_defs)

text \<open>
  The theorem on the run \<open>demoRun\<close>, with the periods of 10 s and 60 s. The event at 1 s
  makes the manager active: an activation broadcast and a data-ready broadcast go out.
  The one at 2 s makes it inactive: the activation broadcast is inside the window and the
  guardrail hit is recorded. The one at 11 s makes it active again, exactly 10 s after the
  first broadcast: the broadcast goes out. The same on the processor after the first
  event, loop by loop; and a data-ready broadcast requested at 61 s goes out, one
  requested at 2 s does not.
\<close>

theorem broadcasts_rate_limited_witness:
  "kMinActivationBroadcastPeriodNs (util (demoEnv 0)) = 10000000000
   \<and> kMinBroadcastPeriodNs (util (demoEnv 0)) = 60000000000
   \<and> activationBroadcastTimes 10001 (calls (serveAll demoRun (newStatsLogProcessor 0)))
       = [1000000000, 11000000000]
   \<and> broadcastTimes demoKey (calls (serveAll demoRun (newStatsLogProcessor 0))) = [1000000000]
   \<and> sorted_wrt (\<lambda>a b. 10000000000 \<le> b - a)
         (activationBroadcastTimes 10001 (calls (serveAll demoRun (newStatsLogProcessor 0))))
   \<and> sorted_wrt (\<lambda>a b. 60000000000 \<le> b - a)
         (broadcastTimes demoKey (calls (serveAll demoRun (newStatsLogProcessor 0))))
   \<and> list_all (\<lambda>t. t \<le> 11000000000)
         (activationBroadcastTimes 10001 (calls (serveAll demoRun (newStatsLogProcessor 0))))
   \<and> mLastActivationBroadcastTimes afterFirstEvent 10001 = Some 1000000000
   \<and> mLastBroadcastTimes afterFirstEvent demoKey = Some 1000000000
   \<and> calls (sendActivationBroadcasts (demoEnv 11000000000) 11000000000 [(10001, [7])] [10001]
              afterFirstEvent)
       = calls afterFirstEvent @ [SendActivationBroadcast 11000000000 10001 [7] True]
   \<and> sendActivationBroadcasts (demoEnv 2000000000) 2000000000 [] [10001] afterFirstEvent
       = stats (noteActivationBroadcastGuardrailHit 10001) afterFirstEvent
   \<and> calls (snd (flushIfNecessaryLocked (demoEnv 61000000000) demoKey
                   (demoConfig \<lparr> dmBytes := 600 \<rparr>) afterFirstEvent))
       = calls afterFirstEvent
         @ [SendBroadcast 61000000000 demoKey True, StatsdStats (noteBroadcastSent demoKey)]
   \<and> calls (snd (flushIfNecessaryLocked (demoEnv 2000000000) demoKey
                   (demoConfig \<lparr> dmBytes := 600 \<rparr>)
                   (afterFirstEvent \<lparr> mLastByteSizeTimes := Map.empty \<rparr>)))
       = calls afterFirstEvent"
proof -
  let ?m = "demoConfig \<lparr> dmBytes := 600 \<rparr>"
  let ?s2 = "afterFirstEvent \<lparr> mLastByteSizeTimes := Map.empty \<rparr>"
  have pA: "kMinActivationBroadcastPeriodNs (util (demoEnv x)) = 10000000000" for x
    by (simp add: demo_defs)
  have pB: "kMinBroadcastPeriodNs (util (demoEnv x)) = 60000000000" for x
    by (simp add: demo_defs)
  have periods: "\<forall>r \<in> set demoRun.
      kMinActivationBroadcastPeriodNs (util (requestEnv r)) = 10000000000
      \<and> kMinBroadcastPeriodNs (util (requestEnv r)) = 60000000000"
    by (simp add: demoRun_def pA pB)
  have lastA: "mLastActivationBroadcastTimes afterFirstEvent 10001 = Some 1000000000"
    and lastB: "mLastBroadcastTimes afterFirstEvent demoKey = Some 1000000000"
    and lastB2: "mLastBroadcastTimes ?s2 demoKey = Some 1000000000"
    by (simp_all add: afterFirstEvent_eq)
  have exactA: "11000000000 - 1000000000
      = kMinActivationBroadcastPeriodNs (util (demoEnv 11000000000))"
    and insideA: "2000000000 - 1000000000
      < kMinActivationBroadcastPeriodNs (util (demoEnv 2000000000))"
    by (simp_all add: pA)
  have exactB: "getElapsedRealtimeNs (ext (demoEnv 61000000000)) - 1000000000
      = kMinBroadcastPeriodNs (util (demoEnv 61000000000))"
    and insideB: "getElapsedRealtimeNs (ext (demoEnv 2000000000)) - 1000000000
      < kMinBroadcastPeriodNs (util (demoEnv 2000000000))"
    by (simp_all add: demo_defs)
  have req1: "(case mLastByteSizeTimes afterFirstEvent demoKey of
        Some t0 \<Rightarrow> \<not> getElapsedRealtimeNs (ext (demoEnv 61000000000)) - t0
                      < kMinByteSizeCheckPeriodNs (util (demoEnv 61000000000))
      | None \<Rightarrow> True)
     \<and> byteSize (mm (demoEnv 61000000000)) ?m \<le> getMaxMetricsBytes (mm (demoEnv 61000000000)) ?m
     \<and> (byteSize (mm (demoEnv 61000000000)) ?m > getTriggerGetDataBytes (mm (demoEnv 61000000000)) ?m
         \<or> demoKey \<in> mOnDiskDataConfigs afterFirstEvent)
     \<and> \<not> hasRestrictedMetricsDelegate (mm (demoEnv 61000000000)) ?m"
    by (simp add: afterFirstEvent_eq demo_defs)
  have req2: "(case mLastByteSizeTimes ?s2 demoKey of
        Some t0 \<Rightarrow> \<not> getElapsedRealtimeNs (ext (demoEnv 2000000000)) - t0
                      < kMinByteSizeCheckPeriodNs (util (demoEnv 2000000000))
      | None \<Rightarrow> True)
     \<and> byteSize (mm (demoEnv 2000000000)) ?m \<le> getMaxMetricsBytes (mm (demoEnv 2000000000)) ?m
     \<and> (byteSize (mm (demoEnv 2000000000)) ?m > getTriggerGetDataBytes (mm (demoEnv 2000000000)) ?m
         \<or> demoKey \<in> mOnDiskDataConfigs ?s2)
     \<and> \<not> hasRestrictedMetricsDelegate (mm (demoEnv 2000000000)) ?m"
    by (simp add: demo_defs)
  have nnA: "(0 :: int) \<le> 10000000000" and nnB: "(0 :: int) \<le> 60000000000"
    by simp_all
  note run = broadcasts_rate_limited [OF periods nnA nnB, where t = 0 and uid = 10001 and key = demoKey]
  note at11 = broadcasts_rate_limited [OF periods nnA nnB, where e = "demoEnv 11000000000"
      and s = afterFirstEvent and u = 10001 and l = 1000000000 and now = 11000000000
      and a = "[(10001, [7])]" and uids = "[]"]
  note at2 = broadcasts_rate_limited [OF periods nnA nnB, where e = "demoEnv 2000000000"
      and s = afterFirstEvent and u = 10001 and l = 1000000000 and now = 2000000000
      and a = "[]" and uids = "[]"]
  note at61 = broadcasts_rate_limited [OF periods nnA nnB, where e = "demoEnv 61000000000"
      and s = afterFirstEvent and k = demoKey and m = ?m and l' = 1000000000]
  note at2b = broadcasts_rate_limited [OF periods nnA nnB, where e = "demoEnv 2000000000"
      and s = ?s2 and k = demoKey and m = ?m and l' = 1000000000]
  have times: "activationBroadcastTimes 10001 (calls (serveAll demoRun (newStatsLogProcessor 0)))
       = [1000000000, 11000000000]
     \<and> broadcastTimes demoKey (calls (serveAll demoRun (newStatsLogProcessor 0))) = [1000000000]"
    unfolding demoRun_eq afterThirdEvent_eq by (simp add: demoKey_def)
  from run have sorted: "sorted_wrt (\<lambda>a b. 10000000000 \<le> b - a)
         (activationBroadcastTimes 10001 (calls (serveAll demoRun (newStatsLogProcessor 0))))
     \<and> sorted_wrt (\<lambda>a b. 60000000000 \<le> b - a)
         (broadcastTimes demoKey (calls (serveAll demoRun (newStatsLogProcessor 0))))"
    by simp
  have "mLastActivationBroadcastTimes (serveAll demoRun (newStatsLogProcessor 0)) 10001
      = Some 11000000000"
    unfolding demoRun_eq afterThirdEvent_eq by simp
  with run have recorded: "list_all (\<lambda>t. t \<le> 11000000000)
         (activationBroadcastTimes 10001 (calls (serveAll demoRun (newStatsLogProcessor 0))))"
    by simp
  from at11 lastA exactA
  have "sendActivationBroadcasts (demoEnv 11000000000) 11000000000 [(10001, [7])] [10001]
          afterFirstEvent
      = sendActivationBroadcasts (demoEnv 11000000000) 11000000000 [(10001, [7])] []
          (let configs = (case map_of [(10001, [7])] (10001 :: int) of
                            Some configs \<Rightarrow> configs | None \<Rightarrow> []);
               sent = mSendActivationBroadcast (ext (demoEnv 11000000000)) 10001 configs;
               s1 = logCall (SendActivationBroadcast 11000000000 10001 configs sent)
                      afterFirstEvent
           in if sent
              then s1 \<lparr> mLastActivationBroadcastTimes :=
                          (mLastActivationBroadcastTimes s1)(10001 \<mapsto> 11000000000) \<rparr>
              else s1)"
    by simp
  then have allowed: "calls (sendActivationBroadcasts (demoEnv 11000000000) 11000000000
              [(10001, [7])] [10001] afterFirstEvent)
       = calls afterFirstEvent @ [SendActivationBroadcast 11000000000 10001 [7] True]"
    by (simp add: Let_def demo_defs)
  from at2 lastA insideA
  have limited: "sendActivationBroadcasts (demoEnv 2000000000) 2000000000 [] [10001]
        afterFirstEvent
      = stats (noteActivationBroadcastGuardrailHit 10001) afterFirstEvent"
    by simp
  from at61 req1 lastB exactB
  have "flushIfNecessaryLocked (demoEnv 61000000000) demoKey ?m afterFirstEvent =
           (?m, let s1 = afterFirstEvent \<lparr> mLastByteSizeTimes :=
                      (mLastByteSizeTimes afterFirstEvent)
                        (demoKey \<mapsto> getElapsedRealtimeNs (ext (demoEnv 61000000000))) \<rparr>
               in if mSendBroadcast (ext (demoEnv 61000000000)) demoKey
                  then stats (noteBroadcastSent demoKey)
                         ((logCall (SendBroadcast (getElapsedRealtimeNs (ext (demoEnv 61000000000)))
                                      demoKey True) s1)
                            \<lparr> mOnDiskDataConfigs := mOnDiskDataConfigs s1 - {demoKey},
                              mLastBroadcastTimes := (mLastBroadcastTimes s1)
                                (demoKey \<mapsto> getElapsedRealtimeNs (ext (demoEnv 61000000000))) \<rparr>)
                  else logCall (SendBroadcast (getElapsedRealtimeNs (ext (demoEnv 61000000000)))
                                  demoKey False) s1)"
    by blast
  then have sent: "calls (snd (flushIfNecessaryLocked (demoEnv 61000000000) demoKey ?m
                                 afterFirstEvent))
       = calls afterFirstEvent
         @ [SendBroadcast 61000000000 demoKey True, StatsdStats (noteBroadcastSent demoKey)]"
    by (simp add: Let_def demoEnv_def demoExternals_def logCall_def stats_def)
  from at2b req2 lastB2 insideB
  have "flushIfNecessaryLocked (demoEnv 2000000000) demoKey ?m ?s2 =
           (?m, ?s2 \<lparr> mLastByteSizeTimes := (mLastByteSizeTimes ?s2)
                       (demoKey \<mapsto> getElapsedRealtimeNs (ext (demoEnv 2000000000))) \<rparr>)"
    by blast
  then have held: "calls (snd (flushIfNecessaryLocked (demoEnv 2000000000) demoKey ?m ?s2))
       = calls afterFirstEvent"
    by simp
  from pA [of 0] pB [of 0] times sorted recorded lastA lastB allowed limited sent held
  show ?thesis by blast
qed

text \<open>
  The claim fails across \<open>OnConfigRemoved\<close>. After the broadcasts at 1 s, the only
  configuration of uid 10001 is removed and installed again at 2 s; the removal erases the
  times of the last broadcasts. The event at 3 s then sends an activation broadcast to the
  uid and a data-ready broadcast for the key, both successful and 2 s after the previous
  ones, with periods of 10 s and 60 s.
\<close>

theorem broadcasts_two_seconds_apart_after_removal:
  "kMinActivationBroadcastPeriodNs (util (demoEnv 3000000000)) = 10000000000
   \<and> kMinBroadcastPeriodNs (util (demoEnv 3000000000)) = 60000000000
   \<and> activationBroadcastTimes 10001
        (calls (OnLogEvent (demoEnv 3000000000) demoAtom 3000000000
                  (OnConfigUpdated (demoEnv 2000000000) 2000000000 2000000000 demoKey
                     demoConfig False
                     (OnConfigRemoved (demoEnv 2000000000) demoKey
                        (OnLogEvent (demoEnv 1000000000) demoAtom 1000000000 demoProcessor)))))
       = [1000000000, 3000000000]
   \<and> broadcastTimes demoKey
        (calls (OnLogEvent (demoEnv 3000000000) demoAtom 3000000000
                  (OnConfigUpdated (demoEnv 2000000000) 2000000000 2000000000 demoKey
                     demoConfig False
                     (OnConfigRemoved (demoEnv 2000000000) demoKey
                        (OnLogEvent (demoEnv 1000000000) demoAtom 1000000000 demoProcessor)))))
       = [1000000000, 3000000000]"
proof -
  have "activationBroadcastTimes 10001 (calls afterReinstallEvent) = [1000000000, 3000000000]
      \<and> broadcastTimes demoKey (calls afterReinstallEvent) = [1000000000, 3000000000]"
    unfolding afterReinstallEvent_eq by (simp add: demoKey_def)
  then show ?thesis
    unfolding afterReinstallEvent_def afterReinstall_def afterFirstEvent_def
    by (simp add: demo_defs)
qed

end
